(* ===== verification/Prelude.thy ===== *)
theory Prelude
  imports Complex_Main "HOL-Library.Sublist"
begin

text \<open>
  Shared vocabulary of the development. The Python program raises exceptions; they are
  modelled as the left injection of a sum type, and a chain of statements that may raise
  is a chain of \<open>res_bind\<close>. The collection \<open>py_simps\<close> holds the evaluation rules of
  the Python operations on lists that raise (\<open>xs[-1]\<close>, \<open>xs[k]\<close>, \<open>xs[-1].append\<close>); the
  component theories declare them into it and unfold them with it. Generic lemmas on lists that several
  components share are stated here once.
\<close>

named_theorems py_simps "evaluation rules of the Python runtime model"

section \<open>Results: exceptions as the left injection\<close>

definition res_bind :: "'e + 'a \<Rightarrow> ('a \<Rightarrow> 'e + 'b) \<Rightarrow> 'e + 'b" where
  "res_bind r f = (case r of Inl e \<Rightarrow> Inl e | Inr a \<Rightarrow> f a)"

lemma res_bind_Inl [simp]: "res_bind (Inl e) f = Inl e"
  by (simp add: res_bind_def)

lemma res_bind_Inr [simp]: "res_bind (Inr a) f = f a"
  by (simp add: res_bind_def)

lemma res_bind_eq_Inr:
  "res_bind r f = Inr b \<longleftrightarrow> (\<exists>a. r = Inr a \<and> f a = Inr b)"
  by (cases r) (auto simp: res_bind_def)

lemma res_bind_eq_Inl:
  "res_bind r f = Inl e \<longleftrightarrow> r = Inl e \<or> (\<exists>a. r = Inr a \<and> f a = Inl e)"
  by (cases r) (auto simp: res_bind_def)

lemma res_bind_assoc: "res_bind (res_bind r f) g = res_bind r (\<lambda>a. res_bind (f a) g)"
  by (cases r) simp_all

section \<open>Lists\<close>

lemma last_concat_nonempty:
  "xss \<noteq> [] \<Longrightarrow> [] \<notin> set xss \<Longrightarrow> last (concat xss) = last (last xss)"
proof (induction xss)
  case (Cons a xss)
  show ?case
  proof (cases "xss = []")
    case False
    with Cons.prems have "concat xss \<noteq> []" by (cases xss) auto
    with Cons False show ?thesis by simp
  qed simp
qed simp


lemma sorted_map_le_last: "sorted (map f xs) \<Longrightarrow> x \<in> set xs \<Longrightarrow> f x \<le> f (last xs)"
proof (induction xs)
  case (Cons a xs)
  then show ?case by (cases "xs = []") auto
qed simp


lemma sorted_map_last_append:
  "sorted (map f (xs @ ys)) \<Longrightarrow> xs \<noteq> [] \<Longrightarrow> sorted (map f (last xs # ys))"
  by (auto simp: sorted_append)

lemma upt_map_sorted: "(\<And>i j. i \<le> j \<Longrightarrow> g i \<le> (g j :: 'a :: linorder)) \<Longrightarrow> sorted (map g [0..<n])"
  by (induction n) (auto simp: sorted_append)

lemma sum_list_fst_nonneg:
  "\<forall>f \<in> set xs. (0 :: 'a :: ordered_comm_monoid_add) \<le> fst f \<Longrightarrow> 0 \<le> sum_list (map fst xs)"
  by (induction xs) (auto intro: add_nonneg_nonneg)

end
