(* ===== verification/PyText.thy ===== *)
theory PyText
  imports Prelude
begin

text \<open>
  The Python string operations that src/password_cracking_curve.py calls on its
  input: \<open>str.strip\<close> and \<open>str.startswith\<close> (lines 44-45), \<open>str.replace\<close>
  (line 73), \<open>str.split('/')[-1]\<close> and the operator \<open>in\<close> on strings (lines 268
  and 271), and \<open>str()\<close> of an int inside an f-string (line 77).
  A Python \<open>str\<close> is modelled as a \<open>string\<close> whose characters are its code points;
  the model covers code points below 256, which is what \<open>char\<close> holds.
\<close>

section \<open>Whitespace, strip, startswith\<close>

text \<open>\<open>str.isspace\<close> on code points below 256: \<open>\t \n \v \f \r\<close>, the separators
  \<open>\x1c\<close>-\<open>\x1f\<close>, space, NEL (\<open>\x85\<close>) and NO-BREAK SPACE (\<open>\xa0\<close>).\<close>

definition py_isspace :: "char \<Rightarrow> bool" where
  "py_isspace c = (let n = (of_char c :: nat) in
     (9 \<le> n \<and> n \<le> 13) \<or> (28 \<le> n \<and> n \<le> 32) \<or> n = 133 \<or> n = 160)"

definition py_strip :: "string \<Rightarrow> string" where
  "py_strip s = rev (dropWhile py_isspace (rev (dropWhile py_isspace s)))"

definition py_startswith :: "string \<Rightarrow> string \<Rightarrow> bool" where
  "py_startswith s p = (take (length p) s = p)"

section \<open>Substring test and replace\<close>

text \<open>\<open>sub in s\<close>: a scan of the start positions of \<open>s\<close>.\<close>

fun str_contains :: "string \<Rightarrow> string \<Rightarrow> bool" where
  "str_contains sub [] = (sub = [])"
| "str_contains sub (c # cs) = (take (length sub) (c # cs) = sub \<or> str_contains sub cs)"

text \<open>\<open>s.replace(old, new)\<close> for a non-empty \<open>old\<close>: occurrences are replaced left to
  right, and scanning resumes after the replaced occurrence, so they do not overlap.\<close>

fun str_replace :: "string \<Rightarrow> string \<Rightarrow> string \<Rightarrow> string" where
  "str_replace old new [] = []"
| "str_replace old new (c # cs) =
     (if old \<noteq> [] \<and> take (length old) (c # cs) = old
      then new @ str_replace old new (drop (length old) (c # cs))
      else c # str_replace old new cs)"

text \<open>With an empty \<open>old\<close>, Python inserts \<open>new\<close> before every character and at the end.\<close>

definition py_replace :: "string \<Rightarrow> string \<Rightarrow> string \<Rightarrow> string" where
  "py_replace s old new =
     (if old = [] then new @ concat (map (\<lambda>c. c # new) s) else str_replace old new s)"

section \<open>split on a one-character separator\<close>

fun py_split_char :: "char \<Rightarrow> string \<Rightarrow> string list" where
  "py_split_char sep [] = [[]]"
| "py_split_char sep (c # cs) =
     (let r = py_split_char sep cs in
      if c = sep then [] # r else (c # hd r) # tl r)"

text \<open>\<open>s.split('/')[-1]\<close>: the list \<open>split\<close> returns is never empty, so \<open>[-1]\<close>
  never raises.\<close>

definition last_segment :: "char \<Rightarrow> string \<Rightarrow> string" where
  "last_segment sep s = last (py_split_char sep s)"

text \<open>\<open>sep.join(parts)\<close> (used on line 133 for the list of data sources).\<close>

fun py_join :: "string \<Rightarrow> string list \<Rightarrow> string" where
  "py_join sep [] = []"
| "py_join sep [x] = x"
| "py_join sep (x # y # xs) = x @ sep @ py_join sep (y # xs)"

section \<open>str() of an int\<close>

definition digit_char :: "nat \<Rightarrow> char" where
  "digit_char d = char_of (48 + d)"

fun nat_str :: "nat \<Rightarrow> string" where
  "nat_str n = (if n < 10 then [digit_char n] else nat_str (n div 10) @ [digit_char (n mod 10)])"

declare nat_str.simps [simp del]

definition int_str :: "int \<Rightarrow> string" where
  "int_str i = (if i < 0 then CHR ''-'' # nat_str (nat (- i)) else nat_str (nat i))"

text \<open>The inverse direction, \<open>int(s)\<close> on the strings \<open>str\<close> produces.\<close>

definition digit_val :: "char \<Rightarrow> nat" where
  "digit_val c = of_char c - 48"

definition nat_of_digits :: "string \<Rightarrow> nat" where
  "nat_of_digits s = foldl (\<lambda>n c. 10 * n + digit_val c) 0 s"

section \<open>Lemmas: split and join\<close>

lemma py_split_char_nonempty [simp]: "py_split_char sep s \<noteq> []"
  by (induction s) (auto simp: Let_def)

lemma py_join_Cons_hd: "r \<noteq> [] \<Longrightarrow> py_join sep ((c # hd r) # tl r) = c # py_join sep r"
  by (cases r rule: remdups_adj.cases) auto

lemma join_split: "py_join [sep] (py_split_char sep s) = s"
proof (induction s)
  case Nil
  show ?case by simp
next
  case (Cons c cs)
  have ne: "py_split_char sep cs \<noteq> []" by simp
  show ?case
  proof (cases "c = sep")
    case True
    with Cons.IH ne show ?thesis
      by (cases "py_split_char sep cs") (auto simp: Let_def)
  next
    case False
    with Cons.IH ne show ?thesis by (simp add: Let_def py_join_Cons_hd)
  qed
qed

lemma length_py_split_char: "length (py_split_char sep s) = Suc (count_list s sep)"
  by (induction s) (auto simp: Let_def)

lemma last_split_takeWhile:
  "last (py_split_char sep s) = rev (takeWhile (\<lambda>c. c \<noteq> sep) (rev s))"
proof (induction s)
  case Nil
  show ?case by simp
next
  case (Cons c cs)
  obtain w ws where r: "py_split_char sep cs = w # ws"
    by (cases "py_split_char sep cs") auto
  show ?case
  proof (cases "sep \<in> set cs")
    case True
    then have "takeWhile (\<lambda>x. x \<noteq> sep) (rev cs @ [c]) = takeWhile (\<lambda>x. x \<noteq> sep) (rev cs)"
      by (simp add: takeWhile_append1 [where x = sep])
    moreover from True have "ws \<noteq> []"
      using length_py_split_char [of sep cs] r count_list_0_iff [of cs sep] by auto
    ultimately show ?thesis using Cons.IH r by (auto simp: Let_def)
  next
    case False
    then have tw: "takeWhile (\<lambda>x. x \<noteq> sep) (rev cs) = rev cs"
      by (auto simp: takeWhile_eq_all_conv)
    from False have "ws = []"
      using length_py_split_char [of sep cs] r count_list_0_iff [of cs sep] by auto
    show ?thesis
    proof (cases "c = sep")
      case True
      with Cons.IH r \<open>ws = []\<close> show ?thesis
        by (simp add: Let_def takeWhile_tail [where l = "[]", simplified] tw)
    next
      case c: False
      with False have tw2: "takeWhile (\<lambda>x. x \<noteq> sep) (rev cs @ [c]) = rev cs @ [c]"
        by (auto simp: takeWhile_eq_all_conv)
      from Cons.IH r c \<open>ws = []\<close> show ?thesis by (simp add: Let_def tw tw2)
    qed
  qed
qed

lemma last_segment_no_sep: "sep \<notin> set (last_segment sep s)"
  by (auto simp: last_segment_def last_split_takeWhile dest: set_takeWhileD)

lemma last_segment_after_sep: "last_segment sep (a @ sep # b) = last_segment sep b"
proof (cases "sep \<in> set b")
  case True
  then obtain x where "x \<in> set (rev b)" "\<not> x \<noteq> sep" by auto
  then show ?thesis by (simp add: last_segment_def last_split_takeWhile)
next
  case False
  then show ?thesis by (simp add: last_segment_def last_split_takeWhile takeWhile_tail)
qed

section \<open>Lemmas: str() and int() of integers\<close>

lemma of_char_digit_char [simp]: "d < 10 \<Longrightarrow> of_char (digit_char d) = 48 + d"
  by (simp add: digit_char_def)

lemma nat_of_digits_snoc [simp]:
  "nat_of_digits (s @ [c]) = 10 * nat_of_digits s + digit_val c"
  by (simp add: nat_of_digits_def)

lemma nat_of_digits_nat_str [simp]: "nat_of_digits (nat_str n) = n"
proof (induction n rule: nat_str.induct)
  case (1 n)
  show ?case
  proof (cases "n < 10")
    case True
    then show ?thesis by (simp add: nat_str.simps [of n] nat_of_digits_def digit_val_def)
  next
    case False
    then have "nat_of_digits (nat_str n) = 10 * (n div 10) + n mod 10"
      using "1.IH" by (simp add: nat_str.simps [of n] digit_val_def)
    then show ?thesis by simp
  qed
qed

lemma nat_str_nonempty [simp]: "nat_str n \<noteq> []"
  by (simp add: nat_str.simps [of n])

lemma digit_char_not_minus: "d < 10 \<Longrightarrow> digit_char d \<noteq> CHR ''-''"
proof
  assume "d < 10" "digit_char d = CHR ''-''"
  then have "48 + d = of_char (CHR ''-'')" by (metis of_char_digit_char)
  then show False by simp
qed

lemma nat_str_hd: "hd (nat_str n) \<noteq> CHR ''-''"
proof (induction n rule: nat_str.induct)
  case (1 n)
  then show ?case
    by (cases "n < 10") (auto simp: nat_str.simps [of n] hd_append digit_char_not_minus)
qed

section \<open>Lemmas: substring test and replace\<close>

lemma str_contains_take: "take (length sub) s = sub \<Longrightarrow> str_contains sub s"
  by (cases s) auto

lemma str_contains_prefix: "str_contains sub (sub @ b)"
  by (rule str_contains_take) simp

lemma str_contains_append_left: "str_contains sub b \<Longrightarrow> str_contains sub (a @ b)"
  by (induction a) auto

lemma str_replace_absent:
  "\<not> str_contains old s \<Longrightarrow> str_replace old new s = s"
  by (induction old new s rule: str_replace.induct) auto

lemma str_replace_introduces_new:
  "old \<noteq> [] \<Longrightarrow> str_contains old s \<Longrightarrow> str_contains new (str_replace old new s)"
proof (induction old new s rule: str_replace.induct)
  case (1 old new)
  then show ?case by simp
next
  case (2 old new c cs)
  show ?case
  proof (cases "take (length old) (c # cs) = old")
    case True
    with "2.prems" show ?thesis by (simp add: str_contains_prefix)
  next
    case False
    with "2.prems" have "str_contains old cs" by simp
    with "2.IH"(2) False "2.prems"(1) have "str_contains new (str_replace old new cs)" by simp
    with False "2.prems"(1) show ?thesis using str_contains_append_left [of new _ "[c]"] by simp
  qed
qed

end
