(* ===== verification/PyValue.thy ===== *)
theory PyValue
  imports PyText
begin

text \<open>
  The Python objects that \<open>json.loads\<close> returns and the operations that
  \<open>HashcatStatusParser.parse_status_file\<close> (src/password_cracking_curve.py, lines
  52-77) applies to them. A decoded value is \<open>None\<close>, a bool, an int, a float, a
  str, a list or a dict (\<open>pyval\<close>). Python floats are modelled by the exact rational
  number their \<open>repr\<close> denotes; rounding of float arithmetic and the non-finite
  values \<open>NaN\<close> and \<open>Infinity\<close> (which \<open>json.loads\<close> accepts) are not modelled.
  A dict is an association list in insertion order; the values the decoder produces
  have distinct keys (\<open>py_wf\<close>).
  Every exception an operation can raise is a constructor of \<open>py_error\<close>.
\<close>

datatype pyval =
    PNone
  | PBool bool
  | PInt int
  | PFloat rat
  | PStr string
  | PList "pyval list"
  | PDict "(string \<times> pyval) list"

datatype py_error = TypeError | IndexError | KeyError | AttributeError | ZeroDivisionError

type_synonym 'a py_result = "py_error + 'a"

section \<open>Well-formed values\<close>

fun py_wf :: "pyval \<Rightarrow> bool" where
  "py_wf (PList xs) = (\<forall>x \<in> set xs. py_wf x)"
| "py_wf (PDict kvs) = (distinct (map fst kvs) \<and> (\<forall>kv \<in> set kvs. py_wf (snd kv)))"
| "py_wf _ = True"

section \<open>Numbers\<close>

text \<open>The numeric view of a value: \<open>bool\<close> is a subclass of \<open>int\<close> in Python.\<close>

fun py_num :: "pyval \<Rightarrow> rat option" where
  "py_num (PBool b) = Some (if b then 1 else 0)"
| "py_num (PInt i) = Some (of_int i)"
| "py_num (PFloat r) = Some r"
| "py_num _ = None"

text \<open>\<open>acc += v\<close> for a numeric accumulator: any non-number raises TypeError.\<close>

definition py_add_num :: "rat \<Rightarrow> pyval \<Rightarrow> rat py_result" where
  "py_add_num acc v = (case py_num v of Some r \<Rightarrow> Inr (acc + r) | None \<Rightarrow> Inl TypeError)"

text \<open>\<open>v > 0\<close>: comparing a str, list, dict or None with an int raises TypeError.\<close>

definition py_gt_zero :: "pyval \<Rightarrow> bool py_result" where
  "py_gt_zero v = (case py_num v of Some r \<Rightarrow> Inr (0 < r) | None \<Rightarrow> Inl TypeError)"

text \<open>\<open>(a / b) * 100\<close>: true division gives a float; a zero divisor raises.\<close>

definition py_percent :: "pyval \<Rightarrow> pyval \<Rightarrow> pyval py_result" where
  "py_percent a b =
     (case (py_num a, py_num b) of
        (Some x, Some y) \<Rightarrow> if y = 0 then Inl ZeroDivisionError else Inr (PFloat (x / y * 100))
      | _ \<Rightarrow> Inl TypeError)"

section \<open>Subscription and dict.get\<close>

text \<open>Python sequence indexing: a negative index counts from the end.\<close>

definition seq_index :: "'a list \<Rightarrow> int \<Rightarrow> 'a option" where
  "seq_index xs i =
     (let n = int (length xs); j = (if i < 0 then n + i else i)
      in if 0 \<le> j \<and> j < n then Some (xs ! nat j) else None)"

text \<open>\<open>v[i]\<close> for an int \<open>i\<close>: a list or str out of range raises IndexError; a dict
  (whose keys are str) raises KeyError; None, bool, int and float are not subscriptable.\<close>

fun py_getitem :: "pyval \<Rightarrow> int \<Rightarrow> pyval py_result" where
  "py_getitem (PList xs) i = (case seq_index xs i of Some x \<Rightarrow> Inr x | None \<Rightarrow> Inl IndexError)"
| "py_getitem (PStr s) i = (case seq_index s i of Some c \<Rightarrow> Inr (PStr [c]) | None \<Rightarrow> Inl IndexError)"
| "py_getitem (PDict kvs) i = Inl KeyError"
| "py_getitem _ i = Inl TypeError"

text \<open>\<open>v.get(k, d)\<close>: only a dict has the method.\<close>

fun py_get :: "pyval \<Rightarrow> string \<Rightarrow> pyval \<Rightarrow> pyval py_result" where
  "py_get (PDict kvs) k d = Inr (case map_of kvs k of Some v \<Rightarrow> v | None \<Rightarrow> d)"
| "py_get _ k d = Inl AttributeError"

text \<open>\<open>v.replace(old, new)\<close> and \<open>v.split('/')[-1]\<close>: only a str has these methods.\<close>

fun py_replace_method :: "pyval \<Rightarrow> string \<Rightarrow> string \<Rightarrow> string py_result" where
  "py_replace_method (PStr s) old new = Inr (py_replace s old new)"
| "py_replace_method _ old new = Inl AttributeError"

fun py_split_last_method :: "pyval \<Rightarrow> char \<Rightarrow> string py_result" where
  "py_split_last_method (PStr s) sep = Inr (last_segment sep s)"
| "py_split_last_method _ sep = Inl AttributeError"

section \<open>str() and repr()\<close>

text \<open>\<open>repr\<close> of a str: single quotes unless the string holds a single quote and no
  double quote; backslash, the quote, tab, newline and carriage return are escaped,
  other non-printable code points (below 32, 127-160 and 173) are written \<open>\xhh\<close>.\<close>

definition py_printable :: "char \<Rightarrow> bool" where
  "py_printable c = (let n = (of_char c :: nat) in (32 \<le> n \<and> n \<le> 126) \<or> (161 \<le> n \<and> n \<noteq> 173))"

definition hex_digit :: "nat \<Rightarrow> char" where
  "hex_digit d = (if d < 10 then char_of (48 + d) else char_of (87 + d))"

definition repr_char :: "char \<Rightarrow> char \<Rightarrow> string" where
  "repr_char q c =
     (let n = (of_char c :: nat) in
      if c = q \<or> n = 92 then [CHR 0x5C, c]
      else if n = 9 then [CHR 0x5C, CHR ''t'']
      else if n = 10 then [CHR 0x5C, CHR ''n'']
      else if n = 13 then [CHR 0x5C, CHR ''r'']
      else if \<not> py_printable c then [CHR 0x5C, CHR ''x'', hex_digit (n div 16), hex_digit (n mod 16)]
      else [c])"

definition str_repr :: "string \<Rightarrow> string" where
  "str_repr s =
     (let q = (if CHR 0x27 \<in> set s \<and> CHR 0x22 \<notin> set s then CHR 0x22 else CHR 0x27)
      in q # concat (map (repr_char q) s) @ [q])"

text \<open>\<open>repr\<close> of a float, for a value given by its shortest decimal expansion
  \<open>m * 10^e\<close>: positional notation when the decimal exponent of the leading digit is
  in \<open>[-4, 16)\<close>, with \<open>.0\<close> for integral values; scientific notation with a signed
  exponent of at least two digits otherwise. A rational that is not a terminating decimal
  (never the result of decoding a JSON literal) is cut after 17 fractional digits.\<close>

function pow_count :: "nat \<Rightarrow> nat \<Rightarrow> nat" where
  "pow_count p n = (if 1 < p \<and> 0 < n \<and> n mod p = 0 then Suc (pow_count p (n div p)) else 0)"
  by pat_completeness auto
termination
  by (relation "measure (\<lambda>(p, n). n)") auto

function strip_tens :: "nat \<Rightarrow> nat \<times> nat" where
  "strip_tens n = (if 0 < n \<and> n mod 10 = 0 then (case strip_tens (n div 10) of (m, t) \<Rightarrow> (m, Suc t))
                  else (n, 0))"
  by pat_completeness auto
termination
  by (relation "measure id") auto

definition exp_digits :: "nat \<Rightarrow> string" where
  "exp_digits e = (if e < 10 then CHR ''0'' # nat_str e else nat_str e)"

definition float_repr :: "rat \<Rightarrow> string" where
  "float_repr r =
     (if r = 0 then ''0.0'' else
      (case quotient_of \<bar>r\<bar> of (p, q) \<Rightarrow>
       let pn = nat p; qn = nat q;
           i = pow_count 2 qn; j = pow_count 5 qn;
           k = (if qn = 2 ^ i * 5 ^ j then max i j else 17)
       in case strip_tens (pn * 10 ^ k div qn) of (m, t) \<Rightarrow>
       let e = int t - int k; ds = nat_str m; x = e + int (length ds) - 1;
           body = (if -4 \<le> x \<and> x < 16 then
                     (if 0 \<le> e then ds @ replicate (nat e) CHR ''0'' @ ''.0''
                      else if 0 \<le> x then take (nat x + 1) ds @ ''.'' @ drop (nat x + 1) ds
                      else ''0.'' @ replicate (nat (- x - 1)) CHR ''0'' @ ds)
                   else [hd ds] @ (if tl ds = [] then [] else ''.'' @ tl ds) @ ''e'' @
                        (if x < 0 then ''-'' else ''+'') @ exp_digits (nat \<bar>x\<bar>))
       in if r < 0 then CHR ''-'' # body else body))"

fun py_repr :: "pyval \<Rightarrow> string" where
  "py_repr PNone = ''None''"
| "py_repr (PBool b) = (if b then ''True'' else ''False'')"
| "py_repr (PInt i) = int_str i"
| "py_repr (PFloat r) = float_repr r"
| "py_repr (PStr s) = str_repr s"
| "py_repr (PList xs) = ''['' @ py_join '', '' (map py_repr xs) @ '']''"
| "py_repr (PDict kvs) =
     ''{'' @ py_join '', '' (map (\<lambda>kv. str_repr (fst kv) @ '': '' @ py_repr (snd kv)) kvs) @ ''}''"

text \<open>\<open>str(v)\<close>, which an f-string applies: a str is itself, everything else its repr.\<close>

definition py_str :: "pyval \<Rightarrow> string" where
  "py_str v = (case v of PStr s \<Rightarrow> s | _ \<Rightarrow> py_repr v)"

section \<open>Equality\<close>

text \<open>\<open>a == b\<close>: numbers compare by value across bool, int and float; str, list and
  dict compare structurally, dicts as maps; values of different kinds are unequal.\<close>

fun py_eq :: "pyval \<Rightarrow> pyval \<Rightarrow> bool"
  and py_eq_list :: "pyval list \<Rightarrow> pyval list \<Rightarrow> bool"
  and py_eq_dict :: "(string \<times> pyval) list \<Rightarrow> (string \<times> pyval) list \<Rightarrow> bool" where
  "py_eq PNone PNone = True"
| "py_eq (PStr a) (PStr b) = (a = b)"
| "py_eq (PList xs) (PList ys) = py_eq_list xs ys"
| "py_eq (PDict xs) (PDict ys) = (length xs = length ys \<and> py_eq_dict xs ys)"
| "py_eq a b = (case (py_num a, py_num b) of (Some x, Some y) \<Rightarrow> x = y | _ \<Rightarrow> False)"
| "py_eq_list [] [] = True"
| "py_eq_list (x # xs) (y # ys) = (py_eq x y \<and> py_eq_list xs ys)"
| "py_eq_list _ _ = False"
| "py_eq_dict [] ys = True"
| "py_eq_dict ((k, v) # kvs) ys =
     ((case map_of ys k of Some w \<Rightarrow> py_eq v w | None \<Rightarrow> False) \<and> py_eq_dict kvs ys)"

section \<open>Lemmas: equality\<close>

lemma py_eq_list_refl: "(\<And>x. x \<in> set xs \<Longrightarrow> py_eq x x) \<Longrightarrow> py_eq_list xs xs"
  by (induction xs) auto

lemma py_eq_dict_sub:
  assumes "distinct (map fst ys)" and "set kvs \<subseteq> set ys"
    and "\<And>kv. kv \<in> set kvs \<Longrightarrow> py_eq (snd kv) (snd kv)"
  shows "py_eq_dict kvs ys"
  using assms(2,3)
proof (induction kvs)
  case Nil
  then show ?case by simp
next
  case (Cons kv kvs)
  obtain k v where kv: "kv = (k, v)" by (cases kv)
  with Cons.prems(1) assms(1) have "map_of ys k = Some v" by auto
  moreover have "py_eq v v" using Cons.prems(2) [of kv] kv by simp
  moreover have "py_eq_dict kvs ys" using Cons by simp
  ultimately show ?case by (simp add: kv)
qed

lemma py_eq_refl: "py_wf v \<Longrightarrow> py_eq v v"
proof (induction v)
  case (PList xs)
  then show ?case by (auto intro: py_eq_list_refl)
next
  case (PDict kvs)
  have "py_eq (snd kv) (snd kv)" if "kv \<in> set kvs" for kv
  proof -
    have "snd kv \<in> Basic_BNFs.snds kv" by (cases kv) simp
    with that PDict show ?thesis by auto
  qed
  with PDict.prems have "py_eq_dict kvs kvs"
    by (intro py_eq_dict_sub) auto
  then show ?case by simp
qed auto

lemma py_eq_list_iff: "py_eq_list xs ys \<longleftrightarrow> list_all2 py_eq xs ys"
  by (induction xs arbitrary: ys) (auto simp: list_all2_Cons1 elim: py_eq_list.elims)

lemma py_eq_dict_iff:
  "py_eq_dict xs ys \<longleftrightarrow> (\<forall>kv \<in> set xs. \<exists>w. map_of ys (fst kv) = Some w \<and> py_eq (snd kv) w)"
  by (induction xs) (auto split: option.splits)

lemma py_eq_cases:
  "py_eq a b \<longleftrightarrow>
     (a = PNone \<and> b = PNone) \<or> (\<exists>s. a = PStr s \<and> b = PStr s) \<or>
     (\<exists>xs ys. a = PList xs \<and> b = PList ys \<and> list_all2 py_eq xs ys) \<or>
     (\<exists>xs ys. a = PDict xs \<and> b = PDict ys \<and> length xs = length ys \<and> py_eq_dict xs ys) \<or>
     (\<exists>r. py_num a = Some r \<and> py_num b = Some r)"
  by (cases a; cases b) (auto simp: py_eq_list_iff)

lemma py_eq_PList: "py_eq (PList xs) b \<longleftrightarrow> (\<exists>ys. b = PList ys \<and> list_all2 py_eq xs ys)"
  by (cases b) (simp_all add: py_eq_list_iff)

lemma py_eq_PDict:
  "py_eq (PDict xs) b \<longleftrightarrow> (\<exists>ys. b = PDict ys \<and> length xs = length ys \<and> py_eq_dict xs ys)"
  by (cases b) simp_all

lemma distinct_keys_eq:
  assumes "distinct (map fst xs)" "distinct (map fst ys)" "length xs = length ys"
    and "set (map fst xs) \<subseteq> set (map fst ys)"
  shows "set (map fst ys) = set (map fst xs)"
proof -
  have "card (set (map fst xs)) = card (set (map fst ys))"
    by (simp only: distinct_card [OF assms(1)] distinct_card [OF assms(2)] length_map assms(3))
  with assms(4) show ?thesis by (intro card_subset_eq [symmetric]) simp_all
qed

lemma py_eq_dict_keys:
  "py_eq_dict xs ys \<Longrightarrow> set (map fst xs) \<subseteq> set (map fst ys)"
  by (auto simp: py_eq_dict_iff dest!: map_of_SomeD bspec intro: rev_image_eqI)

lemma snd_in_snds: "kv \<in> set kvs \<Longrightarrow> snd kv \<in> Basic_BNFs.snds kv"
  by (cases kv) simp

lemma py_eq_sym: "py_wf a \<Longrightarrow> py_wf b \<Longrightarrow> py_eq a b \<Longrightarrow> py_eq b a"
proof (induction a arbitrary: b)
  case (PList xs)
  then obtain ys where b: "b = PList ys" and r: "list_all2 py_eq xs ys"
    by (auto simp: py_eq_PList py_eq_PDict)
  have "list_all2 py_eq ys xs"
    using r PList.IH PList.prems(1,2) b
    by (auto simp: list_all2_conv_all_nth)
  then show ?case by (simp add: b py_eq_list_iff)
next
  case (PDict xs)
  then obtain ys where b: "b = PDict ys" and l: "length xs = length ys" and d: "py_eq_dict xs ys"
    by (auto simp: py_eq_PList py_eq_PDict)
  have dx: "distinct (map fst xs)" and dy: "distinct (map fst ys)"
    using PDict.prems(1,2) b by simp_all
  have keys: "set (map fst ys) = set (map fst xs)"
    using distinct_keys_eq [OF dx dy l py_eq_dict_keys [OF d]] .
  have "\<exists>v. map_of xs (fst kw) = Some v \<and> py_eq (snd kw) v" if kw: "kw \<in> set ys" for kw
  proof -
    have "fst kw \<in> set (map fst xs)" using kw keys by auto
    then obtain v where v: "map_of xs (fst kw) = Some v" by (auto dest: weak_map_of_SomeI)
    then have kv: "(fst kw, v) \<in> set xs" by (rule map_of_SomeD)
    then obtain w where "map_of ys (fst kw) = Some w" "py_eq v w"
      using d by (auto simp: py_eq_dict_iff)
    moreover have "map_of ys (fst kw) = Some (snd kw)" using kw dy by simp
    ultimately have "py_eq v (snd kw)" by simp
    moreover have "py_wf v" "py_wf (snd kw)" using PDict.prems(1,2) b kv kw by auto
    moreover have "v \<in> Basic_BNFs.snds (fst kw, v)" by simp
    ultimately have "py_eq (snd kw) v" using PDict.IH kv by blast
    with v show ?thesis by blast
  qed
  then show ?case using l by (simp add: b py_eq_dict_iff)
qed (auto simp: py_eq_cases)

lemma py_eq_None: "py_eq PNone b \<longleftrightarrow> b = PNone"
  by (cases b) simp_all

lemma py_eq_Str: "py_eq (PStr s) b \<longleftrightarrow> b = PStr s"
  by (cases b) auto

lemma py_eq_num: "py_num a = Some r \<Longrightarrow> py_eq a b \<longleftrightarrow> py_num b = Some r"
  by (cases a; cases b) auto

lemma py_eq_num_trans: "py_num a = Some r \<Longrightarrow> py_eq a b \<Longrightarrow> py_eq b c \<Longrightarrow> py_eq a c"
proof -
  assume a: "py_num a = Some r" and ab: "py_eq a b" and bc: "py_eq b c"
  from a ab have b: "py_num b = Some r" by (simp add: py_eq_num)
  from b bc have "py_num c = Some r" by (simp add: py_eq_num)
  with a show ?thesis by (simp add: py_eq_num)
qed

lemma py_eq_trans:
  "py_wf a \<Longrightarrow> py_wf b \<Longrightarrow> py_wf c \<Longrightarrow> py_eq a b \<Longrightarrow> py_eq b c \<Longrightarrow> py_eq a c"
proof (induction a arbitrary: b c)
  case (PList xs)
  from PList.prems(4) obtain ys where b: "b = PList ys" and r1: "list_all2 py_eq xs ys"
    by (auto simp: py_eq_PList py_eq_PDict)
  from PList.prems(5) b obtain zs where c: "c = PList zs" and r2: "list_all2 py_eq ys zs"
    by (auto simp: py_eq_PList py_eq_PDict)
  have l: "length ys = length xs" "length zs = length xs"
    using r1 r2 by (simp_all add: list_all2_lengthD)
  have "list_all2 py_eq xs zs"
  proof (rule list_all2_all_nthI)
    show "length xs = length zs" using l by simp
    fix i assume i: "i < length xs"
    have "py_eq (xs ! i) (ys ! i)" "py_eq (ys ! i) (zs ! i)"
      using i l r1 r2 by (simp_all add: list_all2_nthD)
    moreover have "py_wf (xs ! i)" "py_wf (ys ! i)" "py_wf (zs ! i)"
      using i l PList.prems(1-3) b c by simp_all
    ultimately show "py_eq (xs ! i) (zs ! i)"
      using i by (intro PList.IH [of "xs ! i" "ys ! i" "zs ! i"]) simp_all
  qed
  then show ?case by (simp add: c py_eq_list_iff)
next
  case (PDict xs)
  from PDict.prems(4) obtain ys where b: "b = PDict ys" and l1: "length xs = length ys" and d1: "py_eq_dict xs ys"
    by (auto simp: py_eq_PList py_eq_PDict)
  from PDict.prems(5) b obtain zs where c: "c = PDict zs" and l2: "length ys = length zs"
    and d2: "py_eq_dict ys zs"
    by (auto simp: py_eq_PList py_eq_PDict)
  have "\<exists>u. map_of zs (fst kv) = Some u \<and> py_eq (snd kv) u" if kv: "kv \<in> set xs" for kv
  proof -
    obtain w where w: "map_of ys (fst kv) = Some w" "py_eq (snd kv) w"
      using d1 kv by (auto simp: py_eq_dict_iff)
    then have kw: "(fst kv, w) \<in> set ys" by (simp add: map_of_SomeD)
    then obtain u where u: "map_of zs (fst kv) = Some u" "py_eq w u"
      using d2 by (auto simp: py_eq_dict_iff)
    then have ku: "(fst kv, u) \<in> set zs" by (simp add: map_of_SomeD)
    have "py_wf (snd kv)" "py_wf w" "py_wf u"
      using PDict.prems(1-3) b c kv kw ku by auto
    then have "py_eq (snd kv) u"
      using PDict.IH [OF kv snd_in_snds [OF kv]] w(2) u(2) by blast
    with u show ?thesis by blast
  qed
  then show ?case using l1 l2 by (simp add: c py_eq_dict_iff)
next
  case (PBool x)
  then show ?case using py_eq_num_trans [of "PBool x" "(if x then 1 else 0)" b c] by simp
next
  case (PInt x)
  then show ?case using py_eq_num_trans [of "PInt x" "of_int x" b c] by simp
next
  case (PFloat x)
  then show ?case using py_eq_num_trans [of "PFloat x" "x" b c] by simp
qed (simp_all add: py_eq_None py_eq_Str)

lemma py_get_wf: "py_wf v \<Longrightarrow> py_wf d \<Longrightarrow> py_get v k d = Inr r \<Longrightarrow> py_wf r"
  by (cases v) (auto split: option.splits dest: map_of_SomeD)

end
