(* ===== verification/Reader.thy ===== *)
theory Reader
  imports PyValue
begin

text \<open>
  The record reader of \<open>parse_status_file\<close> (src/password_cracking_curve.py,
  lines 42-49 and 99-100): the file is opened in text mode, so \<open>\r\n\<close> and \<open>\r\<close>
  become \<open>\n\<close> (universal newlines, \<open>translate_newlines\<close>), and \<open>for line in f\<close>
  yields the lines with their terminating \<open>\n\<close> (\<open>text_lines\<close>). A line is stripped;
  unless it starts with \<open>{\<close> it is skipped; otherwise it is given to \<open>json.loads\<close>,
  and a \<open>JSONDecodeError\<close> skips it too. \<open>json.loads\<close> is a library function and
  is a parameter of the model (\<open>json_decoder\<close>): \<open>None\<close> is a decoding error.
  \<open>read_records\<close> is the stream of decoded records in file order, the contract
  the spec calls StatusRecordReader; theory Segmenter proves that the loop of the
  source processes exactly this stream.
\<close>

type_synonym json_decoder = "string \<Rightarrow> pyval option"

fun translate_newlines :: "string \<Rightarrow> string" where
  "translate_newlines [] = []"
| "translate_newlines (c # cs) =
     (if c = CHR 0x0D
      then CHR 0x0A # translate_newlines (if cs \<noteq> [] \<and> hd cs = CHR 0x0A then tl cs else cs)
      else c # translate_newlines cs)"

text \<open>Iterating a text file: each line ends with its \<open>\n\<close>, except a last line
  without one; an empty file has no lines.\<close>

fun lines_from :: "string \<Rightarrow> string \<Rightarrow> string list" where
  "lines_from cur [] = (if cur = [] then [] else [cur])"
| "lines_from cur (c # cs) =
     (if c = CHR 0x0A then (cur @ [c]) # lines_from [] cs else lines_from (cur @ [c]) cs)"

definition text_lines :: "string \<Rightarrow> string list" where
  "text_lines content = lines_from [] (translate_newlines content)"

text \<open>One line of the loop, up to the record it yields: lines 44-49 and 99-100.\<close>

definition line_record :: "json_decoder \<Rightarrow> string \<Rightarrow> pyval list" where
  "line_record loads l =
     (let line = py_strip l in
      if \<not> py_startswith line ''{'' then []
      else case loads line of Some data \<Rightarrow> [data] | None \<Rightarrow> [])"

definition read_records :: "json_decoder \<Rightarrow> string \<Rightarrow> pyval list" where
  "read_records loads content = concat (map (line_record loads) (text_lines content))"

section \<open>Lemmas: lines and the record stream\<close>

lemma concat_lines_from: "concat (lines_from cur s) = cur @ s"
  by (induction cur s rule: lines_from.induct) auto

lemma lines_from_append:
  "a = [] \<or> last a = CHR 0x0A \<Longrightarrow> lines_from cur (a @ b) =
     (if a = [] then lines_from cur b else lines_from cur a @ lines_from [] b)"
proof (induction cur a rule: lines_from.induct)
  case (1 cur)
  then show ?case by simp
next
  case (2 cur c cs)
  show ?case
  proof (cases "cs = []")
    case True
    with "2.prems" show ?thesis by simp
  next
    case False
    with "2.prems" have "last cs = CHR 0x0A" by simp
    with "2.IH" False show ?thesis by simp
  qed
qed

lemma translate_newlines_append:
  "a = [] \<or> last a \<noteq> CHR 0x0D \<Longrightarrow>
   translate_newlines (a @ b) = translate_newlines a @ translate_newlines b"
proof (induction a rule: translate_newlines.induct)
  case 1
  then show ?case by simp
next
  case (2 c cs)
  show ?case
  proof (cases "cs = []")
    case True
    with "2.prems" show ?thesis by simp
  next
    case False
    with "2.prems" have lc: "last cs \<noteq> CHR 0x0D" by simp
    show ?thesis
    proof (cases "c = CHR 0x0D")
      case True
      show ?thesis
      proof (cases "hd cs = CHR 0x0A")
        case True
        have "tl cs = [] \<or> last (tl cs) \<noteq> CHR 0x0D"
          using lc False by (cases cs) auto
        with "2.IH"(1) \<open>c = CHR 0x0D\<close> False True show ?thesis by simp
      next
        case False
        with "2.IH"(1) \<open>c = CHR 0x0D\<close> \<open>cs \<noteq> []\<close> lc show ?thesis by simp
      qed
    next
      case False
      with "2.IH"(2) lc \<open>cs \<noteq> []\<close> show ?thesis by simp
    qed
  qed
qed

lemma translate_newlines_empty_iff [simp]: "translate_newlines s = [] \<longleftrightarrow> s = []"
  by (cases s) auto

lemma last_translate_newlines:
  "s \<noteq> [] \<Longrightarrow> last (translate_newlines s) = (if last s = CHR 0x0D then CHR 0x0A else last s)"
proof (induction s rule: translate_newlines.induct)
  case (2 c cs)
  let ?r = "if cs \<noteq> [] \<and> hd cs = CHR 0x0A then tl cs else cs"
  show ?case
  proof (cases "c = CHR 0x0D")
    case cr: True
    show ?thesis
    proof (cases "?r = []")
      case True
      then have "cs = [] \<or> cs = [CHR 0x0A]" by (cases cs) (auto split: if_splits)
      with cr show ?thesis by auto
    next
      case False
      then have ne: "cs \<noteq> []" by auto
      from False have "last ?r = last cs"
        by (cases cs) (auto simp: last_tl)
      note this ne
      with "2.IH"(1) cr False show ?thesis by simp
    qed
  next
    case False
    with "2.IH"(2) show ?thesis by (cases "cs = []") auto
  qed
qed simp

lemma text_lines_append:
  "last a = CHR 0x0A \<Longrightarrow> a \<noteq> [] \<Longrightarrow> text_lines (a @ b) = text_lines a @ text_lines b"
proof -
  assume a: "last a = CHR 0x0A" "a \<noteq> []"
  then have "translate_newlines (a @ b) = translate_newlines a @ translate_newlines b"
    by (intro translate_newlines_append) simp
  moreover from a have "translate_newlines a \<noteq> []" "last (translate_newlines a) = CHR 0x0A"
    by (simp_all add: last_translate_newlines)
  ultimately show ?thesis
    by (simp add: text_lines_def lines_from_append)
qed

lemma read_records_skip_block:
  assumes a: "a = [] \<or> last a = CHR 0x0A"
    and j: "j \<noteq> []" "last j = CHR 0x0A"
    and junk: "\<forall>l \<in> set (text_lines j). line_record loads l = []"
  shows "read_records loads (a @ j @ b) = read_records loads (a @ b)"
proof -
  have jb: "text_lines (j @ b) = text_lines j @ text_lines b"
    using j by (simp add: text_lines_append)
  have "concat (map (line_record loads) (text_lines j)) = []"
    using junk by simp
  then have "read_records loads (j @ b) = read_records loads b"
    by (simp add: read_records_def jb)
  with a show ?thesis
    by (cases "a = []") (auto simp: read_records_def text_lines_append)
qed

end
