(* ===== verification/CurveSpec.thy ===== *)
theory CurveSpec
  imports Prelude
begin

text \<open>
  The contract of the curve builder, stated without the loop of the source: the record
  stream is cut into maximal runs of records that belong to the phase of the run's first
  record (\<open>group_runs\<close>), and each run becomes one polyline whose first point is the
  last point of the previous polyline, or the anchor for the first one (\<open>stitch\<close>).
  Both are generic in the kind of element and in the test \<open>same x h\<close> ("record \<open>x\<close>
  continues the run headed by \<open>h\<close>"); theory Segmenter instantiates them with the phase
  keys and points of src/password_cracking_curve.py and proves that the loop of
  \<open>parse_status_file\<close> computes them.
\<close>

function group_runs :: "('a \<Rightarrow> 'a \<Rightarrow> bool) \<Rightarrow> 'a list \<Rightarrow> 'a list list" where
  "group_runs same [] = []"
| "group_runs same (h # xs) =
     (h # takeWhile (\<lambda>x. same x h) xs) # group_runs same (dropWhile (\<lambda>x. same x h) xs)"
  by pat_completeness auto
termination
  by (relation "measure (\<lambda>(same, xs). length xs)") (auto simp: le_imp_less_Suc length_dropWhile_le)

fun stitch :: "'p \<Rightarrow> 'p list list \<Rightarrow> 'p list list" where
  "stitch p [] = []"
| "stitch p (g # gs) = (p # g) # stitch (last g) gs"

text \<open>The number of places where a record does not continue the run of its predecessor's
  phase; for an equivalence \<open>same\<close> this counts the phase changes of the stream.\<close>

fun changes :: "('a \<Rightarrow> 'a \<Rightarrow> bool) \<Rightarrow> 'a list \<Rightarrow> nat" where
  "changes same (x # y # xs) = (if same y x then 0 else 1) + changes same (y # xs)"
| "changes same _ = 0"

section \<open>Lemmas: runs\<close>

lemma group_runs_nonempty [simp]: "[] \<notin> set (group_runs same xs)"
  by (induction same xs rule: group_runs.induct) auto

lemma group_runs_empty_iff [simp]: "group_runs same xs = [] \<longleftrightarrow> xs = []"
  by (cases xs) auto

lemma concat_group_runs [simp]: "concat (group_runs same xs) = xs"
  by (induction same xs rule: group_runs.induct) auto

lemma group_runs_snoc:
  "group_runs same (xs @ [x]) =
     (if xs = [] then [[x]]
      else if same x (hd (last (group_runs same xs)))
      then butlast (group_runs same xs) @ [last (group_runs same xs) @ [x]]
      else group_runs same xs @ [[x]])"
proof (induction same xs rule: group_runs.induct)
  case (1 same)
  show ?case by simp
next
  case (2 same h xs)
  let ?P = "\<lambda>z. same z h"
  show ?case
  proof (cases "dropWhile ?P xs = []")
    case True
    then have all: "\<forall>z \<in> set xs. ?P z" by (simp add: dropWhile_eq_Nil_conv)
    then have tw: "takeWhile ?P xs = xs" by (metis takeWhile_eq_all_conv)
    from all have "takeWhile ?P (xs @ [x]) = xs @ takeWhile ?P [x]"
      by (simp add: takeWhile_append2)
    moreover from all have "dropWhile ?P (xs @ [x]) = dropWhile ?P [x]"
      by (simp add: dropWhile_append2)
    ultimately show ?thesis using True by (auto simp: tw)
  next
    case False
    then obtain z where z: "z \<in> set xs" "\<not> ?P z"
      by (auto simp: dropWhile_eq_Nil_conv)
    then have tw: "takeWhile ?P (xs @ [x]) = takeWhile ?P xs"
      and dw: "dropWhile ?P (xs @ [x]) = dropWhile ?P xs @ [x]"
      by (auto simp: takeWhile_append1 dropWhile_append1)
    let ?G = "group_runs same (dropWhile ?P xs)"
    have ne: "?G \<noteq> []" using False by simp
    have IH: "group_runs same (dropWhile ?P xs @ [x]) =
        (if same x (hd (last ?G)) then butlast ?G @ [last ?G @ [x]] else ?G @ [[x]])"
      using "2.IH" by (simp only: False if_False)
    have L: "group_runs same (h # (xs @ [x])) = (h # takeWhile ?P xs) #
        (if same x (hd (last ?G)) then butlast ?G @ [last ?G @ [x]] else ?G @ [[x]])"
      by (simp only: group_runs.simps tw dw IH)
    have G0: "group_runs same (h # xs) = (h # takeWhile ?P xs) # ?G" by simp
    show ?thesis
      using ne z by (auto simp del: group_runs.simps simp add: L G0)
  qed
qed

lemma stitch_length [simp]: "length (stitch p gs) = length gs"
  by (induction p gs rule: stitch.induct) auto

lemma stitch_snoc:
  "stitch p (gs @ [g]) = stitch p gs @ [(if gs = [] then p else last (last gs)) # g]"
  by (induction p gs rule: stitch.induct) auto

lemma stitch_extend_last:
  "gs \<noteq> [] \<Longrightarrow> last gs \<noteq> [] \<Longrightarrow>
   stitch p (butlast gs @ [last gs @ [x]]) = butlast (stitch p gs) @ [last (stitch p gs) @ [x]]"
proof (induction p gs rule: stitch.induct)
  case (1 p)
  then show ?case by simp
next
  case (2 p g gs)
  then show ?case by (cases gs) auto
qed

lemma stitch_empty_iff [simp]: "stitch p gs = [] \<longleftrightarrow> gs = []"
  by (cases gs) auto

lemma last_last_stitch:
  "gs \<noteq> [] \<Longrightarrow> last gs \<noteq> [] \<Longrightarrow> last (last (stitch p gs)) = last (last gs)"
proof (induction p gs rule: stitch.induct)
  case (2 p g gs)
  then show ?case by (cases "gs = []") auto
qed simp

lemma group_runs_heads:
  "g \<in> set (group_runs same xs) \<Longrightarrow> y \<in> set (tl g) \<Longrightarrow> same y (hd g)"
  by (induction same xs rule: group_runs.induct) (auto dest: set_takeWhileD)

lemma last_last_group_runs: "xs \<noteq> [] \<Longrightarrow> last (last (group_runs same xs)) = last xs"
proof -
  assume "xs \<noteq> []"
  then have "last (concat (group_runs same xs)) = last (last (group_runs same xs))"
    by (intro last_concat_nonempty) auto
  then show ?thesis by simp
qed

lemma changes_snoc:
  "changes same (xs @ [x]) = changes same xs + (if xs \<noteq> [] \<and> \<not> same x (last xs) then 1 else 0)"
  by (induction same xs rule: changes.induct) auto

lemma length_group_runs_changes:
  assumes sym: "\<And>a b. a \<in> set xs \<Longrightarrow> b \<in> set xs \<Longrightarrow> same a b \<Longrightarrow> same b a"
    and trans: "\<And>a b c. a \<in> set xs \<Longrightarrow> b \<in> set xs \<Longrightarrow> c \<in> set xs \<Longrightarrow>
                  same a b \<Longrightarrow> same b c \<Longrightarrow> same a c"
  shows "length (group_runs same xs) = (if xs = [] then 0 else Suc (changes same xs))"
  using assms
proof (induction xs rule: rev_induct)
  case Nil
  show ?case by simp
next
  case (snoc x xs)
  show ?case
  proof (cases "xs = []")
    case True
    then show ?thesis by simp
  next
    case False
    let ?G = "group_runs same xs"
    let ?h = "hd (last ?G)"
    have G12: "?G \<noteq> []" "last ?G \<in> set ?G"
      using False by auto
    have "last ?G \<noteq> []"
      using G12(2) group_runs_nonempty [of same xs] by metis
    note G = G12 this
    have lx: "last (last ?G) = last xs" using False by (rule last_last_group_runs)
    have "hd (last ?G) \<in> set (last ?G)" using G(3) by (rule hd_in_set)
    then have h_in: "?h \<in> set xs"
      using G(2) set_concat [of ?G] by (metis UN_I concat_group_runs)
    have l_in: "last xs \<in> set xs" using False by simp
    have rel: "last xs = ?h \<or> same (last xs) ?h"
    proof (cases "tl (last ?G) = []")
      case True
      then have "last (last ?G) = hd (last ?G)"
        using G(3) by (cases "last ?G") auto
      with lx show ?thesis by simp
    next
      case tl_ne: False
      have "last (tl (last ?G)) = last (last ?G)"
        using tl_ne G(3) by (cases "last ?G") auto
      then have "last xs \<in> set (tl (last ?G))"
        using tl_ne lx last_in_set [of "tl (last ?G)"] by simp
      then show ?thesis using group_runs_heads [OF G(2)] by simp
    qed
    have x_in: "x \<in> set (xs @ [x])" by simp
    have iff: "same x ?h \<longleftrightarrow> same x (last xs)"
    proof (cases "last xs = ?h")
      case True
      then show ?thesis by simp
    next
      case ne: False
      with rel have lh: "same (last xs) ?h" by simp
      have hl: "same ?h (last xs)"
        by (rule snoc.prems(1) [OF _ _ lh]) (use l_in h_in in auto)
      show ?thesis
      proof
        assume a: "same x ?h"
        show "same x (last xs)"
          by (rule snoc.prems(2) [OF x_in _ _ a hl]) (use l_in h_in in auto)
      next
        assume b: "same x (last xs)"
        show "same x ?h"
          by (rule snoc.prems(2) [OF x_in _ _ b lh]) (use l_in h_in in auto)
      qed
    qed
    have "length ?G = (if xs = [] then 0 else Suc (changes same xs))"
    proof (rule snoc.IH)
      fix a b assume ab: "a \<in> set xs" "b \<in> set xs" "same a b"
      show "same b a" by (rule snoc.prems(1)) (use ab in auto)
    next
      fix a b c assume abc: "a \<in> set xs" "b \<in> set xs" "c \<in> set xs" "same a b" "same b c"
      show "same a c" by (rule snoc.prems(2) [of a b c]) (use abc in auto)
    qed
    with False have IH: "length ?G = Suc (changes same xs)" by simp
    show ?thesis
      using False IH iff G by (simp add: group_runs_snoc changes_snoc)
  qed
qed


lemma stitch_no_empty [simp]: "[] \<notin> set (stitch p gs)"
  by (induction p gs rule: stitch.induct) auto

lemma stitch_nth_hd:
  "Suc k < length gs \<Longrightarrow> [] \<notin> set gs \<Longrightarrow> hd (stitch p gs ! Suc k) = last (stitch p gs ! k)"
proof (induction p gs arbitrary: k rule: stitch.induct)
  case (1 p)
  then show ?case by simp
next
  case (2 p g gs)
  show ?case
  proof (cases k)
    case 0
    with "2.prems" show ?thesis by (cases gs) auto
  next
    case (Suc j)
    with "2.prems" "2.IH" [of j] show ?thesis by simp
  qed
qed


lemma stitch_hd_first: "gs \<noteq> [] \<Longrightarrow> hd (stitch p gs ! 0) = p"
  by (cases gs) auto


lemma stitch_nth_length:
  "k < length gs \<Longrightarrow> [] \<notin> set gs \<Longrightarrow> length (stitch p gs ! k) = Suc (length (gs ! k))"
proof (induction p gs arbitrary: k rule: stitch.induct)
  case (2 p g gs)
  then show ?case by (cases k) auto
qed simp


lemma set_concat_stitch:
  "[] \<notin> set gs \<Longrightarrow> set (concat (stitch p gs)) \<subseteq> insert p (set (concat gs))"
proof (induction p gs rule: stitch.induct)
  case (2 p g gs)
  then have "g \<noteq> []" "[] \<notin> set gs" by auto
  then have "last g \<in> set g" by simp
  with 2 \<open>[] \<notin> set gs\<close> show ?case by auto
qed simp


lemma concat_stitch_sorted:
  "sorted (map f (p # concat gs)) \<Longrightarrow> [] \<notin> set gs \<Longrightarrow> sorted (map f (concat (stitch p gs)))"
proof (induction p gs rule: stitch.induct)
  case (1 p)
  then show ?case by simp
next
  case (2 p g gs)
  have g: "g \<noteq> []" using "2.prems"(2) by auto
  have all: "sorted (map f ((p # g) @ concat gs))" using "2.prems"(1) by simp
  then have head: "sorted (map f (p # g))" by (simp only: map_append sorted_append)
  have tail: "sorted (map f (last g # concat gs))"
    using sorted_map_last_append [of f "p # g" "concat gs"] all g by simp
  with "2.IH" "2.prems"(2) have IH: "sorted (map f (concat (stitch (last g) gs)))" by simp
  have "f x \<le> f y" if x: "x \<in> set (p # g)" and y: "y \<in> set (concat (stitch (last g) gs))" for x y
  proof -
    have "f x \<le> f (last (p # g))" using sorted_map_le_last [OF head x] .
    then have xl: "f x \<le> f (last g)" using g by simp
    have "[] \<notin> set gs" using "2.prems"(2) by simp
    with y set_concat_stitch [of gs "last g"] have "y = last g \<or> y \<in> set (concat gs)" by blast
    then have "f (last g) \<le> f y" using tail by auto
    with xl show ?thesis by (rule order_trans)
  qed
  with head IH show ?case by (simp only: concat.simps stitch.simps map_append sorted_append) auto
qed

lemma map_tl_stitch: "map tl (stitch p gs) = gs"
  by (induction p gs rule: stitch.induct) auto

end
