(* ===== verification/Segmenter.thy ===== *)
theory Segmenter
  imports Reader CurveSpec
begin

text \<open>
  \<open>HashcatStatusParser\<close> (src/password_cracking_curve.py, lines 16-102). The
  parser object holds its settings (\<open>hashcat_status_parser\<close>); the local variables
  of \<open>parse_status_file\<close> are the state \<open>parse_state\<close>; one iteration of the
  \<open>try\<close> block on a decoded record is \<open>process_record\<close>, whose phase-transition
  part (lines 79-94) is \<open>phase_step\<close>; the \<open>for\<close> loop over the lines is
  \<open>parse_lines\<close>, and \<open>parse_status_file\<close> adds the existence check (lines 34-36).
  The file system is a parameter mapping a path to the file's contents (\<open>None\<close>:
  the path does not exist), and so is \<open>json.loads\<close> (theory Reader).
  Indexing an empty list (\<open>curves_x[-1]\<close>) raises IndexError in the model as in
  Python; the invariant \<open>parse_inv\<close> shows that this never happens.
\<close>

record hashcat_status_parser =
  filename :: string
  x_axis_type :: string
  y_axis_type :: string
  status_timer :: rat

text \<open>A phase key is the tuple \<open>(f"{time_start}/{guess_base}", guess_mod)\<close>.\<close>

type_synonym phase_key = "string \<times> pyval"

record parse_state =
  curves_x :: "rat list list"
  curves_y :: "pyval list list"
  label_list :: "phase_key list"
  guesses :: rat
  current_identifier :: "phase_key option"
  elapsed_seconds :: rat

type_synonym curves = "rat list list \<times> pyval list list \<times> phase_key list"

definition init_state :: parse_state where
  "init_state = \<lparr>curves_x = [], curves_y = [], label_list = [], guesses = 0,
                 current_identifier = None, elapsed_seconds = 0\<rparr>"

text \<open>Tuple equality \<open>key == current_identifier\<close>: component-wise \<open>==\<close>. The initial
  \<open>current_identifier = ""\<close> is a str, never equal to a tuple (\<open>None\<close> here).\<close>

definition key_eq :: "phase_key \<Rightarrow> phase_key \<Rightarrow> bool" where
  "key_eq k c = (fst k = fst c \<and> py_eq (snd k) (snd c))"

definition key_differs :: "phase_key \<Rightarrow> phase_key option \<Rightarrow> bool" where
  "key_differs k cur = (case cur of None \<Rightarrow> True | Some c \<Rightarrow> \<not> key_eq k c)"

text \<open>\<open>xs[-1]\<close> and \<open>xss[-1].append(v)\<close> on Python lists.\<close>

definition py_last :: "'a list \<Rightarrow> 'a py_result" where
  "py_last xs = (if xs = [] then Inl IndexError else Inr (last xs))"

definition append_last :: "'a list list \<Rightarrow> 'a \<Rightarrow> 'a list list py_result" where
  "append_last xss v = (if xss = [] then Inl IndexError else Inr (butlast xss @ [last xss @ [v]]))"

text \<open>Lines 80-94: a new phase opens a curve that starts at the last point of the
  previous curve (or at \<open>(0, 0)\<close> for the first curve); the same phase extends the
  current curve.\<close>

definition phase_step :: "parse_state \<Rightarrow> phase_key \<Rightarrow> rat \<Rightarrow> pyval \<Rightarrow> parse_state py_result" where
  "phase_step st key x_value y_value =
     (if key_differs key (current_identifier st) then
        (if current_identifier st \<noteq> None then
           res_bind (py_last (curves_x st)) (\<lambda>cx. res_bind (py_last cx) (\<lambda>x0.
           res_bind (py_last (curves_y st)) (\<lambda>cy. res_bind (py_last cy) (\<lambda>y0.
           Inr (st\<lparr>curves_x := curves_x st @ [[x0, x_value]],
                   curves_y := curves_y st @ [[y0, y_value]],
                   current_identifier := Some key,
                   label_list := label_list st @ [key]\<rparr>)))))
         else
           Inr (st\<lparr>curves_x := curves_x st @ [[0, x_value]],
                   curves_y := curves_y st @ [[PInt 0, y_value]],
                   current_identifier := Some key,
                   label_list := label_list st @ [key]\<rparr>))
      else
        res_bind (append_last (curves_x st) x_value) (\<lambda>cxs.
        res_bind (append_last (curves_y st) y_value) (\<lambda>cys.
        Inr (st\<lparr>curves_x := cxs, curves_y := cys\<rparr>))))"

text \<open>Lines 52-97 on a decoded record \<open>data\<close>. Each call that may raise is a
  \<open>res_bind\<close>; the evaluation order is the source's.\<close>

definition process_record :: "hashcat_status_parser \<Rightarrow> parse_state \<Rightarrow> pyval \<Rightarrow> parse_state py_result" where
  "process_record p st data =
     res_bind (py_get data ''progress'' (PList [PInt 0])) (\<lambda>pl.
     res_bind (py_getitem pl 0) (\<lambda>progress.
     res_bind (py_add_num (guesses st) progress) (\<lambda>guesses'.
     res_bind (py_get data ''recovered_hashes'' (PList [PInt 0, PInt 0])) (\<lambda>recovered.
     res_bind (py_getitem recovered 0) (\<lambda>cracked.
     res_bind (py_getitem recovered 1) (\<lambda>r1.
     res_bind (py_gt_zero r1) (\<lambda>positive.
     let total = (if positive then r1 else PInt 1);
         x_value = (if x_axis_type p = ''time'' then elapsed_seconds st else guesses')
     in
     res_bind (if y_axis_type p = ''count'' then Inr cracked else py_percent cracked total) (\<lambda>y_value.
     res_bind (py_get data ''guess'' (PDict [])) (\<lambda>g.
     res_bind (py_get g ''guess_base'' (PStr ''unknown'')) (\<lambda>gb.
     res_bind (py_replace_method gb ''autocat_new_cracked_potfile'' ''potfile'') (\<lambda>guess_base.
     res_bind (py_get data ''guess'' (PDict [])) (\<lambda>g'.
     res_bind (py_get g' ''guess_mod'' PNone) (\<lambda>guess_mod.
     res_bind (py_get data ''time_start'' (PStr ''unknown'')) (\<lambda>time_start.
     let key = (py_str time_start @ ''/'' @ guess_base, guess_mod)
     in
     res_bind (phase_step (st\<lparr>guesses := guesses'\<rparr>) key x_value y_value) (\<lambda>st'.
     Inr (st'\<lparr>elapsed_seconds := elapsed_seconds st' + status_timer p\<rparr>))))))))))))))))"

text \<open>The \<open>for line in f\<close> loop (lines 43-100). Only \<open>json.JSONDecodeError\<close> is
  caught: any other exception of the body ends the whole call.\<close>

fun parse_lines :: "hashcat_status_parser \<Rightarrow> json_decoder \<Rightarrow> parse_state \<Rightarrow> string list \<Rightarrow> parse_state py_result" where
  "parse_lines p loads st [] = Inr st"
| "parse_lines p loads st (l # ls) =
     (let line = py_strip l in
      if \<not> py_startswith line ''{'' then parse_lines p loads st ls
      else case loads line of
             None \<Rightarrow> parse_lines p loads st ls
           | Some data \<Rightarrow> res_bind (process_record p st data) (\<lambda>st'. parse_lines p loads st' ls))"

definition parse_status_file ::
  "hashcat_status_parser \<Rightarrow> (string \<Rightarrow> string option) \<Rightarrow> json_decoder \<Rightarrow> curves py_result" where
  "parse_status_file p fs loads =
     (case fs (filename p) of
        None \<Rightarrow> Inr ([], [], [])
      | Some content \<Rightarrow>
          res_bind (parse_lines p loads init_state (text_lines content))
            (\<lambda>st. Inr (curves_x st, curves_y st, label_list st)))"

text \<open>The loop over the decoded records, which \<open>parse_lines\<close> runs on the
  output of the reader; the record body split into the extraction of its fields
  (lines 52-77) and the update of the state (lines 79-97).\<close>

type_synonym fields = "rat \<times> pyval \<times> phase_key"

fun process_records :: "hashcat_status_parser \<Rightarrow> parse_state \<Rightarrow> pyval list \<Rightarrow> parse_state py_result" where
  "process_records p st [] = Inr st"
| "process_records p st (d # ds) = res_bind (process_record p st d) (\<lambda>st'. process_records p st' ds)"

definition record_fields :: "hashcat_status_parser \<Rightarrow> pyval \<Rightarrow> (rat \<times> pyval \<times> phase_key) py_result" where
  "record_fields p data =
     res_bind (py_get data ''progress'' (PList [PInt 0])) (\<lambda>pl.
     res_bind (py_getitem pl 0) (\<lambda>progress.
     res_bind (py_add_num 0 progress) (\<lambda>amount.
     res_bind (py_get data ''recovered_hashes'' (PList [PInt 0, PInt 0])) (\<lambda>recovered.
     res_bind (py_getitem recovered 0) (\<lambda>cracked.
     res_bind (py_getitem recovered 1) (\<lambda>r1.
     res_bind (py_gt_zero r1) (\<lambda>positive.
     let total = (if positive then r1 else PInt 1) in
     res_bind (if y_axis_type p = ''count'' then Inr cracked else py_percent cracked total) (\<lambda>y_value.
     res_bind (py_get data ''guess'' (PDict [])) (\<lambda>g.
     res_bind (py_get g ''guess_base'' (PStr ''unknown'')) (\<lambda>gb.
     res_bind (py_replace_method gb ''autocat_new_cracked_potfile'' ''potfile'') (\<lambda>guess_base.
     res_bind (py_get data ''guess'' (PDict [])) (\<lambda>g'.
     res_bind (py_get g' ''guess_mod'' PNone) (\<lambda>guess_mod.
     res_bind (py_get data ''time_start'' (PStr ''unknown'')) (\<lambda>time_start.
     Inr (amount, y_value, (py_str time_start @ ''/'' @ guess_base, guess_mod))))))))))))))))"

definition record_step :: "hashcat_status_parser \<Rightarrow> parse_state \<Rightarrow> rat \<times> pyval \<times> phase_key \<Rightarrow> parse_state py_result" where
  "record_step p st f =
     (case f of (amount, y_value, key) \<Rightarrow>
        res_bind (phase_step (st\<lparr>guesses := guesses st + amount\<rparr>) key
                   (if x_axis_type p = ''time'' then elapsed_seconds st else guesses st + amount) y_value)
          (\<lambda>st'. Inr (st'\<lparr>elapsed_seconds := elapsed_seconds st' + status_timer p\<rparr>)))"

fun fields_all :: "hashcat_status_parser \<Rightarrow> pyval list \<Rightarrow> fields list py_result" where
  "fields_all p [] = Inr []"
| "fields_all p (d # ds) = res_bind (record_fields p d) (\<lambda>f. res_bind (fields_all p ds) (\<lambda>fs. Inr (f # fs)))"

section \<open>Abstract specification of the curve set\<close>

text \<open>
  What the loop computes, stated without the loop: the x-value of the i-th record is
  \<open>i * status_timer\<close> in time mode and the running sum of the progress values
  otherwise; the records are cut into the maximal runs of one phase key
  (\<open>phase_runs\<close>), the runs are stitched (\<open>spec_curves\<close>), and the label of a
  curve is the key of the run's first record. \<open>abs_state\<close> is the state the loop
  holds after a list of records: the simulation relation of the refinement proof.
\<close>

definition x_value_at :: "hashcat_status_parser \<Rightarrow> fields list \<Rightarrow> nat \<Rightarrow> rat" where
  "x_value_at p fs i =
     (if x_axis_type p = ''time'' then of_nat i * status_timer p else sum_list (map fst (take (Suc i) fs)))"

definition events :: "hashcat_status_parser \<Rightarrow> fields list \<Rightarrow> (phase_key \<times> rat \<times> pyval) list" where
  "events p fs = map (\<lambda>i. (snd (snd (fs ! i)), x_value_at p fs i, fst (snd (fs ! i)))) [0..<length fs]"

definition same_phase :: "phase_key \<times> rat \<times> pyval \<Rightarrow> phase_key \<times> rat \<times> pyval \<Rightarrow> bool" where
  "same_phase e h = key_eq (fst e) (fst h)"

definition phase_runs :: "hashcat_status_parser \<Rightarrow> fields list \<Rightarrow> (phase_key \<times> rat \<times> pyval) list list" where
  "phase_runs p fs = group_runs same_phase (events p fs)"

definition spec_curves :: "hashcat_status_parser \<Rightarrow> fields list \<Rightarrow> (rat \<times> pyval) list list" where
  "spec_curves p fs = stitch (0, PInt 0) (map (map snd) (phase_runs p fs))"

definition spec_result :: "hashcat_status_parser \<Rightarrow> fields list \<Rightarrow> curves" where
  "spec_result p flds =
     (map (map fst) (spec_curves p flds), map (map snd) (spec_curves p flds),
      map (fst \<circ> hd) (phase_runs p flds))"

definition abs_state :: "hashcat_status_parser \<Rightarrow> fields list \<Rightarrow> parse_state" where
  "abs_state p fs =
     \<lparr>curves_x = map (map fst) (spec_curves p fs),
      curves_y = map (map snd) (spec_curves p fs),
      label_list = map (fst \<circ> hd) (phase_runs p fs),
      guesses = sum_list (map fst fs),
      current_identifier = (if fs = [] then None else Some (fst (hd (last (phase_runs p fs))))),
      elapsed_seconds = of_nat (length fs) * status_timer p\<rparr>"

text \<open>Reachable states of the loop of lines 43-100: the initial state of lines
  29-34 and every state that \<open>process_record\<close> returns from a reachable one. The
  invariant \<open>parse_inv\<close> is what the plotting code relies on: parallel lists, a
  current identifier exactly when a curve is open and equal to the last label, and
  curves of at least two points with as many y-values as x-values.\<close>

inductive parse_reachable :: "hashcat_status_parser \<Rightarrow> parse_state \<Rightarrow> bool"
  for p :: hashcat_status_parser where
  init: "parse_reachable p init_state"
| step: "parse_reachable p st \<Longrightarrow> process_record p st d = Inr st' \<Longrightarrow> parse_reachable p st'"

definition parse_inv :: "parse_state \<Rightarrow> bool" where
  "parse_inv st =
     (length (curves_y st) = length (curves_x st) \<and> length (label_list st) = length (curves_x st) \<and>
      (current_identifier st = None \<longleftrightarrow> curves_x st = []) \<and>
      (current_identifier st \<noteq> None \<longrightarrow> current_identifier st = Some (last (label_list st))) \<and>
      (\<forall>k < length (curves_x st). length (curves_y st ! k) = length (curves_x st ! k) \<and>
                                  2 \<le> length (curves_x st ! k)))"

section \<open>Lemmas: the record body, the simulation, the refinement\<close>

declare py_last_def [py_simps] append_last_def [py_simps]

lemma py_add_num_shift: "py_add_num a v = res_bind (py_add_num 0 v) (\<lambda>r. Inr (a + r))"
  by (simp add: py_add_num_def split: option.split)

lemma process_record_fields:
  "process_record p st data = res_bind (record_fields p data) (record_step p st)"
  unfolding process_record_def record_fields_def record_step_def py_add_num_shift [of "guesses st"]
  by (simp add: res_bind_assoc Let_def)

lemma events_snoc:
  "events p (fs @ [f]) = events p fs @ [(snd (snd f), x_value_at p (fs @ [f]) (length fs), fst (snd f))]"
proof -
  have "map (\<lambda>i. (snd (snd ((fs @ [f]) ! i)), x_value_at p (fs @ [f]) i, fst (snd ((fs @ [f]) ! i)))) [0..<length fs]
      = map (\<lambda>i. (snd (snd (fs ! i)), x_value_at p fs i, fst (snd (fs ! i)))) [0..<length fs]"
    by (rule map_cong) (auto simp: nth_append x_value_at_def)
  then show ?thesis by (simp add: events_def)
qed

lemma init_state_abs: "init_state = abs_state p []"
  by (simp add: init_state_def abs_state_def spec_curves_def phase_runs_def events_def)

lemma events_empty_iff [simp]: "events p fs = [] \<longleftrightarrow> fs = []"
  by (simp add: events_def)

lemma x_value_at_last:
  "x_value_at p (fs @ [(a, y, k)]) (length fs) =
     (if x_axis_type p = ''time'' then elapsed_seconds (abs_state p fs) else guesses (abs_state p fs) + a)"
  by (simp add: x_value_at_def abs_state_def)

lemma phase_runs_snoc:
  "phase_runs p (fs @ [(a, y, k)]) =
     (let G = phase_runs p fs; e = (k, x_value_at p (fs @ [(a, y, k)]) (length fs), y) in
      if fs = [] then [[e]]
      else if key_eq k (fst (hd (last G))) then butlast G @ [last G @ [e]]
      else G @ [[e]])"
  by (simp add: phase_runs_def events_snoc group_runs_snoc same_phase_def Let_def)

lemma spec_curves_ne:
  assumes "fs \<noteq> []"
  shows "spec_curves p fs \<noteq> []" "last (spec_curves p fs) \<noteq> []"
    "map (map snd) (phase_runs p fs) \<noteq> []" "last (map (map snd) (phase_runs p fs)) \<noteq> []"
proof -
  have G: "phase_runs p fs \<noteq> []" "[] \<notin> set (phase_runs p fs)"
    using assms by (simp_all add: phase_runs_def)
  then have lG: "last (phase_runs p fs) \<noteq> []" by (metis last_in_set)
  show ne: "map (map snd) (phase_runs p fs) \<noteq> []" using G(1) by simp
  show "last (map (map snd) (phase_runs p fs)) \<noteq> []" using G(1) lG by (simp add: last_map)
  show sc: "spec_curves p fs \<noteq> []" using ne by (simp add: spec_curves_def)
  show "last (spec_curves p fs) \<noteq> []"
    using last_in_set [OF sc] stitch_no_empty unfolding spec_curves_def by metis
qed

lemma abs_state_current:
  "fs \<noteq> [] \<Longrightarrow> current_identifier (abs_state p fs) = Some (fst (hd (last (phase_runs p fs))))"
  by (simp add: abs_state_def)

lemma record_step_abs_unfold:
  "record_step p (abs_state p fs) (a, y, k) =
     res_bind (phase_step ((abs_state p fs)\<lparr>guesses := guesses (abs_state p fs) + a\<rparr>) k
                (x_value_at p (fs @ [(a, y, k)]) (length fs)) y)
       (\<lambda>st'. Inr (st'\<lparr>elapsed_seconds := elapsed_seconds st' + status_timer p\<rparr>))"
  unfolding record_step_def x_value_at_last by simp

lemma record_step_abs_first:
  "record_step p (abs_state p []) (a, y, k) = Inr (abs_state p [(a, y, k)])"
  by (simp add: record_step_def phase_step_def key_differs_def abs_state_def spec_curves_def
      phase_runs_def events_def x_value_at_def)

lemma record_step_abs_new:
  assumes ne: "fs \<noteq> []" and new: "\<not> key_eq k (fst (hd (last (phase_runs p fs))))"
  shows "record_step p (abs_state p fs) (a, y, k) = Inr (abs_state p (fs @ [(a, y, k)]))"
proof -
  let ?C = "spec_curves p fs"
  let ?G = "phase_runs p fs"
  let ?Gp = "map (map snd) ?G"
  let ?x = "x_value_at p (fs @ [(a, y, k)]) (length fs)"
  note C = spec_curves_ne [OF ne, of p]
  have runs: "phase_runs p (fs @ [(a, y, k)]) = ?G @ [[(k, ?x, y)]]"
    using ne new by (simp add: phase_runs_snoc Let_def)
  have curves: "spec_curves p (fs @ [(a, y, k)]) = ?C @ [[last (last ?Gp), (?x, y)]]"
    using C by (simp add: spec_curves_def runs stitch_snoc)
  have ll: "last (last ?C) = last (last ?Gp)"
    unfolding spec_curves_def using C(3,4) by (rule last_last_stitch)
  have step: "phase_step ((abs_state p fs)\<lparr>guesses := guesses (abs_state p fs) + a\<rparr>) k ?x y =
      Inr ((abs_state p fs)\<lparr>guesses := guesses (abs_state p fs) + a,
             curves_x := curves_x (abs_state p fs) @ [[fst (last (last ?C)), ?x]],
             curves_y := curves_y (abs_state p fs) @ [[snd (last (last ?C)), y]],
             current_identifier := Some k,
             label_list := label_list (abs_state p fs) @ [k]\<rparr>)"
    using ne new C(1,2)
    by (simp add: phase_step_def key_differs_def abs_state_current py_simps)
      (simp add: abs_state_def last_map)
  show ?thesis
    by (simp only: record_step_abs_unfold step res_bind_Inr)
      (simp add: abs_state_def curves runs ll algebra_simps)
qed

lemma record_step_abs_same:
  assumes ne: "fs \<noteq> []" and same: "key_eq k (fst (hd (last (phase_runs p fs))))"
  shows "record_step p (abs_state p fs) (a, y, k) = Inr (abs_state p (fs @ [(a, y, k)]))"
proof -
  let ?C = "spec_curves p fs"
  let ?G = "phase_runs p fs"
  let ?Gp = "map (map snd) ?G"
  let ?x = "x_value_at p (fs @ [(a, y, k)]) (length fs)"
  note C = spec_curves_ne [OF ne, of p]
  have G: "?G \<noteq> []" "last ?G \<noteq> []"
    using C(3,4) by (auto simp: last_map)
  have runs: "phase_runs p (fs @ [(a, y, k)]) = butlast ?G @ [last ?G @ [(k, ?x, y)]]"
    using ne same by (simp add: phase_runs_snoc Let_def)
  have gp: "map (map snd) (butlast ?G @ [last ?G @ [(k, ?x, y)]]) = butlast ?Gp @ [last ?Gp @ [(?x, y)]]"
    using G by (simp add: map_butlast last_map)
  have curves: "spec_curves p (fs @ [(a, y, k)]) = butlast ?C @ [last ?C @ [(?x, y)]]"
    unfolding spec_curves_def runs gp using C(3,4) by (rule stitch_extend_last)
  have labels: "map (fst \<circ> hd) (butlast ?G @ [last ?G @ [(k, ?x, y)]]) = map (fst \<circ> hd) ?G"
  proof -
    have eq: "?G = butlast ?G @ [last ?G]" using G by simp
    have "map (fst \<circ> hd) ?G = map (fst \<circ> hd) (butlast ?G) @ [fst (hd (last ?G))]"
      by (subst eq) simp
    then show ?thesis using G by simp
  qed
  have step: "phase_step ((abs_state p fs)\<lparr>guesses := guesses (abs_state p fs) + a\<rparr>) k ?x y =
      Inr ((abs_state p fs)\<lparr>guesses := guesses (abs_state p fs) + a,
             curves_x := butlast (curves_x (abs_state p fs)) @ [last (curves_x (abs_state p fs)) @ [?x]],
             curves_y := butlast (curves_y (abs_state p fs)) @ [last (curves_y (abs_state p fs)) @ [y]]\<rparr>)"
    using ne same C(1)
    by (simp add: phase_step_def key_differs_def abs_state_current py_simps)
      (simp add: abs_state_def)
  have lbl: "butlast (map (fst \<circ> hd) ?G) @ [fst (hd (last ?G))] = map (fst \<circ> hd) ?G"
  proof -
    have "last (map (fst \<circ> hd) ?G) = fst (hd (last ?G))" using G(1) by (simp add: last_map)
    moreover have "butlast (map (fst \<circ> hd) ?G) @ [last (map (fst \<circ> hd) ?G)] = map (fst \<circ> hd) ?G"
      using G(1) by (intro append_butlast_last_id) simp
    ultimately show ?thesis by simp
  qed
  show ?thesis
    using G ne
    by (simp only: record_step_abs_unfold step res_bind_Inr)
      (simp add: abs_state_def curves runs labels map_butlast last_map C(1) lbl algebra_simps)
qed

lemma record_step_abs:
  "record_step p (abs_state p fs) f = Inr (abs_state p (fs @ [f]))"
proof -
  obtain a y k where f: "f = (a, y, k)" by (cases f) auto
  show ?thesis
  proof (cases "fs = []")
    case True
    then show ?thesis using f record_step_abs_first by simp
  next
    case False
    then show ?thesis
      using f record_step_abs_new [OF False] record_step_abs_same [OF False] by blast
  qed
qed

lemma parse_lines_records:
  "parse_lines p loads st ls = process_records p st (concat (map (line_record loads) ls))"
  by (induction ls arbitrary: st) (auto simp: line_record_def Let_def split: option.split)

lemma process_records_abs:
  "process_records p (abs_state p fs) ds = res_bind (fields_all p ds) (\<lambda>gs. Inr (abs_state p (fs @ gs)))"
proof (induction ds arbitrary: fs)
  case Nil
  show ?case by simp
next
  case (Cons d ds)
  show ?case
    by (simp add: process_record_fields res_bind_assoc record_step_abs Cons.IH)
qed

theorem parse_status_file_refines:
  "parse_status_file p fsys loads =
     (case fsys (filename p) of
        None \<Rightarrow> Inr ([], [], [])
      | Some content \<Rightarrow> res_bind (fields_all p (read_records loads content)) (\<lambda>flds. Inr (spec_result p flds)))"
proof (cases "fsys (filename p)")
  case None
  then show ?thesis by (simp add: parse_status_file_def)
next
  case (Some content)
  have "parse_lines p loads init_state (text_lines content) =
      res_bind (fields_all p (read_records loads content)) (\<lambda>gs. Inr (abs_state p gs))"
    using process_records_abs [of p "[]"]
    by (simp add: parse_lines_records read_records_def init_state_abs [of p])
  with Some show ?thesis
    by (simp add: parse_status_file_def res_bind_assoc spec_result_def abs_state_def)
qed

lemma fields_all_length: "fields_all p ds = Inr flds \<Longrightarrow> length flds = length ds"
  by (induction ds arbitrary: flds) (auto simp: res_bind_eq_Inr)

lemma fields_all_Inl_first:
  "fields_all p ds = Inl e \<Longrightarrow>
     \<exists>pre d post. ds = pre @ d # post \<and> (\<forall>d' \<in> set pre. \<not> isl (record_fields p d')) \<and>
                  record_fields p d = Inl e"
proof (induction ds)
  case Nil
  then show ?case by simp
next
  case (Cons d ds)
  show ?case
  proof (cases "record_fields p d")
    case (Inl e')
    with Cons.prems have "record_fields p d = Inl e" by simp
    then show ?thesis by (intro exI [of _ "[]"]) auto
  next
    case (Inr f)
    with Cons.prems have "fields_all p ds = Inl e" by (cases "fields_all p ds") auto
    with Cons.IH obtain pre d' post where
      "ds = pre @ d' # post" "\<forall>d'' \<in> set pre. \<not> isl (record_fields p d'')" "record_fields p d' = Inl e"
      by blast
    with Inr show ?thesis by (intro exI [of _ "d # pre"]) auto
  qed
qed

lemma fields_all_Inl_at:
  "(\<forall>d' \<in> set pre. \<not> isl (record_fields p d')) \<Longrightarrow> record_fields p d = Inl e \<Longrightarrow>
   fields_all p (pre @ d # post) = Inl e"
proof (induction pre)
  case (Cons a pre)
  then obtain f where "record_fields p a = Inr f" by (cases "record_fields p a") auto
  with Cons show ?case by simp
qed simp

lemma phase_runs_no_empty: "[] \<notin> set (map (map snd) (phase_runs p flds))"
  by (auto simp: phase_runs_def)

lemma spec_curves_nth_ne: "k < length (spec_curves p flds) \<Longrightarrow> spec_curves p flds ! k \<noteq> []"
  using stitch_no_empty nth_mem unfolding spec_curves_def by metis

lemma spec_result_stitched:
  assumes "spec_result p flds = (cx, cy, lbl)" and k: "Suc k < length cx"
  shows "hd (cx ! Suc k) = last (cx ! k) \<and> hd (cy ! Suc k) = last (cy ! k)"
proof -
  let ?C = "spec_curves p flds"
  have cx: "cx = map (map fst) ?C" and cy: "cy = map (map snd) ?C"
    using assms(1) by (auto simp: spec_result_def)
  have k': "Suc k < length ?C" using k cx by simp
  have ne: "?C ! Suc k \<noteq> []" "?C ! k \<noteq> []"
    using k' spec_curves_nth_ne [of "Suc k" p flds] spec_curves_nth_ne [of k p flds] by simp_all
  have "hd (?C ! Suc k) = last (?C ! k)"
    using k' phase_runs_no_empty unfolding spec_curves_def by (intro stitch_nth_hd) auto
  with ne k' show ?thesis by (simp add: cx cy hd_map last_map)
qed

lemma spec_result_anchor:
  assumes "spec_result p flds = (cx, cy, lbl)" and "cx \<noteq> []"
  shows "hd (cx ! 0) = 0 \<and> hd (cy ! 0) = PInt 0"
proof -
  let ?C = "spec_curves p flds"
  have cx: "cx = map (map fst) ?C" and cy: "cy = map (map snd) ?C"
    using assms(1) by (auto simp: spec_result_def)
  have C: "?C \<noteq> []" using assms(2) cx by simp
  then have "map (map snd) (phase_runs p flds) \<noteq> []" by (simp add: spec_curves_def)
  then have "hd (?C ! 0) = (0, PInt 0)" unfolding spec_curves_def by (rule stitch_hd_first)
  moreover have "?C ! 0 \<noteq> []" using C by (intro spec_curves_nth_ne) simp
  ultimately show ?thesis using C by (simp add: cx cy hd_map)
qed

lemma spec_result_shape:
  assumes "spec_result p flds = (cx, cy, lbl)"
  shows "length cy = length cx \<and> length lbl = length cx \<and>
         (\<forall>k < length cx. length (cy ! k) = length (cx ! k) \<and> 2 \<le> length (cx ! k))"
proof -
  let ?C = "spec_curves p flds"
  let ?Gp = "map (map snd) (phase_runs p flds)"
  have cx: "cx = map (map fst) ?C" and cy: "cy = map (map snd) ?C"
    and lbl: "lbl = map (fst \<circ> hd) (phase_runs p flds)"
    using assms(1) by (auto simp: spec_result_def)
  have len: "length ?C = length (phase_runs p flds)" by (simp add: spec_curves_def)
  have "2 \<le> length (?C ! k)" if "k < length ?C" for k
  proof -
    have "?Gp ! k \<noteq> []" using that len phase_runs_no_empty nth_mem by (metis length_map)
    moreover have "length (?C ! k) = Suc (length (?Gp ! k))"
      using that len phase_runs_no_empty unfolding spec_curves_def
      by (intro stitch_nth_length) auto
    ultimately show ?thesis by (cases "?Gp ! k") auto
  qed
  then show ?thesis by (simp add: cx cy lbl len)
qed

lemma parse_status_file_result:
  "parse_status_file p fsys loads = Inr r \<Longrightarrow> \<exists>flds. r = spec_result p flds"
proof (cases "fsys (filename p)")
  case None
  moreover have "spec_result p [] = ([], [], [])"
    by (simp add: spec_result_def spec_curves_def phase_runs_def events_def)
  moreover assume "parse_status_file p fsys loads = Inr r"
  ultimately show ?thesis by (metis Inr_inject old.sum.simps(2) option.simps(4) parse_status_file_refines)
next
  case (Some content)
  moreover assume "parse_status_file p fsys loads = Inr r"
  ultimately show ?thesis by (auto simp: parse_status_file_refines res_bind_eq_Inr)
qed

lemma parse_lines_abs:
  "parse_lines p loads init_state (text_lines content) =
     res_bind (fields_all p (read_records loads content)) (\<lambda>gs. Inr (abs_state p gs))"
  using process_records_abs [of p "[]"]
  by (simp add: parse_lines_records read_records_def init_state_abs [of p])





lemma x_value_at_mono:
  assumes "0 \<le> status_timer p" "\<forall>f \<in> set flds. 0 \<le> fst f" "i \<le> j"
  shows "x_value_at p flds i \<le> x_value_at p flds j"
proof (cases "x_axis_type p = ''time''")
  case True
  with assms show ?thesis by (simp add: x_value_at_def mult_right_mono)
next
  case False
  have "Suc j = Suc i + (j - i)" using assms(3) by simp
  then have "take (Suc j) flds = take (Suc i) flds @ take (j - i) (drop (Suc i) flds)"
    by (simp only: take_add)
  moreover have "\<forall>f \<in> set (take (j - i) (drop (Suc i) flds)). 0 \<le> fst f"
    using assms(2) by (blast dest: in_set_takeD in_set_dropD)
  then have "0 \<le> sum_list (map fst (take (j - i) (drop (Suc i) flds)))"
    by (rule sum_list_fst_nonneg)
  ultimately show ?thesis using False by (simp add: x_value_at_def)
qed

lemma x_value_at_nonneg:
  "0 \<le> status_timer p \<Longrightarrow> \<forall>f \<in> set flds. 0 \<le> fst f \<Longrightarrow> 0 \<le> x_value_at p flds i"
proof -
  assume t: "0 \<le> status_timer p" and f: "\<forall>f \<in> set flds. 0 \<le> fst f"
  then have "\<forall>f \<in> set (take (Suc i) flds). 0 \<le> fst f" by (blast dest: in_set_takeD)
  then have "0 \<le> sum_list (map fst (take (Suc i) flds))" by (rule sum_list_fst_nonneg)
  with t show ?thesis by (simp add: x_value_at_def)
qed

lemma spec_result_sorted:
  assumes "spec_result p flds = (cx, cy, lbl)" "0 \<le> status_timer p" "\<forall>f \<in> set flds. 0 \<le> fst f"
  shows "sorted (concat cx)"
proof -
  let ?G = "phase_runs p flds"
  have cx: "cx = map (map fst) (spec_curves p flds)" using assms(1) by (simp add: spec_result_def)
  have xs: "map fst (concat (map (map snd) ?G)) = map (x_value_at p flds) [0..<length flds]"
    by (simp add: phase_runs_def map_concat [symmetric] events_def)
  have "sorted (map (x_value_at p flds) [0..<length flds])"
    using assms(2,3) by (intro upt_map_sorted x_value_at_mono) auto
  moreover have "\<forall>x \<in> set (map (x_value_at p flds) [0..<length flds]). 0 \<le> x"
    using assms(2,3) x_value_at_nonneg by auto
  ultimately have "sorted (map fst ((0, PInt 0) # concat (map (map snd) ?G)))"
    by (simp add: xs)
  then have "sorted (map fst (concat (spec_curves p flds)))"
    unfolding spec_curves_def using phase_runs_no_empty by (rule concat_stitch_sorted)
  then show ?thesis by (simp add: cx map_concat)
qed

lemma parse_reachable_abs: "parse_reachable p st \<Longrightarrow> \<exists>fs. st = abs_state p fs"
proof (induction rule: parse_reachable.induct)
  case init
  show ?case using init_state_abs by blast
next
  case (step st d st')
  then obtain fs where st: "st = abs_state p fs" by blast
  with step.hyps(2) obtain f where "record_fields p d = Inr f" "st' = abs_state p (fs @ [f])"
    by (auto simp: process_record_fields res_bind_eq_Inr record_step_abs)
  then show ?case by blast
qed

lemma parse_inv_abs: "parse_inv (abs_state p fs)"
proof -
  have shape: "spec_result p fs = (curves_x (abs_state p fs), curves_y (abs_state p fs), label_list (abs_state p fs))"
    by (simp add: spec_result_def abs_state_def)
  have "current_identifier (abs_state p fs) = None \<longleftrightarrow> curves_x (abs_state p fs) = []"
    by (simp add: abs_state_def spec_curves_def phase_runs_def)
  moreover have "fs \<noteq> [] \<Longrightarrow> fst (hd (last (phase_runs p fs))) = last (map (fst \<circ> hd) (phase_runs p fs))"
    by (simp add: last_map phase_runs_def)
  ultimately show ?thesis
    using spec_result_shape [OF shape] by (auto simp: parse_inv_def abs_state_def split: if_splits)
qed

lemma key_eq_sym: "py_wf (snd a) \<Longrightarrow> py_wf (snd b) \<Longrightarrow> key_eq a b \<Longrightarrow> key_eq b a"
  by (auto simp: key_eq_def intro: py_eq_sym)

lemma key_eq_trans:
  "py_wf (snd a) \<Longrightarrow> py_wf (snd b) \<Longrightarrow> py_wf (snd c) \<Longrightarrow> key_eq a b \<Longrightarrow> key_eq b c \<Longrightarrow> key_eq a c"
  by (auto simp: key_eq_def intro: py_eq_trans)

lemma record_fields_guess_mod:
  "record_fields p d = Inr f \<Longrightarrow>
   \<exists>g. py_get d ''guess'' (PDict []) = Inr g \<and> py_get g ''guess_mod'' PNone = Inr (snd (snd (snd f)))"
  by (auto simp: record_fields_def res_bind_eq_Inr Let_def)

lemma record_fields_wf: "py_wf d \<Longrightarrow> record_fields p d = Inr f \<Longrightarrow> py_wf (snd (snd (snd f)))"
proof -
  assume wf: "py_wf d" and r: "record_fields p d = Inr f"
  from record_fields_guess_mod [OF r] obtain g where
    g: "py_get d ''guess'' (PDict []) = Inr g" and m: "py_get g ''guess_mod'' PNone = Inr (snd (snd (snd f)))"
    by blast
  have "py_wf g" using py_get_wf [OF wf _ g] by simp
  then show ?thesis using py_get_wf [OF _ _ m] by simp
qed

lemma fields_all_elems:
  "fields_all p ds = Inr flds \<Longrightarrow> f \<in> set flds \<Longrightarrow> \<exists>d \<in> set ds. record_fields p d = Inr f"
  by (induction ds arbitrary: flds) (auto simp: res_bind_eq_Inr)

lemma changes_map: "changes R (map f xs) = changes (\<lambda>a b. R (f a) (f b)) xs"
  by (induction "\<lambda>a b. R (f a) (f b)" xs rule: changes.induct) auto

lemma map_fst_events: "map fst (events p flds) = map (snd \<circ> snd) flds"
  by (rule nth_equalityI) (simp_all add: events_def)

lemma length_phase_runs:
  assumes "\<forall>f \<in> set flds. py_wf (snd (snd (snd f)))"
  shows "length (phase_runs p flds) =
           (if flds = [] then 0 else Suc (changes key_eq (map (snd \<circ> snd) flds)))"
proof -
  have wf: "py_wf (snd (fst e))" if "e \<in> set (events p flds)" for e
  proof -
    have "fst e \<in> set (map fst (events p flds))" using that by simp
    then have "fst e \<in> snd ` snd ` set flds" by (simp add: map_fst_events image_image)
    then show ?thesis using assms by auto
  qed
  have "length (group_runs same_phase (events p flds)) =
        (if events p flds = [] then 0 else Suc (changes same_phase (events p flds)))"
    by (rule length_group_runs_changes) (auto simp: same_phase_def intro: key_eq_sym key_eq_trans wf)
  moreover have "changes same_phase (events p flds) = changes key_eq (map (snd \<circ> snd) flds)"
    using changes_map [of key_eq fst "events p flds"]
    by (simp add: map_fst_events same_phase_def [abs_def])
  ultimately show ?thesis by (simp add: phase_runs_def)
qed

lemma spec_result_points:
  assumes "spec_result p flds = (cxs, cys, labels)"
  shows "concat (map tl cxs) = map (x_value_at p flds) [0..<length flds] \<and>
         concat (map tl cys) = map (fst \<circ> snd) flds"
proof -
  have cx: "cxs = map (map fst) (spec_curves p flds)" and cy: "cys = map (map snd) (spec_curves p flds)"
    using assms by (auto simp: spec_result_def)
  have t: "map tl (spec_curves p flds) = map (map snd) (phase_runs p flds)"
    by (simp add: spec_curves_def map_tl_stitch)
  have c: "concat (map (map snd) (phase_runs p flds)) = map snd (events p flds)"
    by (simp add: phase_runs_def map_concat [symmetric])
  have "concat (map tl cxs) = map fst (concat (map tl (spec_curves p flds)))"
    by (simp add: cx map_tl map_concat comp_def)
  also have "\<dots> = map (x_value_at p flds) [0..<length flds]"
    by (simp add: t c events_def)
  finally have x: "concat (map tl cxs) = map (x_value_at p flds) [0..<length flds]" .
  have "concat (map tl cys) = map snd (concat (map tl (spec_curves p flds)))"
    by (simp add: cy map_tl map_concat comp_def)
  also have "\<dots> = map (fst \<circ> snd) flds"
    by (simp add: t c events_def) (rule nth_equalityI, simp_all)
  finally show ?thesis using x by simp
qed

section \<open>Properties of \<open>parse_status_file\<close>\<close>

text \<open>C1 (refinement). \<open>parse_status_file\<close> returns curves exactly when the status file is
  missing (no curves) or every decoded record of it has the fields lines 52-77 read;
  the curves are then the abstract specification \<open>spec_result\<close> of that field stream.\<close>

theorem parse_status_file_Inr_iff:
  "parse_status_file p fsys loads = Inr r \<longleftrightarrow>
     (fsys (filename p) = None \<and> r = ([], [], [])) \<or>
     (\<exists>content flds. fsys (filename p) = Some content \<and>
        fields_all p (read_records loads content) = Inr flds \<and> r = spec_result p flds)"
  by (cases "fsys (filename p)") (auto simp: parse_status_file_refines res_bind_eq_Inr)

text \<open>C2 (safety). Consecutive curves are stitched: each curve after the first starts at
  the point (x and y) where the previous curve ends.\<close>

theorem parse_status_file_stitched:
  "parse_status_file p fsys loads = Inr (cx, cy, lbl) \<Longrightarrow> Suc k < length cx \<Longrightarrow>
   hd (cx ! Suc k) = last (cx ! k) \<and> hd (cy ! Suc k) = last (cy ! k)"
  using parse_status_file_result spec_result_stitched by metis

text \<open>C3 (functional). The first curve starts at the origin \<open>(0, 0)\<close>.\<close>

theorem parse_status_file_anchor:
  "parse_status_file p fsys loads = Inr (cx, cy, lbl) \<Longrightarrow> cx \<noteq> [] \<Longrightarrow>
   hd (cx ! 0) = 0 \<and> hd (cy ! 0) = PInt 0"
  using parse_status_file_result spec_result_anchor by metis

text \<open>C4 (type). The three lists returned are parallel, each curve has as many y-values
  as x-values and at least two points.\<close>

theorem parse_status_file_shape:
  "parse_status_file p fsys loads = Inr (cx, cy, lbl) \<Longrightarrow>
   length cy = length cx \<and> length lbl = length cx \<and>
   (\<forall>k < length cx. length (cy ! k) = length (cx ! k) \<and> 2 \<le> length (cx ! k))"
  using parse_status_file_result spec_result_shape by metis

text \<open>C5 (safety). When the status timer and every progress value are non-negative, the
  x-values of all curves, concatenated in order, are non-decreasing.\<close>

theorem parse_status_file_x_sorted:
  "parse_status_file p fsys loads = Inr (cx, cy, lbl) \<Longrightarrow> fsys (filename p) = Some content \<Longrightarrow>
   fields_all p (read_records loads content) = Inr flds \<Longrightarrow>
   0 \<le> status_timer p \<Longrightarrow> \<forall>f \<in> set flds. 0 \<le> fst f \<Longrightarrow> sorted (concat cx)"
  by (auto simp: parse_status_file_refines intro: spec_result_sorted)

text \<open>C6 (functional). After the loop, \<open>elapsed_seconds\<close> is the number of decoded records
  times \<open>status_timer\<close> and \<open>guesses\<close> is the sum of the progress values read.\<close>

theorem parse_lines_accumulators:
  "parse_lines p loads init_state (text_lines content) = Inr st \<Longrightarrow>
   elapsed_seconds st = of_nat (length (read_records loads content)) * status_timer p \<and>
   (\<exists>flds. fields_all p (read_records loads content) = Inr flds \<and> guesses st = sum_list (map fst flds))"
  by (auto simp: parse_lines_abs res_bind_eq_Inr abs_state_def dest: fields_all_length)

text \<open>C7 (error). \<open>parse_status_file\<close> raises exactly the exception of the first decoded
  record whose fields cannot be read: a record that is a JSON value but lacks a key
  aborts the whole parse, records before it are processed without error.\<close>

theorem parse_status_file_Inl_iff:
  "parse_status_file p fsys loads = Inl e \<longleftrightarrow>
     (\<exists>content pre d post. fsys (filename p) = Some content \<and>
        read_records loads content = pre @ d # post \<and>
        (\<forall>d' \<in> set pre. \<not> isl (record_fields p d')) \<and> record_fields p d = Inl e)"
proof -
  have "parse_status_file p fsys loads = Inl e \<longleftrightarrow>
        (\<exists>content. fsys (filename p) = Some content \<and> fields_all p (read_records loads content) = Inl e)"
    by (cases "fsys (filename p)") (auto simp: parse_status_file_refines res_bind_eq_Inl)
  also have "\<dots> \<longleftrightarrow> (\<exists>content pre d post. fsys (filename p) = Some content \<and>
        read_records loads content = pre @ d # post \<and>
        (\<forall>d' \<in> set pre. \<not> isl (record_fields p d')) \<and> record_fields p d = Inl e)"
  proof
    assume "\<exists>content. fsys (filename p) = Some content \<and> fields_all p (read_records loads content) = Inl e"
    then obtain content where c: "fsys (filename p) = Some content"
      and f: "fields_all p (read_records loads content) = Inl e" by blast
    from fields_all_Inl_first [OF f] c show "\<exists>content pre d post. fsys (filename p) = Some content \<and>
        read_records loads content = pre @ d # post \<and>
        (\<forall>d' \<in> set pre. \<not> isl (record_fields p d')) \<and> record_fields p d = Inl e" by blast
  next
    assume "\<exists>content pre d post. fsys (filename p) = Some content \<and>
        read_records loads content = pre @ d # post \<and>
        (\<forall>d' \<in> set pre. \<not> isl (record_fields p d')) \<and> record_fields p d = Inl e"
    then show "\<exists>content. fsys (filename p) = Some content \<and> fields_all p (read_records loads content) = Inl e"
      by (metis fields_all_Inl_at)
  qed
  finally show ?thesis .
qed

text \<open>C8 (invariant). Every state reachable by the loop satisfies \<open>parse_inv\<close>.\<close>

theorem parse_reachable_inv: "parse_reachable p st \<Longrightarrow> parse_inv st"
  using parse_reachable_abs parse_inv_abs by metis

text \<open>C9 (safety). From every reachable state, a record whose fields can be read is
  processed without exception, to a reachable state.\<close>

theorem parse_reachable_step_total:
  "parse_reachable p st \<Longrightarrow> record_fields p d = Inr f \<Longrightarrow>
   \<exists>st'. process_record p st d = Inr st' \<and> parse_reachable p st'"
proof -
  assume r: "parse_reachable p st" and f: "record_fields p d = Inr f"
  from r obtain fs where "st = abs_state p fs" using parse_reachable_abs by blast
  then have "process_record p st d = Inr (abs_state p (fs @ [f]))"
    using f by (simp add: process_record_fields record_step_abs)
  with r show ?thesis by (blast intro: parse_reachable.step)
qed

text \<open>C23 (functional). The number of curves is one more than the number of phase
  changes between consecutive decoded records (spec property P3), where two keys are
  the same phase when they are \<open>==\<close> in Python; this holds whenever the decoder returns
  JSON values (dicts with distinct keys), because \<open>==\<close> is then an equivalence.\<close>

theorem parse_status_file_curve_count:
  "parse_status_file p fsys loads = Inr (cxs, cys, labels) \<Longrightarrow> fsys (filename p) = Some content \<Longrightarrow>
   \<forall>d \<in> set (read_records loads content). py_wf d \<Longrightarrow>
   fields_all p (read_records loads content) = Inr flds \<Longrightarrow>
   length cxs = (if flds = [] then 0 else Suc (changes key_eq (map (snd \<circ> snd) flds)))"
proof -
  assume r: "parse_status_file p fsys loads = Inr (cxs, cys, labels)"
    and c: "fsys (filename p) = Some content"
    and wf: "\<forall>d \<in> set (read_records loads content). py_wf d"
    and f: "fields_all p (read_records loads content) = Inr flds"
  have "cxs = map (map fst) (spec_curves p flds)"
    using r by (simp add: parse_status_file_refines c f spec_result_def)
  moreover have "\<forall>g \<in> set flds. py_wf (snd (snd (snd g)))"
    using wf f by (auto dest: fields_all_elems record_fields_wf)
  ultimately show ?thesis by (simp add: spec_curves_def length_phase_runs)
qed

text \<open>C27 (functional). Every decoded record contributes exactly one point, in file
  order: dropping the first point of each curve (the anchor or the stitched point),
  the x-values are those of the records (\<open>i * status_timer\<close> in time mode, the running
  sum of the progress values otherwise) and the y-values are the records' values.\<close>

theorem parse_status_file_points:
  "parse_status_file p fsys loads = Inr (cxs, cys, labels) \<Longrightarrow> fsys (filename p) = Some content \<Longrightarrow>
   fields_all p (read_records loads content) = Inr flds \<Longrightarrow>
   concat (map tl cxs) = map (x_value_at p flds) [0..<length flds] \<and>
   concat (map tl cys) = map (fst \<circ> snd) flds"
  by (intro spec_result_points) (simp add: parse_status_file_refines)

end
