(* ===== verification/Downsample.thy ===== *)
theory Downsample
  imports Segmenter
begin

text \<open>
  The downsampling of \<open>PasswordCrackingApp._create_figure\<close>
  (src/password_cracking_curve.py, lines 252-264): a curve of more than 1000 points
  keeps every 60th point, \<open>curves_x[k][::sample_rate]\<close>, and its last point when
  the stride misses it. Python's built-in extended slice is
  \<open>py_slice_step\<close>, its meaning: the elements at the indices of
  \<open>range(0, len(xs), step)\<close> for the code's positive step 60. \<open>downsample_points\<close> states on the
  list of points \<open>(x, y)\<close> what the downsampling of the two parallel lists does.
\<close>

text \<open>\<open>xs[::step]\<close> for a positive step: the elements at the indices of
  \<open>range(0, len(xs), step)\<close>.\<close>

definition py_slice_step :: "'a list \<Rightarrow> nat \<Rightarrow> 'a list" where
  "py_slice_step xs step = map (\<lambda>i. xs ! i) (filter (\<lambda>i. i mod step = 0) [0..<length xs])"

definition sample_rate :: nat where
  "sample_rate = 60"

text \<open>Lines 254-261, run on a curve of more than 1000 points: every 60th point, and
  the last point when the stride misses it. \<open>len(curves_x[k]) - 1\<close> is a Python
  int, so the test is on \<open>int\<close>.\<close>

definition downsample :: "'a list \<Rightarrow> 'b list \<Rightarrow> ('a list \<times> 'b list) py_result" where
  "downsample cx cy =
     (let sx = py_slice_step cx sample_rate; sy = py_slice_step cy sample_rate in
      if (int (length cx) - 1) mod int sample_rate \<noteq> 0
      then res_bind (py_last cx) (\<lambda>lx. res_bind (py_last cy) (\<lambda>ly. Inr (sx @ [lx], sy @ [ly])))
      else Inr (sx, sy))"

text \<open>What the downsampling promises, stated on the list of points \<open>(x, y)\<close> of a
  curve: every 60th point and the last one.\<close>

definition downsample_points :: "'a list \<Rightarrow> 'a list" where
  "downsample_points ps =
     py_slice_step ps sample_rate @
     (if ps \<noteq> [] \<and> (length ps - 1) mod sample_rate \<noteq> 0 then [last ps] else [])"

text \<open>A curve as it is drawn (line 253): downsampled as a list of points when it has
  more than 1000 of them, unchanged otherwise.\<close>

definition sample_curve :: "rat list \<Rightarrow> pyval list \<Rightarrow> rat list \<times> pyval list" where
  "sample_curve cx cy =
     (if 1000 < length cx
      then (map fst (downsample_points (zip cx cy)), map snd (downsample_points (zip cx cy)))
      else (cx, cy))"

section \<open>Lemmas: slicing and downsampling\<close>

lemma map_nth_filter_Cons:
  "map ((!) (x # xs)) (filter P [0..<length (x # xs)]) =
     (if P 0 then [x] else []) @ map ((!) xs) (filter (P \<circ> Suc) [0..<length xs])"
proof -
  have "[0..<length (x # xs)] = 0 # map Suc [0..<length xs]"
    by (simp add: upt_conv_Cons map_Suc_upt del: upt_Suc)
  then show ?thesis by (simp add: filter_map)
qed

lemma subseq_map_nth_filter: "subseq (map ((!) xs) (filter P [0..<length xs])) xs"
proof (induction xs arbitrary: P)
  case (Cons x xs)
  have "subseq (map ((!) xs) (filter (P \<circ> Suc) [0..<length xs])) xs" by (rule Cons.IH)
  then show ?case by (simp only: map_nth_filter_Cons) (auto simp del: o_apply)
qed simp

lemma hd_map_nth_filter:
  "xs \<noteq> [] \<Longrightarrow> P 0 \<Longrightarrow> hd (map ((!) xs) (filter P [0..<length xs])) = hd xs"
  by (cases xs) (simp_all only: map_nth_filter_Cons, auto)

lemma map_nth_filter_last:
  assumes "xs \<noteq> []"
  shows "map ((!) xs) (filter P [0..<length xs]) =
           map ((!) (butlast xs)) (filter P [0..<length (butlast xs)]) @
           (if P (length xs - 1) then [last xs] else [])"
proof -
  have "[0..<length xs] = [0..<length (butlast xs)] @ [length xs - 1]"
    using assms by (cases xs rule: rev_cases) auto
  moreover have "map ((!) xs) (filter P [0..<length (butlast xs)]) =
                 map ((!) (butlast xs)) (filter P [0..<length (butlast xs)])"
    by (simp add: nth_butlast)
  ultimately show ?thesis using assms by (simp add: last_conv_nth)
qed

lemma py_slice_step_zip:
  "length ys = length xs \<Longrightarrow>
   py_slice_step (zip xs ys) n = zip (py_slice_step xs n) (py_slice_step ys n)"
  by (simp add: py_slice_step_def zip_map_map zip_same_conv_map)

lemma length_py_slice_step_eq:
  "length ys = length xs \<Longrightarrow> length (py_slice_step ys n) = length (py_slice_step xs n)"
  by (simp add: py_slice_step_def)

lemma int_length_minus_one_mod:
  "xs \<noteq> [] \<Longrightarrow> ((int (length xs) - 1) mod int m = 0) = ((length xs - 1) mod m = 0)"
proof -
  assume "xs \<noteq> []"
  then have "int (length xs) - 1 = int (length xs - 1)" by (cases xs) auto
  then have "(int (length xs) - 1) mod int m = int ((length xs - 1) mod m)"
    by (simp only: of_nat_mod)
  then show ?thesis by simp
qed

lemma downsample_points_split:
  "ps \<noteq> [] \<Longrightarrow> downsample_points ps = py_slice_step (butlast ps) sample_rate @ [last ps]"
  by (cases "(length ps - 1) mod sample_rate = 0")
     (simp_all add: downsample_points_def py_slice_step_def map_nth_filter_last [of ps])

lemma downsample_points_Nil [simp]: "downsample_points [] = []"
  by (simp add: downsample_points_def py_slice_step_def)

lemma py_slice_step_Nil [simp]: "py_slice_step [] n = []"
  by (simp add: py_slice_step_def)

lemma py_slice_step_nonempty: "xs \<noteq> [] \<Longrightarrow> py_slice_step xs n \<noteq> []"
  by (auto simp: py_slice_step_def filter_empty_conv intro!: bexI [of _ 0])

lemma subseq_py_slice_step: "subseq (py_slice_step xs n) xs"
  unfolding py_slice_step_def by (rule subseq_map_nth_filter)

lemma hd_py_slice_step: "xs \<noteq> [] \<Longrightarrow> hd (py_slice_step xs n) = hd xs"
  unfolding py_slice_step_def by (rule hd_map_nth_filter) simp_all

lemma downsample_points_subseq: "subseq (downsample_points ps) ps"
proof (cases "ps = []")
  case False
  then have "ps = butlast ps @ [last ps]" by simp
  moreover have "subseq (py_slice_step (butlast ps) sample_rate @ [last ps]) (butlast ps @ [last ps])"
    by (intro list_emb_append_mono subseq_py_slice_step) simp
  ultimately show ?thesis using False by (simp add: downsample_points_split)
qed simp

lemma downsample_points_last: "ps \<noteq> [] \<Longrightarrow> last (downsample_points ps) = last ps"
  by (simp add: downsample_points_split)

lemma downsample_points_hd: "ps \<noteq> [] \<Longrightarrow> hd (downsample_points ps) = hd ps"
proof -
  assume ne: "ps \<noteq> []"
  show ?thesis
  proof (cases "butlast ps = []")
    case True
    with ne obtain a where "ps = [a]" by (cases ps rule: rev_cases) auto
    then show ?thesis by (simp add: downsample_points_split)
  next
    case False
    then have "hd (butlast ps) = hd ps" by (cases ps) auto
    with False ne show ?thesis
      by (simp add: downsample_points_split hd_py_slice_step py_slice_step_nonempty)
  qed
qed

lemma last_zip_same_length:
  "length ys = length xs \<Longrightarrow> xs \<noteq> [] \<Longrightarrow> last (zip xs ys) = (last xs, last ys)"
proof -
  assume l: "length ys = length xs" and ne: "xs \<noteq> []"
  obtain xs' x where xs: "xs = xs' @ [x]" using ne by (cases xs rule: rev_cases) auto
  moreover obtain ys' y where ys: "ys = ys' @ [y]" using ne l by (cases ys rule: rev_cases) auto
  ultimately show ?thesis using l by simp
qed

lemma downsample_refines:
  assumes len: "length cy = length cx" and ne: "cx \<noteq> []"
  shows "downsample cx cy =
           Inr (map fst (downsample_points (zip cx cy)), map snd (downsample_points (zip cx cy)))"
proof -
  let ?sx = "py_slice_step cx sample_rate" and ?sy = "py_slice_step cy sample_rate"
  have ney: "cy \<noteq> []" using len ne by auto
  have z: "py_slice_step (zip cx cy) sample_rate = zip ?sx ?sy"
    using len by (rule py_slice_step_zip)
  have l: "length ?sy = length ?sx" using len by (rule length_py_slice_step_eq)
  have c: "((int (length cx) - 1) mod int sample_rate = 0) = ((length cx - 1) mod sample_rate = 0)"
    using ne by (rule int_length_minus_one_mod)
  have lz: "last (zip cx cy) = (last cx, last cy)" using len ne by (rule last_zip_same_length)
  have lzne: "zip cx cy \<noteq> []" using ne ney by (simp add: zip_eq_Nil_iff)
  show ?thesis
  proof (cases "(length cx - 1) mod sample_rate = 0")
    case True
    then have "downsample cx cy = Inr (?sx, ?sy)" by (simp add: downsample_def c)
    moreover have "downsample_points (zip cx cy) = zip ?sx ?sy"
      using True len by (simp add: downsample_points_def z)
    ultimately show ?thesis using l by simp
  next
    case False
    then have "downsample cx cy = Inr (?sx @ [last cx], ?sy @ [last cy])"
      using ne ney by (simp add: downsample_def c py_simps)
    moreover have "downsample_points (zip cx cy) = zip ?sx ?sy @ [(last cx, last cy)]"
      using False len lzne by (simp add: downsample_points_def z lz)
    ultimately show ?thesis using l by simp
  qed
qed

lemma length_filter_mod_le:
  assumes "0 < n"
  shows "length (filter (\<lambda>i. i mod n = 0) [0..<m]) \<le> (m - 1) div n + 1"
proof -
  let ?is = "filter (\<lambda>i. i mod n = 0) [0..<m]"
  have "inj_on (\<lambda>i. i div n) (set ?is)"
  proof (rule inj_onI)
    fix i j assume "i \<in> set ?is" "j \<in> set ?is" "i div n = j div n"
    then show "i = j" by (metis (mono_tags, lifting) div_mult_mod_eq mem_Collect_eq set_filter)
  qed
  then have "distinct (map (\<lambda>i. i div n) ?is)" by (simp add: distinct_map)
  then have "length ?is = card ((\<lambda>i. i div n) ` set ?is)"
    using distinct_card by fastforce
  also have "\<dots> \<le> card {0..<(m - 1) div n + 1}"
    by (intro card_mono) (auto simp: less_Suc_eq_le intro!: div_le_mono)
  finally show ?thesis by simp
qed

lemma length_downsample_points:
  "length (downsample_points ps) \<le> (length ps - 1) div sample_rate + 2"
proof -
  have "length (py_slice_step ps sample_rate) \<le> (length ps - 1) div sample_rate + 1"
    using length_filter_mod_le [of 60 "length ps"] by (simp add: py_slice_step_def sample_rate_def)
  then show ?thesis by (simp add: downsample_points_def)
qed

lemma sample_curve_hd_last:
  assumes "length cy = length cx" "cx \<noteq> []"
  shows "fst (sample_curve cx cy) \<noteq> [] \<and> hd (fst (sample_curve cx cy)) = hd cx \<and>
         last (fst (sample_curve cx cy)) = last cx \<and> hd (snd (sample_curve cx cy)) = hd cy \<and>
         last (snd (sample_curve cx cy)) = last cy"
proof -
  obtain x xs y ys where c: "cx = x # xs" "cy = y # ys" using assms by (cases cx; cases cy) auto
  have z: "zip cx cy \<noteq> []" "hd (zip cx cy) = (hd cx, hd cy)" "last (zip cx cy) = (last cx, last cy)"
    using assms last_zip_same_length [OF assms] by (simp_all add: c)
  have "downsample_points (zip cx cy) \<noteq> []"
    using z(1) by (simp add: downsample_points_split)
  then show ?thesis using assms z
    by (auto simp: sample_curve_def hd_map last_map downsample_points_hd downsample_points_last)
qed

lemma sample_curve_subseq:
  "length cy = length cx \<Longrightarrow> subseq (zip (fst (sample_curve cx cy)) (snd (sample_curve cx cy))) (zip cx cy)"
  by (simp add: sample_curve_def zip_map_fst_snd downsample_points_subseq)

lemma sample_curve_length:
  "length cy = length cx \<Longrightarrow> length (snd (sample_curve cx cy)) = length (fst (sample_curve cx cy))"
  by (simp add: sample_curve_def)

section \<open>Properties of the downsampling\<close>

text \<open>C11 (functional). Downsampling a curve of more than 1000 points, with as many
  y-values as x-values, never raises and keeps the first and the last point exactly
  (spec property P5).\<close>

theorem downsample_endpoints_exact:
  "1000 < length (cx :: rat list) \<Longrightarrow> length (cy :: pyval list) = length cx \<Longrightarrow>
   \<exists>sx sy. downsample cx cy = Inr (sx, sy) \<and> hd sx = hd cx \<and> last sx = last cx \<and>
           hd sy = hd cy \<and> last sy = last cy"
proof -
  assume big: "1000 < length cx" and len: "length cy = length cx"
  then have ne: "cx \<noteq> []" by auto
  have "downsample cx cy = Inr (sample_curve cx cy)"
    using big by (simp add: downsample_refines [OF len ne] sample_curve_def)
  with sample_curve_hd_last [OF len ne] show ?thesis
    by (intro exI [of _ "fst (sample_curve cx cy)"] exI [of _ "snd (sample_curve cx cy)"]) simp
qed


text \<open>C12 (refinement). The downsampled points are a subsequence of the original points
  taken as pairs: x- and y-lists are sampled at the same indices and stay parallel.\<close>

theorem downsample_subseq_pairs:
  "length cy = length cx \<Longrightarrow> downsample cx cy = Inr (sx, sy) \<Longrightarrow>
   length sy = length sx \<and> subseq (zip sx sy) (zip cx cy)"
proof (cases "cx = []")
  case True
  moreover assume "length cy = length cx" "downsample cx cy = Inr (sx, sy)"
  ultimately show ?thesis by (simp add: downsample_def py_simps sample_rate_def)
next
  case False
  moreover assume len: "length cy = length cx" and d: "downsample cx cy = Inr (sx, sy)"
  ultimately have "sx = map fst (downsample_points (zip cx cy))" "sy = map snd (downsample_points (zip cx cy))"
    using downsample_refines [OF len] by auto
  then show ?thesis by (simp add: zip_map_fst_snd downsample_points_subseq)
qed


text \<open>C16 (bounds). A downsampled curve of n points has at most (n - 1) div 60 + 2 points.\<close>

theorem downsample_length_bound:
  "length cy = length cx \<Longrightarrow> downsample cx cy = Inr (sx, sy) \<Longrightarrow>
   length sx \<le> (length cx - 1) div 60 + 2"
proof (cases "cx = []")
  case True
  moreover assume "length cy = length cx" "downsample cx cy = Inr (sx, sy)"
  ultimately show ?thesis by (simp add: downsample_def py_simps sample_rate_def)
next
  case False
  moreover assume len: "length cy = length cx" and d: "downsample cx cy = Inr (sx, sy)"
  ultimately have "sx = map fst (downsample_points (zip cx cy))"
    using downsample_refines [OF len] by auto
  moreover have "length (downsample_points (zip cx cy)) \<le> (length cx - 1) div 60 + 2"
    using length_downsample_points [of "zip cx cy"] len by (simp add: sample_rate_def)
  ultimately show ?thesis by simp
qed

end
