(* ===== verification/Figure.thy ===== *)
theory Figure
  imports Downsample
begin

text \<open>
  The figure of \<open>PasswordCrackingApp._create_figure\<close> (src/password_cracking_curve.py,
  lines 234-295): for each parser in order, the curves \<open>parse_status_file\<close> returns
  are downsampled when longer than 1000 points (lines 252-264, theory Downsample), labelled from their
  phase key (lines 266-268), coloured black when the key mentions the potfile
  (lines 270-274), and added to the figure as one trace each (lines 276-284). The
  plotly objects are modelled by the data they receive (\<open>trace\<close>, \<open>figure\<close>); the
  layout options that are constant (template, legend title, hover mode, margins) are
  not. The per-file colour of line 249 is computed but never used by the code and
  has no counterpart here.
\<close>

text \<open>\<open>xs[k]\<close> for an index \<open>k \<ge> 0\<close>.\<close>

definition nth_py :: "'a list \<Rightarrow> nat \<Rightarrow> 'a py_result" where
  "nth_py xs k = (if k < length xs then Inr (xs ! k) else Inl IndexError)"

text \<open>Line 268: the last \<open>/\<close>-segment of the key's string, followed by the last
  segment of \<open>guess_mod\<close> when it is not \<open>None\<close> (\<open>guess_mod.split\<close> raises
  AttributeError unless it is a str).\<close>

definition attack_label :: "phase_key \<Rightarrow> string py_result" where
  "attack_label key =
     (case key of (guess_base, guess_mod) \<Rightarrow>
        if \<not> py_eq guess_mod PNone
        then res_bind (py_split_last_method guess_mod CHR ''/'')
               (\<lambda>m. Inr (last_segment CHR ''/'' guess_base @ '' '' @ m))
        else Inr (last_segment CHR ''/'' guess_base))"

text \<open>Lines 271-274.\<close>

definition trace_color :: "bool \<Rightarrow> string \<Rightarrow> string option" where
  "trace_color no_potfile_highlight guess_base =
     (if str_contains ''potfile'' guess_base \<and> \<not> no_potfile_highlight then Some ''black'' else None)"

text \<open>\<open>Path(p).name\<close> and \<open>Path(p).stem\<close> on a POSIX path (Python 3.12): empty and
  \<open>.\<close> components are dropped; the stem loses the suffix from the last dot unless
  that dot starts or ends the name.\<close>

definition path_name :: "string \<Rightarrow> string" where
  "path_name p =
     (let parts = filter (\<lambda>c. c \<noteq> [] \<and> c \<noteq> ''.'') (py_split_char CHR ''/'' p)
      in if parts = [] then [] else last parts)"

definition path_stem :: "string \<Rightarrow> string" where
  "path_stem p =
     (let name = path_name p;
          upto_dot = rev (dropWhile (\<lambda>c. c \<noteq> CHR ''.'') (rev name));
          i = length upto_dot - 1
      in if upto_dot \<noteq> [] \<and> 0 < i \<and> i < length name - 1 then take i name else name)"

record trace =
  trace_x :: "rat list"
  trace_y :: "pyval list"
  marker_color :: "string option"
  trace_name :: string
  legendgroup :: string
  legendgrouptitle_text :: "string option"

text \<open>Lines 276-284: the trace of curve \<open>k\<close> of a file.\<close>

definition scatter ::
  "bool \<Rightarrow> string \<Rightarrow> nat \<Rightarrow> rat list \<times> pyval list \<Rightarrow> phase_key \<Rightarrow> string \<Rightarrow> trace" where
  "scatter no_hl file_name k xy key name =
     \<lparr>trace_x = fst xy, trace_y = snd xy, marker_color = trace_color no_hl (fst key),
      trace_name = name, legendgroup = file_name,
      legendgrouptitle_text = (if k = 0 then Some file_name else None)\<rparr>"

text \<open>One iteration of lines 251-284 for curve \<open>k\<close>: the downsampling replaces
  \<open>curves_x[k]\<close> and \<open>curves_y[k]\<close> in place, then the label, the colour and the
  trace are built from the (possibly replaced) lists.\<close>

definition curve_trace ::
  "bool \<Rightarrow> string \<Rightarrow> phase_key list \<Rightarrow> nat \<Rightarrow> rat list list \<times> pyval list list \<Rightarrow>
   (trace \<times> rat list list \<times> pyval list list) py_result" where
  "curve_trace no_hl file_name labels k cs =
     (case cs of (cxs, cys) \<Rightarrow>
      res_bind
        (if 1000 < length (cxs ! k)
         then res_bind (nth_py cys k) (\<lambda>cy. res_bind (downsample (cxs ! k) cy)
                (\<lambda>s. Inr (cxs[k := fst s], cys[k := snd s])))
         else Inr (cxs, cys)) (\<lambda>cs'.
      res_bind (nth_py labels k) (\<lambda>key.
      res_bind (attack_label key) (\<lambda>name.
      res_bind (nth_py (snd cs') k) (\<lambda>y.
      Inr (scatter no_hl file_name k (fst cs' ! k, y) key name, cs'))))))"

text \<open>\<open>for k in range(len(curves_x))\<close>: \<open>n\<close> iterations from index \<open>k\<close>.\<close>

fun curve_loop ::
  "bool \<Rightarrow> string \<Rightarrow> phase_key list \<Rightarrow> nat \<Rightarrow> nat \<Rightarrow> rat list list \<times> pyval list list \<Rightarrow>
   trace list py_result" where
  "curve_loop no_hl file_name labels k 0 cs = Inr []"
| "curve_loop no_hl file_name labels k (Suc n) cs =
     res_bind (curve_trace no_hl file_name labels k cs) (\<lambda>r.
     res_bind (curve_loop no_hl file_name labels (Suc k) n (snd r)) (\<lambda>ts. Inr (fst r # ts)))"

text \<open>Lines 247-284 for one entry \<open>(file_path, parser)\<close> of \<open>self.parsers\<close>.\<close>

definition file_traces ::
  "bool \<Rightarrow> (string \<Rightarrow> string option) \<Rightarrow> json_decoder \<Rightarrow> string \<times> hashcat_status_parser \<Rightarrow>
   trace list py_result" where
  "file_traces no_hl fsys loads entry =
     (case entry of (file_path, parser) \<Rightarrow>
        res_bind (parse_status_file parser fsys loads) (\<lambda>r.
          case r of (cxs, cys, labels) \<Rightarrow>
            curve_loop no_hl (path_stem file_path) labels 0 (length cxs) (cxs, cys)))"

fun parsers_traces ::
  "bool \<Rightarrow> (string \<Rightarrow> string option) \<Rightarrow> json_decoder \<Rightarrow> (string \<times> hashcat_status_parser) list \<Rightarrow>
   trace list py_result" where
  "parsers_traces no_hl fsys loads [] = Inr []"
| "parsers_traces no_hl fsys loads (e # es) =
     res_bind (file_traces no_hl fsys loads e) (\<lambda>ts.
     res_bind (parsers_traces no_hl fsys loads es) (\<lambda>tss. Inr (ts @ tss)))"

record figure =
  fig_traces :: "trace list"
  xaxis_title :: string
  yaxis_title :: string

text \<open>The whole method: the axis titles of lines 239-240 and the traces of all
  files in the order of \<open>self.parsers\<close>.\<close>

definition create_figure ::
  "string \<Rightarrow> string \<Rightarrow> bool \<Rightarrow> (string \<times> hashcat_status_parser) list \<Rightarrow>
   (string \<Rightarrow> string option) \<Rightarrow> json_decoder \<Rightarrow> figure py_result" where
  "create_figure x_axis y_axis no_hl parsers fsys loads =
     (let x_title = (if x_axis = ''time'' then ''Time (seconds)'' else ''Number of hashes tested'');
          y_title = (if y_axis = ''count'' then ''Cracked passwords (count)'' else ''Cracked passwords (%)'')
      in res_bind (parsers_traces no_hl fsys loads parsers) (\<lambda>ts.
           Inr \<lparr>fig_traces = ts, xaxis_title = x_title, yaxis_title = y_title\<rparr>))"

section \<open>What the figure promises\<close>

text \<open>\<open>curves_ok\<close> is the shape of the curves \<open>parse_status_file\<close> returns (theory
  Segmenter).\<close>

definition curves_ok :: "rat list list \<Rightarrow> pyval list list \<Rightarrow> phase_key list \<Rightarrow> bool" where
  "curves_ok cxs cys labels =
     (length cys = length cxs \<and> length labels = length cxs \<and>
      (\<forall>k < length cxs. length (cys ! k) = length (cxs ! k) \<and> cxs ! k \<noteq> []))"

section \<open>Lemmas: the loop over the curves and the traces of a file\<close>

declare nth_py_def [py_simps]

lemma attack_label_Inl: "attack_label key = Inl e \<Longrightarrow> e = AttributeError"
  by (cases key; cases "snd key") (auto simp: attack_label_def split: if_splits)

lemma curve_trace_ok:
  assumes "k < length cxs" "length cys = length cxs" "k < length labels"
    "length (cys ! k) = length (cxs ! k)" "cxs ! k \<noteq> []"
  shows "curve_trace no_hl fnm labels k (cxs, cys) =
           res_bind (attack_label (labels ! k)) (\<lambda>name.
             Inr (scatter no_hl fnm k (sample_curve (cxs ! k) (cys ! k)) (labels ! k) name,
                  cxs[k := fst (sample_curve (cxs ! k) (cys ! k))],
                  cys[k := snd (sample_curve (cxs ! k) (cys ! k))]))"
proof (cases "1000 < length (cxs ! k)")
  case True
  then show ?thesis using assms
    by (simp add: curve_trace_def py_simps downsample_refines sample_curve_def)
next
  case False
  then show ?thesis using assms
    by (simp add: curve_trace_def py_simps sample_curve_def)
qed

lemma curve_loop_spec:
  assumes ok: "curves_ok cxs cys labels"
  shows "k + n = length cxs \<Longrightarrow> length cxs' = length cxs \<Longrightarrow> length cys' = length cys \<Longrightarrow>
    (\<forall>j. k \<le> j \<longrightarrow> j < length cxs \<longrightarrow> cxs' ! j = cxs ! j \<and> cys' ! j = cys ! j) \<Longrightarrow>
    curve_loop no_hl fnm labels k n (cxs', cys') =
      (if \<exists>j \<in> {k..<k + n}. isl (attack_label (labels ! j)) then Inl AttributeError
       else Inr (map (\<lambda>j. scatter no_hl fnm j (sample_curve (cxs ! j) (cys ! j)) (labels ! j)
                            (projr (attack_label (labels ! j)))) [k..<k + n]))"
proof (induction n arbitrary: k cxs' cys')
  case 0
  then show ?case by simp
next
  case (Suc n)
  let ?s = "sample_curve (cxs ! k) (cys ! k)"
  have k: "k < length cxs" using Suc.prems(1) by simp
  have ag: "cxs' ! k = cxs ! k" "cys' ! k = cys ! k" using Suc.prems(4) k by auto
  have ct: "curve_trace no_hl fnm labels k (cxs', cys') =
      res_bind (attack_label (labels ! k)) (\<lambda>name.
        Inr (scatter no_hl fnm k ?s (labels ! k) name, cxs'[k := fst ?s], cys'[k := snd ?s]))"
    using curve_trace_ok [of k cxs' cys' labels no_hl fnm] ok k Suc.prems(2,3) ag
    by (simp add: curves_ok_def)
  show ?case
  proof (cases "attack_label (labels ! k)")
    case (Inl e)
    then have "e = AttributeError" by (rule attack_label_Inl)
    moreover have "\<exists>j \<in> {k..<k + Suc n}. isl (attack_label (labels ! j))"
      using Inl by (intro bexI [of _ k]) simp_all
    ultimately show ?thesis using Inl by (simp add: ct)
  next
    case (Inr name)
    have IH: "curve_loop no_hl fnm labels (Suc k) n (cxs'[k := fst ?s], cys'[k := snd ?s]) =
      (if \<exists>j \<in> {Suc k..<Suc k + n}. isl (attack_label (labels ! j)) then Inl AttributeError
       else Inr (map (\<lambda>j. scatter no_hl fnm j (sample_curve (cxs ! j) (cys ! j)) (labels ! j)
                            (projr (attack_label (labels ! j)))) [Suc k..<Suc k + n]))"
      using Suc.prems by (intro Suc.IH) auto
    have ex: "(\<exists>j \<in> {k..<k + Suc n}. isl (attack_label (labels ! j))) \<longleftrightarrow>
              (\<exists>j \<in> {Suc k..<Suc k + n}. isl (attack_label (labels ! j)))"
    proof
      assume "\<exists>j \<in> {k..<k + Suc n}. isl (attack_label (labels ! j))"
      then obtain j where j: "j \<in> {k..<k + Suc n}" "isl (attack_label (labels ! j))" by blast
      with Inr have "j \<noteq> k" by auto
      with j show "\<exists>j \<in> {Suc k..<Suc k + n}. isl (attack_label (labels ! j))"
        by (intro bexI [of _ j]) auto
    next
      assume "\<exists>j \<in> {Suc k..<Suc k + n}. isl (attack_label (labels ! j))"
      then show "\<exists>j \<in> {k..<k + Suc n}. isl (attack_label (labels ! j))" by force
    qed
    have up: "[k..<k + Suc n] = k # [Suc k..<Suc k + n]" by (simp add: upt_rec)
    have lhs: "curve_loop no_hl fnm labels k (Suc n) (cxs', cys') =
        res_bind (curve_loop no_hl fnm labels (Suc k) n (cxs'[k := fst ?s], cys'[k := snd ?s]))
          (\<lambda>ts. Inr (scatter no_hl fnm k ?s (labels ! k) name # ts))"
      using Inr by (simp add: ct)
    show ?thesis
    proof (cases "\<exists>j \<in> {Suc k..<Suc k + n}. isl (attack_label (labels ! j))")
      case True
      then show ?thesis by (simp only: lhs IH ex if_True res_bind_Inl)
    next
      case False
      then show ?thesis using Inr by (simp only: lhs IH ex up if_False res_bind_Inr list.map) simp
    qed
  qed
qed

lemma parse_status_file_curves_ok:
  "parse_status_file p fsys loads = Inr (cxs, cys, labels) \<Longrightarrow> curves_ok cxs cys labels"
proof -
  assume "parse_status_file p fsys loads = Inr (cxs, cys, labels)"
  then obtain flds where "spec_result p flds = (cxs, cys, labels)"
    using parse_status_file_result by metis
  from spec_result_shape [OF this] show ?thesis
    by (fastforce simp: curves_ok_def)
qed

lemma file_traces_spec:
  assumes "parse_status_file p fsys loads = Inr (cxs, cys, labels)"
  shows "file_traces no_hl fsys loads (fp, p) =
     (if \<exists>j \<in> {0..<length cxs}. isl (attack_label (labels ! j)) then Inl AttributeError
      else Inr (map (\<lambda>j. scatter no_hl (path_stem fp) j (sample_curve (cxs ! j) (cys ! j)) (labels ! j)
                           (projr (attack_label (labels ! j)))) [0..<length cxs]))"
  using curve_loop_spec [OF parse_status_file_curves_ok [OF assms], of 0 "length cxs" cxs cys]
  by (simp add: file_traces_def assms)

lemma file_traces_Inr:
  assumes "parse_status_file p fsys loads = Inr (cxs, cys, labels)"
    and "file_traces no_hl fsys loads (fp, p) = Inr ts"
  shows "length ts = length cxs \<and>
    (\<forall>k < length ts. ts ! k = scatter no_hl (path_stem fp) k (sample_curve (cxs ! k) (cys ! k))
                               (labels ! k) (projr (attack_label (labels ! k))))"
  using assms(2) by (simp add: file_traces_spec [OF assms(1)] split: if_splits) auto

lemma file_traces_parsed:
  "file_traces no_hl fsys loads (fp, p) = Inr ts \<Longrightarrow>
   \<exists>cxs cys labels. parse_status_file p fsys loads = Inr (cxs, cys, labels)"
  by (auto simp: file_traces_def res_bind_eq_Inr)

lemma parsed_stitched:
  "parse_status_file p fsys loads = Inr (cxs, cys, labels) \<Longrightarrow> Suc k < length cxs \<Longrightarrow>
   hd (cxs ! Suc k) = last (cxs ! k) \<and> hd (cys ! Suc k) = last (cys ! k)"
  using parse_status_file_result spec_result_stitched by metis

lemma parsed_anchor:
  "parse_status_file p fsys loads = Inr (cxs, cys, labels) \<Longrightarrow> cxs \<noteq> [] \<Longrightarrow>
   hd (cxs ! 0) = 0 \<and> hd (cys ! 0) = PInt 0"
  using parse_status_file_result spec_result_anchor by metis

lemma file_traces_sampled:
  assumes "file_traces no_hl fsys loads (fp, p) = Inr ts"
  obtains cxs cys labels where "parse_status_file p fsys loads = Inr (cxs, cys, labels)"
    "curves_ok cxs cys labels" "length ts = length cxs"
    "\<And>k. k < length ts \<Longrightarrow> trace_x (ts ! k) = fst (sample_curve (cxs ! k) (cys ! k)) \<and>
           trace_y (ts ! k) = snd (sample_curve (cxs ! k) (cys ! k))"
proof -
  obtain cxs cys labels where p: "parse_status_file p fsys loads = Inr (cxs, cys, labels)"
    using file_traces_parsed [OF assms] by blast
  from file_traces_Inr [OF p assms] show ?thesis
    by (intro that [OF p parse_status_file_curves_ok [OF p]]) (auto simp: scatter_def)
qed

section \<open>Properties of the drawn curves\<close>

text \<open>C17 (functional). The legend label of a phase key built as
  \<open>f"{time_start}/{guess_base}"\<close> does not depend on \<open>time_start\<close>: it is the last
  \<open>/\<close>-segment of \<open>guess_base\<close>, followed by that of \<open>guess_mod\<close> when it is a string.\<close>

theorem attack_label_drops_prefix:
  "attack_label (t @ ''/'' @ gb, PNone) = Inr (last_segment CHR ''/'' gb) \<and>
   attack_label (t @ ''/'' @ gb, PStr m) = Inr (last_segment CHR ''/'' gb @ '' '' @ last_segment CHR ''/'' m)"
  by (simp add: attack_label_def last_segment_after_sep)


text \<open>C18 (error). Building the label raises exactly when \<open>guess_mod\<close> is neither
  \<open>None\<close> nor a string, and then raises AttributeError.\<close>

theorem attack_label_Inl_iff:
  "attack_label (k, gm) = Inl e \<longleftrightarrow>
   e = AttributeError \<and> (case gm of PNone \<Rightarrow> False | PStr s \<Rightarrow> False | _ \<Rightarrow> True)"
  by (cases gm) (auto simp: attack_label_def)


end
