(* ===== verification/App.thy ===== *)
theory App
  imports Figure
begin

text \<open>
  The application object \<open>PasswordCrackingApp\<close> (src/password_cracking_curve.py,
  lines 105-129 and 205-232): its settings (\<open>app_state\<close>), the construction of one
  parser per file (\<open>update_parsers\<close>, a dict comprehension), the constructor
  (\<open>app_init\<close>) and the Dash callback \<open>update_graph_and_settings\<close>, which applies the
  settings of the control panel when the Update button fired and then redraws the
  figure (theory Figure). The page and the registration of the callback are in
  theory Layout, the Dash object and the server in theory CommandLine; the callback's inputs are parameters: the \<open>prop_id\<close> of
  the first triggered input (\<open>None\<close> when nothing triggered) and the values of the
  refresh input and of the check list, which Dash passes as JSON values.
  \<open>app_reachable\<close> is the set of states the application can be in, and the
  lemmas show that its parsers always agree with its settings.
\<close>

record app_state =
  hashcat_files :: "string list"
  update_interval :: pyval
  app_x_axis_type :: string
  app_y_axis_type :: string
  app_status_timer :: rat
  no_potfile_highlight :: bool
  parsers :: "(string \<times> hashcat_status_parser) list"

text \<open>\<open>d[k] = v\<close> on a dict: an existing key keeps its position.\<close>

fun dict_set :: "'k \<Rightarrow> 'v \<Rightarrow> ('k \<times> 'v) list \<Rightarrow> ('k \<times> 'v) list" where
  "dict_set k v [] = [(k, v)]"
| "dict_set k v ((k', v') # kvs) = (if k' = k then (k, v) # kvs else (k', v') # dict_set k v kvs)"

text \<open>Lines 126-129: \<open>{file: HashcatStatusParser(file, ...) for file in self.hashcat_files}\<close>.\<close>

definition update_parsers :: "app_state \<Rightarrow> app_state" where
  "update_parsers st =
     st\<lparr>parsers := foldl (\<lambda>d f. dict_set f
          \<lparr>filename = f, x_axis_type = app_x_axis_type st, y_axis_type = app_y_axis_type st,
           status_timer = app_status_timer st\<rparr> d) [] (hashcat_files st)\<rparr>"

text \<open>Lines 108-119, for the list of files \<open>main\<close> passes.\<close>

definition app_init :: "string list \<Rightarrow> app_state" where
  "app_init files =
     update_parsers \<lparr>hashcat_files = files, update_interval = PInt 10000,
       app_x_axis_type = ''guesses'', app_y_axis_type = ''percentage'', app_status_timer = 1,
       no_potfile_highlight = False, parsers = []\<rparr>"

text \<open>\<open>v * 1000\<close>: numbers multiply (a bool as 0 or 1), a str or a list is repeated,
  anything else raises TypeError.\<close>

fun py_mul_int :: "pyval \<Rightarrow> int \<Rightarrow> pyval py_result" where
  "py_mul_int (PInt i) n = Inr (PInt (i * n))"
| "py_mul_int (PBool b) n = Inr (PInt (of_bool b * n))"
| "py_mul_int (PFloat r) n = Inr (PFloat (r * of_int n))"
| "py_mul_int (PStr s) n = Inr (PStr (concat (replicate (nat n) s)))"
| "py_mul_int (PList xs) n = Inr (PList (concat (replicate (nat n) xs)))"
| "py_mul_int _ n = Inl TypeError"

text \<open>\<open>x in c\<close> for a str \<open>x\<close>: a list compares its elements with \<open>==\<close>, a str tests
  for a substring, a dict for a key; other values raise TypeError.\<close>

fun py_in_str :: "string \<Rightarrow> pyval \<Rightarrow> bool py_result" where
  "py_in_str x (PList vs) = Inr (\<exists>v \<in> set vs. py_eq (PStr x) v)"
| "py_in_str x (PStr s) = Inr (str_contains x s)"
| "py_in_str x (PDict kvs) = Inr (x \<in> set (map fst kvs))"
| "py_in_str x _ = Inl TypeError"

text \<open>Lines 222-227, after the Update button fired. The attributes are assigned one
  by one: an exception of a later line leaves the earlier assignments in place, so
  the result is the state reached and, separately, the exception if one was raised.\<close>

definition apply_settings ::
  "app_state \<Rightarrow> pyval \<Rightarrow> string \<Rightarrow> string \<Rightarrow> pyval \<Rightarrow> app_state \<times> unit py_result" where
  "apply_settings st refresh x_axis y_axis potfile_highlight =
     (case py_mul_int refresh 1000 of
        Inl e \<Rightarrow> (st, Inl e)
      | Inr interval \<Rightarrow>
          let st1 = st\<lparr>update_interval := interval, app_x_axis_type := x_axis,
                       app_y_axis_type := y_axis\<rparr>
          in case py_in_str ''highlight'' potfile_highlight of
               Inl e \<Rightarrow> (st1, Inl e)
             | Inr b \<Rightarrow> (update_parsers (st1\<lparr>no_potfile_highlight := \<not> b\<rparr>), Inr ()))"

text \<open>Lines 218-232: the callback returns the state it leaves behind and either the
  exception or the pair \<open>(self.update_interval, figure)\<close>.\<close>

definition update_graph_and_settings ::
  "app_state \<Rightarrow> string option \<Rightarrow> pyval \<Rightarrow> string \<Rightarrow> string \<Rightarrow> pyval \<Rightarrow>
   (string \<Rightarrow> string option) \<Rightarrow> json_decoder \<Rightarrow> app_state \<times> (pyval \<times> figure) py_result" where
  "update_graph_and_settings st triggered refresh x_axis y_axis potfile_highlight fsys loads =
     (let (st', r) = (if triggered = Some ''update-button.n_clicks''
                      then apply_settings st refresh x_axis y_axis potfile_highlight
                      else (st, Inr ()))
      in (st', res_bind r (\<lambda>_.
            res_bind (create_figure (app_x_axis_type st') (app_y_axis_type st')
                        (no_potfile_highlight st') (parsers st') fsys loads) (\<lambda>fig.
            Inr (update_interval st', fig)))))"

text \<open>\<open>main\<close>, lines 336-343: every file named on the command line must exist
  (\<open>Path(file_path).exists()\<close>, \<open>fsys\<close> returns contents), otherwise the first
  missing one is reported on stderr and the process exits with status 1; then the
  application is built from the list. Argument parsing, the banner and the server
  are in theory CommandLine, which composes them with this step into \<open>main\<close>.\<close>

fun check_files :: "(string \<Rightarrow> string option) \<Rightarrow> string list \<Rightarrow> string option" where
  "check_files fsys [] = None"
| "check_files fsys (f # fs) = (if fsys f = None then Some f else check_files fsys fs)"

definition main_start :: "(string \<Rightarrow> string option) \<Rightarrow> string list \<Rightarrow> (string \<times> nat) + app_state" where
  "main_start fsys files =
     (case check_files fsys files of
        Some f \<Rightarrow> Inl (''Error: File '' @ [CHR 0x27] @ f @ [CHR 0x27] @ '' not found!'', 1)
      | None \<Rightarrow> Inr (app_init files))"

text \<open>What the parsers should be: one per distinct file, in the order of first
  occurrence (a dict keeps the position of the first insertion), each with the
  application's current settings.\<close>

definition parser_for :: "app_state \<Rightarrow> string \<Rightarrow> hashcat_status_parser" where
  "parser_for st f =
     \<lparr>filename = f, x_axis_type = app_x_axis_type st, y_axis_type = app_y_axis_type st,
      status_timer = app_status_timer st\<rparr>"

definition parsers_consistent :: "app_state \<Rightarrow> bool" where
  "parsers_consistent st =
     (map fst (parsers st) = rev (remdups (rev (hashcat_files st))) \<and>
      (\<forall>e \<in> set (parsers st). snd e = parser_for st (fst e)))"

text \<open>The states the application reaches from its construction by callbacks. The
  check list of the control panel always sends a list.\<close>

inductive app_reachable :: "string list \<Rightarrow> app_state \<Rightarrow> bool"
  for files :: "string list" where
  init: "app_reachable files (app_init files)"
| callback: "app_reachable files st \<Longrightarrow>
    fst (update_graph_and_settings st triggered refresh x_axis y_axis (PList vs) fsys loads) = st' \<Longrightarrow>
    app_reachable files st'"

section \<open>Lemmas: the parsers dict and the callback\<close>

lemma map_fst_dict_set:
  "map fst (dict_set k v d) = (if k \<in> set (map fst d) then map fst d else map fst d @ [k])"
  by (induction k v d rule: dict_set.induct) auto

lemma set_dict_set: "set (dict_set k v d) \<subseteq> insert (k, v) (set d)"
  by (induction k v d rule: dict_set.induct) auto

lemma dict_set_values:
  "(\<forall>e \<in> set d. snd e = g (fst e)) \<Longrightarrow> (\<forall>e \<in> set (dict_set k (g k) d). snd e = g (fst e))"
  using set_dict_set [of k "g k" d] by fastforce

lemma foldl_dict_set_keys:
  "map fst (foldl (\<lambda>d f. dict_set f (g f) d) [] fs) = rev (remdups (rev fs))"
  by (induction fs rule: rev_induct) (auto simp: map_fst_dict_set)

lemma foldl_dict_set_values:
  "\<forall>e \<in> set (foldl (\<lambda>d f. dict_set f (g f) d) [] fs). snd e = g (fst e)"
  by (induction fs rule: rev_induct) (simp_all add: dict_set_values)

lemma update_parsers_settings [simp]:
  "hashcat_files (update_parsers st) = hashcat_files st"
  "update_interval (update_parsers st) = update_interval st"
  "app_x_axis_type (update_parsers st) = app_x_axis_type st"
  "app_y_axis_type (update_parsers st) = app_y_axis_type st"
  "app_status_timer (update_parsers st) = app_status_timer st"
  "no_potfile_highlight (update_parsers st) = no_potfile_highlight st"
  by (simp_all add: update_parsers_def)

lemma update_parsers_consistent: "parsers_consistent (update_parsers st)"
proof -
  let ?g = "parser_for st"
  have "parsers (update_parsers st) = foldl (\<lambda>d f. dict_set f (?g f) d) [] (hashcat_files st)"
    by (simp add: update_parsers_def parser_for_def)
  moreover have "parser_for (update_parsers st) = ?g"
    by (simp add: update_parsers_def parser_for_def fun_eq_iff)
  ultimately show ?thesis
    by (simp add: parsers_consistent_def foldl_dict_set_keys foldl_dict_set_values)
qed

lemma apply_settings_list:
  "py_mul_int refresh 1000 = Inr interval \<Longrightarrow>
   apply_settings st refresh x_axis y_axis (PList vs) =
     (update_parsers (st\<lparr>update_interval := interval, app_x_axis_type := x_axis,
        app_y_axis_type := y_axis,
        no_potfile_highlight := \<not> (\<exists>v \<in> set vs. py_eq (PStr ''highlight'') v)\<rparr>), Inr ())"
  by (simp add: apply_settings_def)

lemma apply_settings_error:
  "py_mul_int refresh 1000 = Inl e \<Longrightarrow> apply_settings st refresh x_axis y_axis hl = (st, Inl e)"
  by (simp add: apply_settings_def)

lemma callback_state:
  "fst (update_graph_and_settings st triggered refresh x_axis y_axis hl fsys loads) =
     (if triggered = Some ''update-button.n_clicks''
      then fst (apply_settings st refresh x_axis y_axis hl) else st)"
  by (simp add: update_graph_and_settings_def split: prod.splits)

lemma callback_list_state:
  "fst (update_graph_and_settings st triggered refresh x_axis y_axis (PList vs) fsys loads) = st \<or>
   (\<exists>st0. fst (update_graph_and_settings st triggered refresh x_axis y_axis (PList vs) fsys loads) =
      update_parsers st0 \<and> hashcat_files st0 = hashcat_files st \<and> app_status_timer st0 = app_status_timer st)"
proof (cases "py_mul_int refresh 1000")
  case (Inl e)
  then show ?thesis by (simp add: callback_state apply_settings_error)
next
  case (Inr interval)
  then show ?thesis by (auto simp: callback_state apply_settings_list)
qed

lemma check_files_None: "check_files fsys fs = None \<longleftrightarrow> (\<forall>f \<in> set fs. fsys f \<noteq> None)"
  by (induction fs) auto

lemma check_files_SomeD: "check_files fsys fs = Some f \<Longrightarrow> f \<in> set fs \<and> fsys f = None"
  by (induction fs) (auto split: if_splits)

lemma check_files_Some:
  "check_files fsys fs = Some f \<longleftrightarrow>
     (\<exists>pre post. fs = pre @ f # post \<and> fsys f = None \<and> (\<forall>g \<in> set pre. fsys g \<noteq> None))"
proof (induction fs)
  case (Cons g gs)
  show ?case
  proof (cases "fsys g = None")
    case True
    then show ?thesis by (auto simp: Cons_eq_append_conv)
  next
    case False
    have "check_files fsys (g # gs) = Some f \<longleftrightarrow> check_files fsys gs = Some f"
      using False by (simp del: not_None_eq)
    also have "\<dots> \<longleftrightarrow> (\<exists>pre post. gs = pre @ f # post \<and> fsys f = None \<and> (\<forall>h \<in> set pre. fsys h \<noteq> None))"
      by (rule Cons.IH)
    also have "\<dots> \<longleftrightarrow> (\<exists>pre post. g # gs = pre @ f # post \<and> fsys f = None \<and> (\<forall>h \<in> set pre. fsys h \<noteq> None))"
    proof
      assume "\<exists>pre post. gs = pre @ f # post \<and> fsys f = None \<and> (\<forall>h \<in> set pre. fsys h \<noteq> None)"
      then obtain pre post where "gs = pre @ f # post" "fsys f = None" "\<forall>h \<in> set pre. fsys h \<noteq> None"
        by blast
      then show "\<exists>pre post. g # gs = pre @ f # post \<and> fsys f = None \<and> (\<forall>h \<in> set pre. fsys h \<noteq> None)"
        using False by (intro exI [of _ "g # pre"] exI [of _ post]) auto
    next
      assume "\<exists>pre post. g # gs = pre @ f # post \<and> fsys f = None \<and> (\<forall>h \<in> set pre. fsys h \<noteq> None)"
      then obtain pre post where h: "g # gs = pre @ f # post" "fsys f = None"
        "\<forall>h \<in> set pre. fsys h \<noteq> None" by blast
      then obtain pre' where "pre = g # pre'" using False by (cases pre) auto
      with h show "\<exists>pre post. gs = pre @ f # post \<and> fsys f = None \<and> (\<forall>h \<in> set pre. fsys h \<noteq> None)"
        by auto
    qed
    finally show ?thesis .
  qed
qed simp

section \<open>Properties of the application object\<close>

text \<open>C19 (invariant). In every state the application reaches, the parsers are one
  per distinct file, in the order of first occurrence, each with the application's
  current axis settings and timer; the file list is the one given and the status
  timer stays 1.\<close>

theorem app_reachable_settings:
  "app_reachable files st \<Longrightarrow>
   parsers_consistent st \<and> hashcat_files st = files \<and> app_status_timer st = 1"
proof (induction rule: app_reachable.induct)
  case init
  show ?case by (simp add: app_init_def update_parsers_consistent)
next
  case (callback st triggered refresh x_axis y_axis vs fsys loads st')
  from callback_list_state [of st triggered refresh x_axis y_axis vs fsys loads] callback.hyps(2)
  show ?case using callback.IH by (auto simp: update_parsers_consistent)
qed

text \<open>C20 (functional). When the Update button fired with a numeric refresh value and the
  check list value, the callback stores the new interval, axes and highlight flag,
  rebuilds the parsers to match, and returns the new interval with the figure
  drawn from the new parsers.\<close>

theorem callback_update_applies:
  "py_mul_int refresh 1000 = Inr interval \<Longrightarrow>
   update_graph_and_settings st (Some ''update-button.n_clicks'') refresh x_axis y_axis (PList vs) fsys loads =
     (st', r) \<Longrightarrow>
   update_interval st' = interval \<and> app_x_axis_type st' = x_axis \<and> app_y_axis_type st' = y_axis \<and>
   no_potfile_highlight st' = (\<not> (\<exists>v \<in> set vs. py_eq (PStr ''highlight'') v)) \<and>
   parsers_consistent st' \<and>
   r = res_bind (create_figure x_axis y_axis (no_potfile_highlight st') (parsers st') fsys loads)
         (\<lambda>fig. Inr (interval, fig))"
  by (auto simp: update_graph_and_settings_def apply_settings_list update_parsers_consistent)

text \<open>C21 (error). If the check list value is not a container (\<open>None\<close>), the callback has
  already stored the new interval and axes when \<open>in\<close> raises, and the parsers are
  not rebuilt: they no longer match the settings.\<close>

theorem callback_stale_parsers:
  "parsers_consistent st \<Longrightarrow> hashcat_files st \<noteq> [] \<Longrightarrow> x_axis \<noteq> app_x_axis_type st \<Longrightarrow>
   \<not> parsers_consistent
       (fst (update_graph_and_settings st (Some ''update-button.n_clicks'') (PInt i) x_axis y_axis PNone
               fsys loads))"
proof
  assume c: "parsers_consistent st" and ne: "hashcat_files st \<noteq> []" and x: "x_axis \<noteq> app_x_axis_type st"
  let ?st1 = "st\<lparr>update_interval := PInt (i * 1000), app_x_axis_type := x_axis, app_y_axis_type := y_axis\<rparr>"
  have st1: "fst (update_graph_and_settings st (Some ''update-button.n_clicks'') (PInt i) x_axis y_axis PNone
               fsys loads) = ?st1"
    by (simp add: callback_state apply_settings_def)
  assume c1: "parsers_consistent
       (fst (update_graph_and_settings st (Some ''update-button.n_clicks'') (PInt i) x_axis y_axis PNone
               fsys loads))"
  have "map fst (parsers st) \<noteq> []" using c ne by (simp add: parsers_consistent_def)
  then obtain e where e: "e \<in> set (parsers st)" by (cases "parsers st") auto
  then have "snd e = parser_for st (fst e)" using c by (simp add: parsers_consistent_def)
  moreover have "snd e = parser_for ?st1 (fst e)" using c1 e by (simp add: st1 parsers_consistent_def)
  ultimately show False using x by (simp add: parser_for_def)
qed

text \<open>C22 (error). An empty refresh input (\<open>None\<close>) makes the Update callback raise
  TypeError before any setting changes.\<close>

theorem callback_refresh_none:
  "update_graph_and_settings st (Some ''update-button.n_clicks'') PNone x_axis y_axis hl fsys loads =
     (st, Inl TypeError)"
  by (simp add: update_graph_and_settings_def apply_settings_def)

text \<open>C25 (error). \<open>main\<close> exits with status 1 exactly when a file named on the command
  line does not exist, and the message names the first missing file.\<close>

theorem main_start_error:
  "main_start fsys files = Inl (msg, code) \<longleftrightarrow>
     code = 1 \<and> (\<exists>pre f post. files = pre @ f # post \<and> fsys f = None \<and>
        (\<forall>g \<in> set pre. fsys g \<noteq> None) \<and>
        msg = ''Error: File '' @ [CHR 0x27] @ f @ [CHR 0x27] @ '' not found!'')"
proof -
  have "main_start fsys files = Inl (msg, code) \<longleftrightarrow>
        (\<exists>f. check_files fsys files = Some f \<and> code = 1 \<and>
           msg = ''Error: File '' @ [CHR 0x27] @ f @ [CHR 0x27] @ '' not found!'')"
    by (auto simp: main_start_def split: option.splits)
  then show ?thesis by (auto simp: check_files_Some)
qed

text \<open>C24 (safety). \<open>main\<close> builds the application, from the files as given, exactly
  when every file named on the command line exists.\<close>

theorem main_start_spec:
  "main_start fsys files = Inr st \<longleftrightarrow> st = app_init files \<and> (\<forall>f \<in> set files. fsys f \<noteq> None)"
  by (auto simp: main_start_def check_files_None split: option.splits dest: check_files_SomeD)

end
