(* ===== verification/Layout.thy ===== *)
theory Layout
  imports App
begin

text \<open>
  The Dash page of \<open>PasswordCrackingApp\<close> (src/password_cracking_curve.py): the
  component tree that \<open>_setup_layout\<close> builds (lines 131-203) and the declaration of
  the callback in \<open>_setup_callbacks\<close> (lines 208-217), which names the components and
  properties Dash passes to \<open>update_graph_and_settings\<close>. A component is modelled with
  its id and the properties the program sets, other than CSS styles, which affect
  only the look of the page (\<open>component\<close>). The theorem shows that the
  controls start at the application's own settings, so that pressing Update without
  touching them changes nothing.
\<close>

datatype component =
    Div "component list"
  | H2 string
  | Label string
  | P string
  | NumberInput string pyval int int
  | RadioItems string "(string \<times> string) list" string
  | Checklist string "(string \<times> string) list" "string list"
  | Button string string int
  | Graph string
  | Interval string pyval int

text \<open>Lines 131-203. \<open>file_list\<close> (line 133) joins the file names with \<open>", "\<close>.\<close>

definition setup_layout :: "app_state \<Rightarrow> component" where
  "setup_layout st =
     (let file_list = py_join '', '' (map path_name (hashcat_files st)) in
      Div [
        H2 ''Password Cracking Progress Visualization'',
        Div [
          Div [Label ''Refresh Interval (seconds):'', NumberInput ''refresh-input'' (PInt 10) 1 300],
          Div [Label ''X-Axis:'',
               RadioItems ''x-axis-radio'' [(''Number of hashes'', ''guesses''), (''Time (seconds)'', ''time'')]
                 ''guesses''],
          Div [Label ''Y-Axis:'',
               RadioItems ''y-axis-radio'' [(''Percentage'', ''percentage''), (''Count'', ''count'')]
                 ''percentage''],
          Div [Checklist ''potfile-highlight-check''
                 [(''Highlight potfile attacks in black'', ''highlight'')] [''highlight'']],
          Button ''Update'' ''update-button'' 0],
        Div [P (''Data sources: '' @ file_list)],
        Graph ''live-graph'',
        Interval ''interval-component'' (update_interval st) 0])"

text \<open>Lines 208-217: the outputs, inputs and states of the callback, as
  \<open>(component id, property)\<close>.\<close>

record callback_decl =
  cb_outputs :: "(string \<times> string) list"
  cb_inputs :: "(string \<times> string) list"
  cb_states :: "(string \<times> string) list"

definition graph_callback :: callback_decl where
  "graph_callback =
     \<lparr>cb_outputs = [(''interval-component'', ''interval''), (''live-graph'', ''figure'')],
      cb_inputs = [(''interval-component'', ''n_intervals''), (''update-button'', ''n_clicks'')],
      cb_states = [(''refresh-input'', ''value''), (''x-axis-radio'', ''value''),
                   (''y-axis-radio'', ''value''), (''potfile-highlight-check'', ''value'')]\<rparr>"

text \<open>The initial value of a property of the component with a given id, as Dash
  sends it to a callback before any user input.\<close>

fun own_prop :: "component \<Rightarrow> string \<Rightarrow> string \<Rightarrow> pyval option" where
  "own_prop (NumberInput i v lo hi) j p = (if j = i \<and> p = ''value'' then Some v else None)"
| "own_prop (RadioItems i opts v) j p = (if j = i \<and> p = ''value'' then Some (PStr v) else None)"
| "own_prop (Checklist i opts vs) j p =
     (if j = i \<and> p = ''value'' then Some (PList (map PStr vs)) else None)"
| "own_prop (Button l i n) j p = (if j = i \<and> p = ''n_clicks'' then Some (PInt n) else None)"
| "own_prop (Interval i v n) j p =
     (if j = i \<and> p = ''interval'' then Some v else if j = i \<and> p = ''n_intervals'' then Some (PInt n) else None)"
| "own_prop _ j p = None"

fun initial_prop :: "component \<Rightarrow> string \<Rightarrow> string \<Rightarrow> pyval option"
  and initial_prop_list :: "component list \<Rightarrow> string \<Rightarrow> string \<Rightarrow> pyval option" where
  "initial_prop (Div cs) j p = initial_prop_list cs j p"
| "initial_prop c j p = own_prop c j p"
| "initial_prop_list [] j p = None"
| "initial_prop_list (c # cs) j p =
     (case initial_prop c j p of Some v \<Rightarrow> Some v | None \<Rightarrow> initial_prop_list cs j p)"

section \<open>Lemmas: the page\<close>

lemma update_parsers_idem: "update_parsers (update_parsers st) = update_parsers st"
  by (simp add: update_parsers_def)

section \<open>Properties of the page and its callback\<close>

text \<open>C26 (functional). The controls start at the application's settings: at
  startup, pressing Update without touching them leaves the application state
  unchanged, and the interval component starts at \<open>self.update_interval\<close>.\<close>

theorem update_with_initial_controls:
  "initial_prop (setup_layout (app_init files)) ''refresh-input'' ''value'' = Some r \<Longrightarrow>
   initial_prop (setup_layout (app_init files)) ''x-axis-radio'' ''value'' = Some (PStr x_axis) \<Longrightarrow>
   initial_prop (setup_layout (app_init files)) ''y-axis-radio'' ''value'' = Some (PStr y_axis) \<Longrightarrow>
   initial_prop (setup_layout (app_init files)) ''potfile-highlight-check'' ''value'' = Some hl \<Longrightarrow>
   fst (update_graph_and_settings (app_init files) (Some ''update-button.n_clicks'') r x_axis y_axis hl
          fsys loads) = app_init files \<and>
   initial_prop (setup_layout (app_init files)) ''interval-component'' ''interval'' =
     Some (update_interval (app_init files))"
proof -
  assume "initial_prop (setup_layout (app_init files)) ''refresh-input'' ''value'' = Some r"
    "initial_prop (setup_layout (app_init files)) ''x-axis-radio'' ''value'' = Some (PStr x_axis)"
    "initial_prop (setup_layout (app_init files)) ''y-axis-radio'' ''value'' = Some (PStr y_axis)"
    "initial_prop (setup_layout (app_init files)) ''potfile-highlight-check'' ''value'' = Some hl"
  then have v: "r = PInt 10" "x_axis = ''guesses''" "y_axis = ''percentage''"
    "hl = PList [PStr ''highlight'']"
    by (simp_all add: setup_layout_def Let_def)
  have same: "(app_init files)\<lparr>update_interval := PInt 10000, app_x_axis_type := ''guesses'',
      app_y_axis_type := ''percentage'', no_potfile_highlight := False\<rparr> = app_init files"
    by (simp add: app_init_def update_parsers_def)
  have "app_init files = update_parsers (app_init files)"
    by (simp add: app_init_def update_parsers_idem)
  then show ?thesis
    by (simp add: v setup_layout_def Let_def callback_state apply_settings_list same)
qed

end
