(* ===== verification/CommandLine.thy ===== *)
theory CommandLine
  imports Layout
begin

text \<open>
  The entry point \<open>main\<close> of src/password_cracking_curve.py (lines 302-350) and what it
  relies on: the argument parser declared in lines 303-332 as Python 3.11's
  \<open>argparse\<close> runs it on \<open>sys.argv[1:]\<close> (line 334), Python's \<open>int()\<close> on the
  \<open>--port\<close> value, the rest of the constructor of \<open>PasswordCrackingApp\<close> (lines
  121-124: the Dash object, its layout and its callback), the banner of lines 345-348
  and \<open>run\<close> (lines 297-299). The parser is a function from the argument list to an
  exit of argparse (\<open>cli_error\<close>: \<open>--help\<close> exits with status 0, a usage error with
  status 2) or the namespace \<open>cli_args\<close>; it follows argparse's algorithm: every
  argument is first classified as an option or a positional (\<open>parse_optional\<close>,
  which also resolves abbreviations), then the classified list is consumed from left
  to right (\<open>consume_loop\<close>), the one-or-more positional \<open>files\<close> taking the first
  run of positionals. The texts of the help and of the usage messages are not
  modelled, only which exit happens with which argument.
\<close>

section \<open>Python's int() on a str\<close>

definition py_isdigit :: "char \<Rightarrow> bool" where
  "py_isdigit c = (48 \<le> (of_char c :: nat) \<and> (of_char c :: nat) \<le> 57)"

text \<open>Decimal digits with single underscores between them.\<close>

fun py_digits :: "string \<Rightarrow> bool" where
  "py_digits [] = False"
| "py_digits [c] = py_isdigit c"
| "py_digits (c # d # r) = (py_isdigit c \<and> (if d = CHR ''_'' then py_digits r else py_digits (d # r)))"

definition digits_value :: "string \<Rightarrow> int" where
  "digits_value s = int (nat_of_digits (filter (\<lambda>c. c \<noteq> CHR ''_'') s))"

text \<open>\<open>int(s)\<close>: surrounding white space, an optional sign, then digits; \<open>None\<close> is the
  \<open>ValueError\<close>.\<close>

definition py_int :: "string \<Rightarrow> int option" where
  "py_int s =
     (case py_strip s of
        [] \<Rightarrow> None
      | c # r \<Rightarrow>
          if c = CHR ''-'' then (if py_digits r then Some (- digits_value r) else None)
          else if c = CHR ''+'' then (if py_digits r then Some (digits_value r) else None)
          else if py_digits (c # r) then Some (digits_value (c # r)) else None)"

section \<open>The declared arguments\<close>

text \<open>The actions of the parser: \<open>-h/--help\<close> (added by \<open>ArgumentParser\<close>),
  \<open>--debug\<close> (\<open>store_true\<close>), \<open>--host\<close> and \<open>--port\<close> (one argument each), and the
  option strings in the order argparse registers them.\<close>

datatype cli_action = Act_Help | Act_Debug | Act_Host | Act_Port

definition cli_option_strings :: "(string \<times> cli_action) list" where
  "cli_option_strings =
     [(''-h'', Act_Help), (''--help'', Act_Help), (''--debug'', Act_Debug),
      (''--host'', Act_Host), (''--port'', Act_Port)]"

definition option_action :: "string \<Rightarrow> cli_action option" where
  "option_action s = map_of cli_option_strings s"

fun action_nargs :: "cli_action \<Rightarrow> nat" where
  "action_nargs Act_Host = 1"
| "action_nargs Act_Port = 1"
| "action_nargs _ = 0"

text \<open>The namespace \<open>args\<close> (line 334).\<close>

record cli_args =
  files :: "string list"
  debug :: bool
  host :: string
  port :: int

text \<open>How \<open>parse_args\<close> leaves: \<open>Help_Exit\<close> prints the help and exits with status 0;
  the others print the usage and the message to stderr and exit with status 2.\<close>

datatype cli_error =
    Help_Exit
  | Ambiguous string "string list"
  | Expected_One cli_action
  | Invalid_Int string
  | Ignored_Explicit string
  | Required_Files
  | Unrecognized "string list"

section \<open>Classification of the arguments\<close>

text \<open>\<open>s.partition('=')\<close>.\<close>

definition py_partition :: "char \<Rightarrow> string \<Rightarrow> string \<times> string \<times> string" where
  "py_partition c s =
     (if c \<in> set s then (takeWhile (\<lambda>x. x \<noteq> c) s, [c], tl (dropWhile (\<lambda>x. x \<noteq> c) s))
      else (s, [], []))"

text \<open>\<open>_negative_number_matcher\<close>, \<open>^-\d+$|^-\d*\.\d+$\<close>: \<open>$\<close> also matches before a
  final newline.\<close>

definition looks_negative :: "string \<Rightarrow> bool" where
  "looks_negative s =
     (let t = (if s \<noteq> [] \<and> last s = CHR 10 then butlast s else s) in
      case t of
        [] \<Rightarrow> False
      | c # r \<Rightarrow> c = CHR ''-'' \<and>
          ((r \<noteq> [] \<and> list_all py_isdigit r) \<or>
           (case dropWhile py_isdigit r of
              [] \<Rightarrow> False
            | d # e \<Rightarrow> d = CHR ''.'' \<and> e \<noteq> [] \<and> list_all py_isdigit e)))"

text \<open>An option tuple of argparse: the action (\<open>None\<close> for an unknown option), the
  option string, the separator (\<open>''\<close> or \<open>'='\<close>, \<open>None\<close> when absent) and the
  explicit argument.\<close>

type_synonym option_tuple = "cli_action option \<times> string \<times> string option \<times> string option"

text \<open>\<open>_get_option_tuples\<close>: the abbreviations of a long option (split at \<open>=\<close>), or a
  short option followed by its argument.\<close>

definition option_tuples :: "string \<Rightarrow> option_tuple list" where
  "option_tuples s =
     (if s ! 1 = CHR ''-'' then
        (let (pre, sep, e) = py_partition CHR ''='' s in
         map (\<lambda>(os, a). (Some a, os, if sep = [] then None else Some sep, if sep = [] then None else Some e))
           (filter (\<lambda>(os, a). py_startswith os pre) cli_option_strings))
      else
        concat (map (\<lambda>(os, a).
          if os = take 2 s then [(Some a, os, Some [], Some (drop 2 s))]
          else if py_startswith os s then [(Some a, os, None, None)] else []) cli_option_strings))"

text \<open>\<open>_parse_optional\<close>: \<open>None\<close> for a positional; an ambiguous abbreviation is an
  error at once.\<close>

definition parse_optional :: "string \<Rightarrow> cli_error + option_tuple option" where
  "parse_optional s =
     (if s = [] then Inr None
      else if hd s \<noteq> CHR ''-'' then Inr None
      else case option_action s of
        Some a \<Rightarrow> Inr (Some (Some a, s, None, None))
      | None \<Rightarrow>
          if length s = 1 then Inr None
          else (let (os, sep, e) = py_partition CHR ''='' s in
            if sep \<noteq> [] \<and> option_action os \<noteq> None then Inr (Some (option_action os, os, Some sep, Some e))
            else (let ts = option_tuples s in
              if 1 < length ts then Inl (Ambiguous s (map (fst \<circ> snd) ts))
              else if length ts = 1 then Inr (Some (hd ts))
              else if looks_negative s then Inr None
              else if CHR '' '' \<in> set s then Inr None
              else Inr (Some (None, s, None, None)))))"

text \<open>The pattern letters of argparse: \<open>A\<close> (positional), \<open>-\<close> (the \<open>--\<close> after which
  everything is positional) and \<open>O\<close> (an option, with its tuple).\<close>

datatype arg_kind = Pos | Dash_Dash | Opt option_tuple

fun classify_args :: "string list \<Rightarrow> cli_error + (string \<times> arg_kind) list" where
  "classify_args [] = Inr []"
| "classify_args (s # ss) =
     (if s = ''--'' then Inr ((s, Dash_Dash) # map (\<lambda>t. (t, Pos)) ss)
      else res_bind (parse_optional s) (\<lambda>k.
             res_bind (classify_args ss) (\<lambda>ks.
               Inr ((s, case k of None \<Rightarrow> Pos | Some t \<Rightarrow> Opt t) # ks))))"

section \<open>Consuming the classified arguments\<close>

text \<open>The namespace being filled, the unrecognized arguments, and whether \<open>files\<close>
  has been consumed (\<open>ns_files \<noteq> None\<close>).\<close>

record arg_state =
  ns_files :: "string list option"
  ns_debug :: bool
  ns_host :: string
  ns_port :: int
  extras :: "string list"

definition init_arg_state :: arg_state where
  "init_arg_state =
     \<lparr>ns_files = None, ns_debug = False, ns_host = ''127.0.0.1'', ns_port = 8050, extras = []\<rparr>"

fun is_opt :: "arg_kind \<Rightarrow> bool" where
  "is_opt (Opt t) = True"
| "is_opt _ = False"

text \<open>\<open>take_action\<close> with the action's \<open>_get_values\<close>: help exits, \<open>--port\<close> converts
  with \<open>int\<close>.\<close>

fun take_action :: "arg_state \<Rightarrow> cli_action \<times> string list \<Rightarrow> cli_error + arg_state" where
  "take_action st (Act_Help, args) = Inl Help_Exit"
| "take_action st (Act_Debug, args) = Inr (st\<lparr>ns_debug := True\<rparr>)"
| "take_action st (Act_Host, args) = Inr (st\<lparr>ns_host := hd args\<rparr>)"
| "take_action st (Act_Port, args) =
     (case py_int (hd args) of
        None \<Rightarrow> Inl (Invalid_Int (hd args))
      | Some n \<Rightarrow> Inr (st\<lparr>ns_port := n\<rparr>))"

fun take_actions :: "arg_state \<Rightarrow> (cli_action \<times> string list) list \<Rightarrow> cli_error + arg_state" where
  "take_actions st [] = Inr st"
| "take_actions st (t # ts) = res_bind (take_action st t) (\<lambda>st'. take_actions st' ts)"

text \<open>\<open>_match_argument\<close> for an option: the pattern \<open>()\<close> or \<open>(A)\<close>.\<close>

definition match_argument :: "cli_action \<Rightarrow> (string \<times> arg_kind) list \<Rightarrow> nat option" where
  "match_argument a rest =
     (if action_nargs a = 0 then Some 0
      else case rest of (s, Pos) # r \<Rightarrow> Some 1 | _ \<Rightarrow> None)"

text \<open>The \<open>while True\<close> loop of \<open>consume_optional\<close> for a known action: the actions
  to take with their arguments, the strings added to the extras, and the number of
  following arguments consumed. A short option with an explicit argument and no
  argument of its own is a cluster of short flags (\<open>-hh\<close>).\<close>

function opt_loop :: "cli_action \<Rightarrow> string \<Rightarrow> string option \<Rightarrow> string option \<Rightarrow>
    (string \<times> arg_kind) list \<Rightarrow> cli_error + (cli_action \<times> string list) list \<times> string list \<times> nat" where
  "opt_loop a ostr sep e rest =
     (case e of
        None \<Rightarrow>
          (case match_argument a rest of
             None \<Rightarrow> Inl (Expected_One a)
           | Some n \<Rightarrow> Inr ([(a, map fst (take n rest))], [], n))
      | Some ex \<Rightarrow>
          if action_nargs a = 0 \<and> ostr ! 1 \<noteq> CHR ''-'' \<and> ex \<noteq> [] then
            (if sep = Some ''='' \<or> hd ex = CHR ''-'' then Inl (Ignored_Explicit ex)
             else (let ostr' = [hd ostr, hd ex] in
               case option_action ostr' of
                 Some a' \<Rightarrow>
                   res_bind
                     (if tl ex = [] then opt_loop a' ostr' None None rest
                      else if hd (tl ex) = CHR ''='' then opt_loop a' ostr' (Some ''='') (Some (tl (tl ex))) rest
                      else opt_loop a' ostr' (Some []) (Some (tl ex)) rest)
                     (\<lambda>(ts, xs, n). Inr ((a, []) # ts, xs, n))
               | None \<Rightarrow> Inr ([(a, [])], [hd ostr # ex], 0)))
          else if action_nargs a = 1 then Inr ([(a, [ex])], [], 0)
          else Inl (Ignored_Explicit ex))"
  by pat_completeness auto
termination
  by (relation "measure (\<lambda>(a, ostr, sep, e, rest). case e of None \<Rightarrow> 0 | Some ex \<Rightarrow> Suc (length ex))")
     (auto simp: length_greater_0_conv)

text \<open>\<open>consume_optional\<close>: an unknown option goes to the extras; otherwise the actions
  are taken in order. The result is the new state and the number of arguments after
  the option that were consumed.\<close>

definition consume_optional :: "arg_state \<Rightarrow> option_tuple \<Rightarrow> string \<Rightarrow> (string \<times> arg_kind) list \<Rightarrow>
    cli_error + arg_state \<times> nat" where
  "consume_optional st t s rest =
     (case t of
        (None, ostr, sep, e) \<Rightarrow> Inr (st\<lparr>extras := extras st @ [s]\<rparr>, 0)
      | (Some a, ostr, sep, e) \<Rightarrow>
          res_bind (opt_loop a ostr sep e rest) (\<lambda>(ts, xs, n).
            res_bind (take_actions (st\<lparr>extras := extras st @ xs\<rparr>) ts) (\<lambda>st'. Inr (st', n))))"

text \<open>\<open>consume_positionals\<close> for the one positional \<open>files\<close>, \<open>nargs='+'\<close>: the regular
  expression \<open>-*A[A-]*\<close> matched at the start; \<open>_get_values\<close> removes the first
  \<open>--\<close> from the matched strings.\<close>

fun pos_run :: "(string \<times> arg_kind) list \<Rightarrow> nat" where
  "pos_run ((s, Pos) # r) = Suc (pos_run r)"
| "pos_run ((s, Dash_Dash) # r) = Suc (pos_run r)"
| "pos_run _ = 0"

definition files_match :: "(string \<times> arg_kind) list \<Rightarrow> nat option" where
  "files_match xs =
     (let d = length (takeWhile (\<lambda>(s, k). k = Dash_Dash) xs) in
      case drop d xs of (s, Pos) # r \<Rightarrow> Some (d + 1 + pos_run r) | _ \<Rightarrow> None)"

definition consume_positionals :: "arg_state \<Rightarrow> (string \<times> arg_kind) list \<Rightarrow> arg_state \<times> nat" where
  "consume_positionals st xs =
     (if ns_files st = None then
        (case files_match xs of
           Some n \<Rightarrow> (st\<lparr>ns_files := Some (remove1 ''--'' (map fst (take n xs)))\<rparr>, n)
         | None \<Rightarrow> (st, 0))
      else (st, 0))"

text \<open>The main loop of \<open>_parse_known_args\<close>: while an option lies ahead, consume
  positionals, or else move the strings before the next option to the extras, then
  consume the option; at the end consume the positionals once more and add what is
  left to the extras.\<close>

function consume_loop :: "arg_state \<Rightarrow> (string \<times> arg_kind) list \<Rightarrow> cli_error + arg_state" where
  "consume_loop st xs =
     (if \<not> list_ex (is_opt \<circ> snd) xs then
        (let (st', n) = consume_positionals st xs in
         Inr (st'\<lparr>extras := extras st' @ map fst (drop n xs)\<rparr>))
      else (case xs of
        (s, Opt t) # rest \<Rightarrow>
          res_bind (consume_optional st t s rest) (\<lambda>(st', n). consume_loop st' (drop n rest))
      | _ \<Rightarrow>
          (let (st', n) = consume_positionals st xs in
           if 0 < n then consume_loop st' (drop n xs)
           else consume_loop (st'\<lparr>extras := extras st' @ map fst (takeWhile (\<lambda>x. \<not> is_opt (snd x)) xs)\<rparr>)
                  (dropWhile (\<lambda>x. \<not> is_opt (snd x)) xs))))"
  by pat_completeness auto
termination
  by (relation "measure (\<lambda>(st, xs). length xs)") (auto simp: le_imp_less_Suc length_dropWhile_le)

text \<open>\<open>parser.parse_args()\<close> (line 334): classify, consume, then the required
  positional and the unrecognized arguments are errors.\<close>

definition parse_args :: "string list \<Rightarrow> cli_error + cli_args" where
  "parse_args argv =
     res_bind (classify_args argv) (\<lambda>ks.
       res_bind (consume_loop init_arg_state ks) (\<lambda>st.
         case ns_files st of
           None \<Rightarrow> Inl Required_Files
         | Some fs \<Rightarrow>
             if extras st \<noteq> [] then Inl (Unrecognized (extras st))
             else Inr \<lparr>files = fs, debug = ns_debug st, host = ns_host st, port = ns_port st\<rparr>))"

section \<open>The application object and main\<close>

text \<open>Lines 205-217: \<open>_setup_callbacks\<close> registers the one callback.\<close>

definition setup_callbacks :: "callback_decl list" where
  "setup_callbacks = [graph_callback]"

text \<open>The Dash application of lines 121-124: the state built by lines 108-119, the
  page of \<open>_setup_layout\<close> and the registered callbacks.\<close>

record dash_app =
  app_st :: app_state
  app_layout :: component
  app_callbacks :: "callback_decl list"

definition dash_setup :: "app_state \<Rightarrow> dash_app" where
  "dash_setup st = \<lparr>app_st = st, app_layout = setup_layout st, app_callbacks = setup_callbacks\<rparr>"

text \<open>\<open>run\<close>, lines 297-299: the server is started with these parameters and serves
  until interrupted.\<close>

record server =
  srv_app :: dash_app
  srv_debug :: bool
  srv_host :: string
  srv_port :: int

definition app_run :: "dash_app \<Rightarrow> bool \<Rightarrow> string \<Rightarrow> int \<Rightarrow> server" where
  "app_run app d h p = \<lparr>srv_app = app, srv_debug = d, srv_host = h, srv_port = p\<rparr>"

text \<open>Lines 345-348, the lines printed before the server starts.\<close>

definition banner :: "cli_args \<Rightarrow> string list" where
  "banner a =
     [''Starting Password Cracking Visualization...'',
      ''Dashboard available at: http://'' @ host a @ '':'' @ int_str (port a),
      ''All settings can be controlled through the web interface.'',
      ''Press Ctrl+C to stop'']"

text \<open>How \<open>main\<close> ends: argparse exits (help or usage error), the exit of line 340
  with its message, or the server running after the banner.\<close>

datatype main_outcome =
    Arg_Exit cli_error
  | File_Exit string nat
  | Serve server "string list"

definition main_prog :: "(string \<Rightarrow> string option) \<Rightarrow> string list \<Rightarrow> main_outcome" where
  "main_prog fsys argv =
     (case parse_args argv of
        Inl e \<Rightarrow> Arg_Exit e
      | Inr a \<Rightarrow>
          (case main_start fsys (files a) of
             Inl (msg, code) \<Rightarrow> File_Exit msg code
           | Inr st \<Rightarrow> Serve (app_run (dash_setup st) (debug a) (host a) (port a)) (banner a)))"

text \<open>The exit status of the process: 0 after the help, 2 after a usage error, the
  status of \<open>sys.exit\<close>, none while the server runs.\<close>

fun exit_status :: "main_outcome \<Rightarrow> nat option" where
  "exit_status (Arg_Exit Help_Exit) = Some 0"
| "exit_status (Arg_Exit e) = Some 2"
| "exit_status (File_Exit msg code) = Some code"
| "exit_status (Serve srv out) = None"

section \<open>Command lines built from a namespace\<close>

text \<open>An argument argparse always reads as a positional: empty or not starting with
  \<open>-\<close>. \<open>render_args\<close> writes a namespace as a command line, files first.\<close>

definition plain_arg :: "string \<Rightarrow> bool" where
  "plain_arg s = (s = [] \<or> hd s \<noteq> CHR ''-'')"

definition cli_plain :: "cli_args \<Rightarrow> bool" where
  "cli_plain a = (files a \<noteq> [] \<and> list_all plain_arg (files a) \<and> plain_arg (host a))"

definition render_args :: "cli_args \<Rightarrow> string list" where
  "render_args a =
     files a @ [''--host'', host a, ''--port'', int_str (port a)] @ (if debug a then [''--debug''] else [])"

text \<open>No \<open>--\<close> string is read before the first \<open>--\<close> marker, and only positionals
  follow it: the shape of every classified command line.\<close>

fun dash_ok :: "(string \<times> arg_kind) list \<Rightarrow> bool" where
  "dash_ok [] = True"
| "dash_ok ((s, k) # r) = (if k = Dash_Dash then list_all (\<lambda>x. snd x = Pos) r else s \<noteq> ''--'' \<and> dash_ok r)"

text \<open>The files taken so far are a non-empty subsequence of the command line.\<close>

definition files_from :: "string list \<Rightarrow> arg_state \<Rightarrow> bool" where
  "files_from argv st = (\<forall>fs. ns_files st = Some fs \<longrightarrow> fs \<noteq> [] \<and> subseq fs argv)"

section \<open>Lemmas: int()\<close>

lemma py_digits_all: "s \<noteq> [] \<Longrightarrow> list_all py_isdigit s \<Longrightarrow> py_digits s"
  by (induction s rule: py_digits.induct) (auto simp: py_isdigit_def)

lemma nat_str_digits: "list_all py_isdigit (nat_str n)"
proof (induction n rule: nat_str.induct)
  case (1 n)
  then show ?case
    by (cases "n < 10") (simp_all add: nat_str.simps [of n] py_isdigit_def digit_char_def)
qed

lemma no_underscore: "list_all py_isdigit s \<Longrightarrow> filter (\<lambda>c. c \<noteq> CHR ''_'') s = s"
  by (induction s) (auto simp: py_isdigit_def)

lemma py_strip_id: "list_all (\<lambda>c. \<not> py_isspace c) s \<Longrightarrow> py_strip s = s"
proof -
  assume a: "list_all (\<lambda>c. \<not> py_isspace c) s"
  then have "dropWhile py_isspace s = s" by (cases s) simp_all
  moreover from a have "dropWhile py_isspace (rev s) = rev s" by (cases "rev s") (auto simp: list_all_iff)
  ultimately show ?thesis by (simp add: py_strip_def)
qed

lemma digit_not_space: "py_isdigit c \<Longrightarrow> \<not> py_isspace c"
  by (simp add: py_isdigit_def py_isspace_def)

lemma digit_not_minus: "py_isdigit c \<Longrightarrow> c \<noteq> CHR ''-'' \<and> c \<noteq> CHR ''+'' \<and> c \<noteq> CHR ''h''"
  by (auto simp: py_isdigit_def)

lemma py_int_nat_str: "py_digits (nat_str n) \<and> digits_value (nat_str n) = int n"
  using nat_str_digits [of n] by (simp add: py_digits_all digits_value_def no_underscore)

lemma py_int_int_str: "py_int (int_str i) = Some i"
proof -
  have d: "list_all py_isdigit (nat_str m)" for m by (rule nat_str_digits)
  then have ns: "list_all (\<lambda>c. \<not> py_isspace c) (nat_str m)" for m
    by (simp add: list_all_iff digit_not_space)
  obtain c r where cr: "nat_str (nat \<bar>i\<bar>) = c # r" by (cases "nat_str (nat \<bar>i\<bar>)") auto
  with d [of "nat \<bar>i\<bar>"] have c: "c \<noteq> CHR ''-'' \<and> c \<noteq> CHR ''+''" by (simp add: digit_not_minus)
  show ?thesis
  proof (cases "i < 0")
    case True
    then have "py_strip (int_str i) = CHR ''-'' # nat_str (nat \<bar>i\<bar>)"
      using ns [of "nat \<bar>i\<bar>"] by (simp add: int_str_def py_strip_id py_isspace_def)
    with True show ?thesis using py_int_nat_str [of "nat \<bar>i\<bar>"] by (simp add: py_int_def)
  next
    case False
    then have "py_strip (int_str i) = c # r"
      using ns [of "nat \<bar>i\<bar>"] cr by (simp add: int_str_def py_strip_id)
    with False c cr show ?thesis using py_int_nat_str [of "nat \<bar>i\<bar>"] by (simp add: py_int_def)
  qed
qed

section \<open>Lemmas: classification\<close>

lemma parse_optional_plain: "plain_arg s \<Longrightarrow> parse_optional s = Inr None"
  by (auto simp: plain_arg_def parse_optional_def)

lemma plain_not_dashdash: "plain_arg s \<Longrightarrow> s \<noteq> ''--''"
  by (auto simp: plain_arg_def)

lemma classify_plain_append:
  "list_all plain_arg xs \<Longrightarrow>
   classify_args (xs @ ys) = res_bind (classify_args ys) (\<lambda>ks. Inr (map (\<lambda>s. (s, Pos)) xs @ ks))"
proof (induction xs)
  case (Cons x xs)
  then show ?case
    by (cases "classify_args ys") (simp_all add: parse_optional_plain plain_not_dashdash)
qed (cases "classify_args ys", simp_all)

lemma option_tuples_digit:
  assumes "py_isdigit c2"
  shows "option_tuples (c1 # c2 # r) = []"
proof -
  from assms have "c2 \<noteq> CHR ''-''" "c2 \<noteq> CHR ''h''" by (simp_all add: digit_not_minus)
  then show ?thesis by (simp add: option_tuples_def cli_option_strings_def py_startswith_def)
qed

lemma looks_negative_nat_str: "looks_negative (CHR ''-'' # nat_str n)"
proof -
  have d: "list_all py_isdigit (nat_str n)" by (rule nat_str_digits)
  then have "py_isdigit (last (nat_str n))" by (simp add: list_all_iff)
  then have "last (CHR ''-'' # nat_str n) \<noteq> CHR 10" by (auto simp: py_isdigit_def)
  with d show ?thesis by (simp add: looks_negative_def)
qed

lemma parse_optional_int_str: "parse_optional (int_str i) = Inr None"
proof -
  obtain c r where cr: "nat_str (nat \<bar>i\<bar>) = c # r" by (cases "nat_str (nat \<bar>i\<bar>)") auto
  from nat_str_digits [of "nat \<bar>i\<bar>"] cr have c: "py_isdigit c" "list_all py_isdigit r" by simp_all
  then have noeq: "CHR ''='' \<notin> set (c # r)" by (auto simp: list_all_iff py_isdigit_def)
  show ?thesis
  proof (cases "i < 0")
    case True
    have "option_action (CHR ''-'' # c # r) = None"
      using c by (simp add: option_action_def cli_option_strings_def digit_not_minus)
    with True cr c noeq show ?thesis
      using looks_negative_nat_str [of "nat \<bar>i\<bar>"]
      by (simp add: int_str_def parse_optional_def py_partition_def option_tuples_digit)
  next
    case False
    with cr c show ?thesis
      by (simp add: int_str_def parse_optional_def digit_not_minus)
  qed
qed

lemma int_str_not_dashdash: "int_str i \<noteq> ''--''"
proof -
  have "nat_str n \<noteq> CHR ''-'' # r" for n r using nat_str_hd [of n] by auto
  then show ?thesis by (simp add: int_str_def)
qed

lemma parse_optional_known:
  "parse_optional ''--host'' = Inr (Some (Some Act_Host, ''--host'', None, None))"
  "parse_optional ''--port'' = Inr (Some (Some Act_Port, ''--port'', None, None))"
  "parse_optional ''--debug'' = Inr (Some (Some Act_Debug, ''--debug'', None, None))"
  by (simp_all add: parse_optional_def option_action_def cli_option_strings_def)

lemma classify_options:
  "plain_arg h \<Longrightarrow>
   classify_args (''--host'' # h # ''--port'' # int_str p # (if d then [''--debug''] else [])) =
   Inr ([(''--host'', Opt (Some Act_Host, ''--host'', None, None)), (h, Pos),
         (''--port'', Opt (Some Act_Port, ''--port'', None, None)), (int_str p, Pos)] @
        (if d then [(''--debug'', Opt (Some Act_Debug, ''--debug'', None, None))] else []))"
  using int_str_not_dashdash [of p]
  by (cases d) (simp_all add: parse_optional_plain parse_optional_int_str plain_not_dashdash parse_optional_known)

section \<open>Lemmas: the consuming loop\<close>

declare consume_loop.simps [simp del]

lemma consume_loop_done:
  "\<not> list_ex (is_opt \<circ> snd) xs \<Longrightarrow>
   consume_loop st xs =
     (let (st', n) = consume_positionals st xs in Inr (st'\<lparr>extras := extras st' @ map fst (drop n xs)\<rparr>))"
  by (simp add: consume_loop.simps)

lemma consume_loop_Opt:
  "consume_loop st ((s, Opt t) # rest) =
     res_bind (consume_optional st t s rest) (\<lambda>(st', n). consume_loop st' (drop n rest))"
  by (subst consume_loop.simps) simp

lemma consume_loop_Pos:
  "list_ex (is_opt \<circ> snd) xs \<Longrightarrow> consume_positionals st ((s, Pos) # xs) = (st', n) \<Longrightarrow> 0 < n \<Longrightarrow>
   consume_loop st ((s, Pos) # xs) = consume_loop st' (drop n ((s, Pos) # xs))"
  by (subst consume_loop.simps) simp

lemma consume_loop_step:
  "list_ex (is_opt \<circ> snd) ((s, k) # r) \<Longrightarrow> \<not> is_opt k \<Longrightarrow>
   consume_loop st ((s, k) # r) =
     (let (st', n) = consume_positionals st ((s, k) # r) in
      if 0 < n then consume_loop st' (drop n ((s, k) # r))
      else consume_loop (st'\<lparr>extras := extras st' @ map fst (takeWhile (\<lambda>x. \<not> is_opt (snd x)) ((s, k) # r))\<rparr>)
             (dropWhile (\<lambda>x. \<not> is_opt (snd x)) ((s, k) # r)))"
  by (subst consume_loop.simps) (cases k; simp)

lemma pos_run_map_Opt: "pos_run (map (\<lambda>s. (s, Pos)) fs @ (o', Opt t) # r) = length fs"
  by (induction fs) simp_all

lemma plain_no_dashdash: "list_all plain_arg fs \<Longrightarrow> ''--'' \<notin> set fs"
  using plain_not_dashdash by (auto simp: list_all_iff)

text \<open>A run of plain names before an option is taken as \<open>files\<close> when \<open>files\<close> is
  still to be consumed.\<close>

lemma consume_files:
  assumes "fs \<noteq> []" "list_all plain_arg fs" "ns_files st = None"
  shows "consume_loop st (map (\<lambda>s. (s, Pos)) fs @ (o', Opt t) # r) =
         consume_loop (st\<lparr>ns_files := Some fs\<rparr>) ((o', Opt t) # r)"
proof -
  obtain f fs' where fs: "fs = f # fs'" using assms(1) by (cases fs) auto
  have m: "files_match (map (\<lambda>s. (s, Pos)) fs @ (o', Opt t) # r) = Some (length fs)"
    by (simp add: fs files_match_def pos_run_map_Opt)
  have "consume_positionals st (map (\<lambda>s. (s, Pos)) fs @ (o', Opt t) # r) =
        (st\<lparr>ns_files := Some fs\<rparr>, length fs)"
    using assms(2,3) by (simp add: consume_positionals_def m comp_def plain_no_dashdash remove1_idem)
  then show ?thesis
    by (simp add: fs consume_loop_Pos)
qed

lemma consume_loop_positionals:
  "ns_files st \<noteq> None \<Longrightarrow>
   consume_loop st (map (\<lambda>s. (s, Pos)) ys) = Inr (st\<lparr>extras := extras st @ ys\<rparr>)"
  by (auto simp: consume_loop_done list_ex_iff consume_positionals_def comp_def)

lemma consume_host:
  "consume_loop st ((''--host'', Opt (Some Act_Host, ''--host'', None, None)) # (h, Pos) # r) =
   consume_loop (st\<lparr>ns_host := h\<rparr>) r"
  by (simp add: consume_loop_Opt consume_optional_def match_argument_def)

lemma consume_port:
  "consume_loop st ((''--port'', Opt (Some Act_Port, ''--port'', None, None)) # (p, Pos) # r) =
   (case py_int p of None \<Rightarrow> Inl (Invalid_Int p) | Some n \<Rightarrow> consume_loop (st\<lparr>ns_port := n\<rparr>) r)"
  by (simp add: consume_loop_Opt consume_optional_def match_argument_def split: option.split)

lemma consume_port_missing:
  "consume_loop st [(''--port'', Opt (Some Act_Port, ''--port'', None, None))] = Inl (Expected_One Act_Port)"
  by (simp add: consume_loop_Opt consume_optional_def match_argument_def)

lemma consume_debug:
  "consume_loop st ((''--debug'', Opt (Some Act_Debug, ''--debug'', None, None)) # r) =
   consume_loop (st\<lparr>ns_debug := True\<rparr>) r"
  by (simp add: consume_loop_Opt consume_optional_def match_argument_def)

lemma consume_loop_Nil: "consume_loop st [] = Inr st"
  by (simp add: consume_loop_done consume_positionals_def files_match_def)

lemma classify_plain: "list_all plain_arg xs \<Longrightarrow> classify_args xs = Inr (map (\<lambda>s. (s, Pos)) xs)"
  using classify_plain_append [of xs "[]"] by simp

text \<open>A command line of file names alone gives the defaults of lines 327-332.\<close>

lemma pos_run_map: "pos_run (map (\<lambda>s. (s, Pos)) fs) = length fs"
  by (induction fs) simp_all

lemma parse_plain_files:
  assumes "fs \<noteq> []" "list_all plain_arg fs"
  shows "parse_args fs = Inr \<lparr>files = fs, debug = False, host = ''127.0.0.1'', port = 8050\<rparr>"
proof -
  obtain f fs' where f: "fs = f # fs'" using assms(1) by (cases fs) auto
  have "files_match (map (\<lambda>s. (s, Pos)) fs) = Some (length fs)"
    by (simp add: f files_match_def pos_run_map)
  then have "consume_loop init_arg_state (map (\<lambda>s. (s, Pos)) fs) =
    Inr (init_arg_state\<lparr>ns_files := Some fs\<rparr>)"
    using assms(2) by (simp add: consume_loop_done list_ex_iff consume_positionals_def init_arg_state_def
      comp_def plain_no_dashdash remove1_idem)
  then show ?thesis using assms(2) by (simp add: parse_args_def classify_plain init_arg_state_def)
qed

section \<open>Lemmas: the files come from the command line\<close>

lemma subseq_take: "subseq (take n xs) xs"
  using prefix_imp_subseq take_is_prefix by blast

lemma subseq_drop: "subseq (drop n xs) xs"
  using suffix_imp_subseq suffix_drop by blast

lemma subseq_remove1: "subseq (remove1 x xs) xs"
  by (induction xs) auto

lemma subseq_dropWhile: "subseq (dropWhile g xs) xs"
  using suffix_imp_subseq suffix_dropWhile by blast

lemma classify_args_shape: "classify_args argv = Inr ks \<Longrightarrow> dash_ok ks \<and> map fst ks = argv"
proof (induction argv arbitrary: ks)
  case (Cons s ss)
  show ?case
  proof (cases "s = ''--''")
    case True
    with Cons.prems show ?thesis by (auto simp: list_all_iff comp_def)
  next
    case False
    with Cons.prems obtain k ks' where "parse_optional s = Inr k" "classify_args ss = Inr ks'"
      "ks = (s, case k of None \<Rightarrow> Pos | Some t \<Rightarrow> Opt t) # ks'"
      by (auto simp: res_bind_eq_Inr)
    with Cons.IH False show ?thesis by (cases k) auto
  qed
qed simp

declare opt_loop.simps [simp del]

lemma take_actions_files: "take_actions st ts = Inr st' \<Longrightarrow> ns_files st' = ns_files st"
proof (induction st ts rule: take_actions.induct)
  case (2 st t ts)
  then obtain st1 where "take_action st t = Inr st1" "take_actions st1 ts = Inr st'"
    by (auto simp: res_bind_eq_Inr)
  moreover from this(1) have "ns_files st1 = ns_files st"
    by (cases t; cases "fst t") (auto split: option.splits)
  ultimately show ?case using "2.IH" by simp
qed simp

lemma opt_loop_pos:
  "opt_loop a ostr sep e rest = Inr (ts, xs, n) \<Longrightarrow> \<forall>y \<in> set (take n rest). snd y = Pos"
proof (induction a ostr sep e rest arbitrary: ts xs n rule: opt_loop.induct)
  case (1 a ostr sep e rest)
  note p = "1.prems" [unfolded opt_loop.simps [of a ostr sep e]]
  show ?case
  proof (cases e)
    case None
    with p show ?thesis
      by (auto simp: match_argument_def split: option.splits if_splits list.splits arg_kind.splits)
  next
    case (Some ex)
    with p "1.IH" show ?thesis
      by (auto simp: res_bind_eq_Inr Let_def split: if_splits option.splits) fastforce+
  qed
qed

lemma consume_optional_shape:
  assumes "consume_optional st t s rest = Inr (st', n)"
  shows "ns_files st' = ns_files st \<and> (\<forall>y \<in> set (take n rest). snd y = Pos)"
proof (cases "fst t")
  case None
  with assms show ?thesis by (cases t) (auto simp: consume_optional_def)
next
  case (Some a)
  then obtain ostr sep e where t: "t = (Some a, ostr, sep, e)" by (cases t) auto
  with assms obtain ts xs where l: "opt_loop a ostr sep e rest = Inr (ts, xs, n)"
    and "take_actions (st\<lparr>extras := extras st @ xs\<rparr>) ts = Inr st'"
    by (auto simp: consume_optional_def res_bind_eq_Inr split: prod.splits)
  with take_actions_files opt_loop_pos [OF l] show ?thesis by fastforce
qed

lemma dash_ok_drop_pos: "dash_ok xs \<Longrightarrow> \<forall>y \<in> set (take n xs). snd y = Pos \<Longrightarrow> dash_ok (drop n xs)"
proof (induction xs arbitrary: n)
  case (Cons x xs)
  then show ?case by (cases n; cases x) auto
qed simp

lemma dash_ok_dropWhile:
  "dash_ok xs \<Longrightarrow> list_ex (is_opt \<circ> snd) xs \<Longrightarrow> dash_ok (dropWhile (\<lambda>x. \<not> is_opt (snd x)) xs)"
proof (induction xs)
  case (Cons x xs)
  obtain s k where x: "x = (s, k)" by (cases x)
  show ?case
  proof (cases "k = Dash_Dash")
    case True
    with Cons.prems x show ?thesis by (auto simp: list_all_iff list_ex_iff)
  next
    case False
    with Cons x show ?thesis by auto
  qed
qed simp

lemma pos_run_le: "pos_run r \<le> length r"
  by (induction r rule: pos_run.induct) auto

lemma files_match_SomeE:
  assumes "files_match xs = Some n"
  obtains s r where "drop (length (takeWhile (\<lambda>(s, k). k = Dash_Dash) xs)) xs = (s, Pos) # r"
    "n = length (takeWhile (\<lambda>(s, k). k = Dash_Dash) xs) + 1 + pos_run r"
  using assms by (auto simp: files_match_def Let_def split: list.splits prod.splits arg_kind.splits)

lemma files_match_le: "files_match xs = Some n \<Longrightarrow> 0 < n \<and> n \<le> length xs"
proof -
  assume m: "files_match xs = Some n"
  let ?d = "length (takeWhile (\<lambda>(s, k). k = Dash_Dash) xs)"
  from m obtain s r where dr: "drop ?d xs = (s, Pos) # r" and n: "n = ?d + 1 + pos_run r"
    by (rule files_match_SomeE)
  from dr have "length xs = ?d + Suc (length r)"
    by (metis add_Suc_right diff_add_inverse le_add_diff_inverse length_Cons length_drop
        length_takeWhile_le)
  with n pos_run_le [of r] show ?thesis by simp
qed

lemma files_match_nonempty:
  assumes "files_match xs = Some n" "dash_ok xs"
  shows "remove1 ''--'' (map fst (take n xs)) \<noteq> []"
proof -
  from assms(1) obtain s k r where xs: "xs = (s, k) # r"
    by (cases xs) (auto simp: files_match_def)
  from files_match_le [OF assms(1)] have n: "0 < n" "n \<le> length xs" by simp_all
  show ?thesis
  proof (cases k)
    case Pos
    with assms(2) xs have "s \<noteq> ''--''" by simp
    with xs n show ?thesis by (cases n) auto
  next
    case Dash_Dash
    from assms(1) obtain s' r' where
      "n = length (takeWhile (\<lambda>(s, k). k = Dash_Dash) xs) + 1 + pos_run r'"
      by (rule files_match_SomeE)
    with Dash_Dash xs have "2 \<le> n" by simp
    with n have "2 \<le> length (map fst (take n xs))" by simp
    then show ?thesis using length_remove1 [of "''--''" "map fst (take n xs)"]
      by (cases "map fst (take n xs)") auto
  next
    case (Opt t)
    with assms(1) xs show ?thesis by (simp add: files_match_def)
  qed
qed

lemma consume_positionals_files:
  assumes "consume_positionals st xs = (st1, n)" "ns_files st = None \<longrightarrow> dash_ok xs"
    "subseq (map fst xs) argv" "files_from argv st"
  shows "files_from argv st1 \<and> (n = 0 \<longrightarrow> st1 = st) \<and> (0 < n \<longrightarrow> ns_files st1 \<noteq> None)"
proof (cases "ns_files st = None \<and> files_match xs \<noteq> None")
  case True
  then obtain m where m: "files_match xs = Some m" "ns_files st = None" by auto
  with assms(1) have st1: "st1 = st\<lparr>ns_files := Some (remove1 ''--'' (map fst (take m xs)))\<rparr>" "n = m"
    by (auto simp: consume_positionals_def)
  have "subseq (remove1 ''--'' (map fst (take m xs))) argv"
    using subseq_remove1 subseq_take [of m "map fst xs"] assms(3)
    by (metis subseq_order.trans take_map)
  with files_match_nonempty [OF m(1)] m(2) assms(2) files_match_le [OF m(1)] show ?thesis
    by (simp add: st1 files_from_def)
next
  case False
  with assms(1) have "st1 = st" "n = 0"
    by (auto simp: consume_positionals_def split: if_splits option.splits)
  with assms(4) show ?thesis by simp
qed

lemma consume_loop_files:
  "consume_loop st xs = Inr st' \<Longrightarrow> subseq (map fst xs) argv \<Longrightarrow>
   (ns_files st = None \<longrightarrow> dash_ok xs) \<Longrightarrow> files_from argv st \<Longrightarrow> files_from argv st'"
proof (induction st xs arbitrary: st' rule: consume_loop.induct)
  case (1 st xs)
  obtain st1 n where p: "consume_positionals st xs = (st1, n)" by fastforce
  note cp = consume_positionals_files [OF p "1.prems"(3,2,4)]
  show ?case
  proof (cases "list_ex (is_opt \<circ> snd) xs")
    case False
    with p "1.prems"(1) have "st' = st1\<lparr>extras := extras st1 @ map fst (drop n xs)\<rparr>"
      by (simp add: consume_loop_done)
    with cp show ?thesis by (simp add: files_from_def)
  next
    case True
    then obtain s k r where xs: "xs = (s, k) # r" by (cases xs) auto
    show ?thesis
    proof (cases "is_opt k")
      case True
      then obtain t where Opt: "k = Opt t" by (cases k) auto
      with "1.prems"(1) xs obtain st2 n2 where c: "consume_optional st t s r = Inr (st2, n2)"
        and l: "consume_loop st2 (drop n2 r) = Inr st'"
        by (auto simp: consume_loop_Opt res_bind_eq_Inr)
      from consume_optional_shape [OF c] have f: "ns_files st2 = ns_files st"
        and pos: "\<forall>y \<in> set (take n2 r). snd y = Pos" by simp_all
      have "subseq (map fst (drop n2 r)) argv"
        using "1.prems"(2) xs subseq_drop [of n2 "map fst r"]
        by (metis drop_map list.simps(9) subseq_Cons' subseq_order.trans)
      moreover have "ns_files st2 = None \<longrightarrow> dash_ok (drop n2 r)"
        using "1.prems"(3) xs Opt f pos dash_ok_drop_pos by auto
      moreover have "files_from argv st2" using "1.prems"(4) f by (simp add: files_from_def)
      ultimately show ?thesis
        using "1.IH"(7) [OF _ xs refl Opt l] \<open>list_ex (is_opt \<circ> snd) xs\<close> by simp
    next
      case nopt: False
      have sub: "subseq (map fst (drop n xs)) argv" "subseq (map fst (dropWhile g xs)) argv" for g
        using "1.prems"(2) subseq_drop [of n "map fst xs"] subseq_dropWhile [of g xs]
        by (metis drop_map subseq_order.trans subseq_map)+
      show ?thesis
      proof (cases "0 < n")
        case pos: True
        with "1.prems"(1) xs nopt p \<open>list_ex (is_opt \<circ> snd) xs\<close>
        have l: "consume_loop st1 (drop n xs) = Inr st'" by (simp add: consume_loop_step)
        from cp pos have "ns_files st1 \<noteq> None" by simp
        with cp sub show ?thesis
          using "1.IH"(3) [OF _ xs refl _ p [symmetric] refl pos l]
            "1.IH"(5) [OF _ xs refl _ p [symmetric] refl pos l] \<open>list_ex (is_opt \<circ> snd) xs\<close> nopt
          by (cases k) auto
      next
        case zero: False
        let ?st2 = "st1\<lparr>extras := extras st1 @ map fst (takeWhile (\<lambda>x. \<not> is_opt (snd x)) xs)\<rparr>"
        from "1.prems"(1) xs nopt p zero \<open>list_ex (is_opt \<circ> snd) xs\<close>
        have l: "consume_loop ?st2 (dropWhile (\<lambda>x. \<not> is_opt (snd x)) xs) = Inr st'"
          by (simp add: consume_loop_step)
        from cp zero have st1: "st1 = st" by simp
        have "ns_files ?st2 = None \<longrightarrow> dash_ok (dropWhile (\<lambda>x. \<not> is_opt (snd x)) xs)"
          using "1.prems"(3) dash_ok_dropWhile \<open>list_ex (is_opt \<circ> snd) xs\<close> st1 by simp
        moreover have "files_from argv ?st2" using "1.prems"(4) st1 by (simp add: files_from_def)
        ultimately show ?thesis
          using sub "1.IH"(4) [OF _ xs refl _ p [symmetric] refl zero l]
            "1.IH"(6) [OF _ xs refl _ p [symmetric] refl zero l] \<open>list_ex (is_opt \<circ> snd) xs\<close> nopt
          by (cases k) auto
      qed
    qed
  qed
qed

section \<open>Lemmas: main\<close>

lemma main_prog_Serve:
  "main_prog fsys argv = Serve srv out \<longleftrightarrow>
   (\<exists>a. parse_args argv = Inr a \<and> check_files fsys (files a) = None \<and>
        srv = app_run (dash_setup (app_init (files a))) (debug a) (host a) (port a) \<and> out = banner a)"
  by (auto simp: main_prog_def main_start_def split: sum.splits option.splits prod.splits)

section \<open>Properties of the command line and of main\<close>

text \<open>C28 (roundtrip). A namespace whose file names and host do not start with \<open>-\<close>,
  written as a command line (files, \<open>--host\<close>, \<open>--port\<close> with \<open>str(port)\<close>, \<open>--debug\<close> when
  set), is parsed back by the parser of lines 303-334 to the same namespace; a negative
  port is read as a value, not as an option.\<close>

theorem parse_render_roundtrip: "cli_plain a \<Longrightarrow> parse_args (render_args a) = Inr a"
proof -
  assume "cli_plain a"
  then have fs: "files a \<noteq> []" "list_all plain_arg (files a)" and h: "plain_arg (host a)"
    by (simp_all add: cli_plain_def)
  let ?opts = "[(''--host'', Opt (Some Act_Host, ''--host'', None, None)), (host a, Pos),
         (''--port'', Opt (Some Act_Port, ''--port'', None, None)), (int_str (port a), Pos)] @
        (if debug a then [(''--debug'', Opt (Some Act_Debug, ''--debug'', None, None))] else [])"
  have "classify_args (render_args a) =
    res_bind (classify_args (''--host'' # host a # ''--port'' # int_str (port a) #
                (if debug a then [''--debug''] else [])))
      (\<lambda>ks. Inr (map (\<lambda>s. (s, Pos)) (files a) @ ks))"
    using classify_plain_append [OF fs(2)] by (simp add: render_args_def del: classify_args.simps)
  then have "classify_args (render_args a) = Inr (map (\<lambda>s. (s, Pos)) (files a) @ ?opts)"
    by (simp add: classify_options [OF h] del: classify_args.simps)
  moreover have "consume_loop init_arg_state (map (\<lambda>s. (s, Pos)) (files a) @ ?opts) =
    Inr (init_arg_state\<lparr>ns_files := Some (files a), ns_host := host a, ns_port := port a,
                         ns_debug := debug a\<rparr>)"
    by (cases "debug a")
       (simp_all add: consume_files fs init_arg_state_def consume_host consume_port py_int_int_str
         consume_debug consume_loop_Nil)
  ultimately show ?thesis by (cases a) (simp add: parse_args_def init_arg_state_def)
qed

text \<open>C29 (error). The files must be one run of arguments: an option between file
  names ends \<open>files\<close>, and the names after it are rejected as unrecognized arguments
  (exit status 2).\<close>

theorem options_between_files_unrecognized:
  "fs1 \<noteq> [] \<Longrightarrow> fs2 \<noteq> [] \<Longrightarrow> list_all plain_arg (fs1 @ fs2) \<Longrightarrow>
   parse_args (fs1 @ ''--debug'' # fs2) = Inl (Unrecognized fs2)"
  by (simp add: parse_args_def classify_plain_append classify_plain parse_optional_known
      consume_files init_arg_state_def consume_debug consume_loop_positionals)

text \<open>C30 (invariant). Whenever parsing succeeds, the list of files is non-empty and a
  subsequence of the command line: every file \<open>main\<close> validates was given on the
  command line, in order.\<close>

theorem parse_args_files: "parse_args argv = Inr a \<Longrightarrow> files a \<noteq> [] \<and> subseq (files a) argv"
proof -
  assume "parse_args argv = Inr a"
  then obtain ks st fs where ks: "classify_args argv = Inr ks" and l: "consume_loop init_arg_state ks = Inr st"
    and fs: "ns_files st = Some fs" "files a = fs"
    by (auto simp: parse_args_def res_bind_eq_Inr split: option.splits if_splits)
  from classify_args_shape [OF ks] have "dash_ok ks" "map fst ks = argv" by simp_all
  then have "files_from argv st"
    by (intro consume_loop_files [OF l]) (simp_all add: init_arg_state_def files_from_def)
  with fs show ?thesis by (simp add: files_from_def)
qed

text \<open>C31 (error). The value of \<open>--port\<close> is converted by \<open>int()\<close>: a value \<open>int\<close>
  rejects is a usage error naming the value, and \<open>--port\<close> as the last argument is the
  error \<open>expected one argument\<close>.\<close>

theorem port_value:
  "fs \<noteq> [] \<Longrightarrow> list_all plain_arg fs \<Longrightarrow> plain_arg p \<Longrightarrow>
   parse_args (fs @ [''--port'', p]) =
     (case py_int p of
        None \<Rightarrow> Inl (Invalid_Int p)
      | Some n \<Rightarrow> Inr \<lparr>files = fs, debug = False, host = ''127.0.0.1'', port = n\<rparr>) \<and>
   parse_args (fs @ [''--port'']) = Inl (Expected_One Act_Port)"
  by (simp add: parse_args_def classify_plain_append parse_optional_known parse_optional_plain
      plain_not_dashdash consume_files init_arg_state_def consume_port consume_port_missing
      consume_loop_Nil split: option.split)

text \<open>C32 (functional). \<open>main\<close> starts the server exactly when the arguments parse and
  every file exists; the server runs the application built from the files with the
  parsed debug flag, host and port, and the banner shows the URL with that host and
  port.\<close>

theorem main_serves:
  "main_prog fsys argv = Serve srv out \<longleftrightarrow>
   (\<exists>a. parse_args argv = Inr a \<and> (\<forall>f \<in> set (files a). fsys f \<noteq> None) \<and>
        srv = \<lparr>srv_app = dash_setup (app_init (files a)), srv_debug = debug a, srv_host = host a,
               srv_port = port a\<rparr> \<and>
        out ! 1 = ''Dashboard available at: http://'' @ host a @ '':'' @ int_str (port a) \<and>
        out = banner a)"
  by (auto simp: main_prog_Serve check_files_None app_run_def banner_def)

end
