(* ===== verification/Spec2Isabelle.thy ===== *)
theory Spec2Isabelle
  imports CommandLine
begin

text \<open>
  Verification development for cracking_curve, a dashboard that plots the progress
  of hashcat sessions from their \<open>--status-json\<close> output
  (src/password_cracking_curve.py, the only source file).

  \<^bold>\<open>The program.\<close> \<open>HashcatStatusParser.parse_status_file\<close> (lines 25-102) reads a
  status file line by line, decodes the JSON records, accumulates guesses and elapsed
  time, and cuts the records into attack phases, one curve per maximal run of equal
  phase keys, each curve starting where the previous one ended. The Dash application
  \<open>PasswordCrackingApp\<close> keeps one parser per file (lines 105-129); its callback
  \<open>update_graph_and_settings\<close> (lines 218-232) applies the control panel's settings
  when the Update button fired and redraws the figure with \<open>_create_figure\<close>
  (lines 234-295), which downsamples long curves, labels and colours them. \<open>main\<close>
  (lines 302-350) parses the command line with \<open>argparse\<close>, checks that every file
  exists, builds the application (its constructor also builds the page and registers
  the callback, lines 121-124) and runs the server (\<open>run\<close>, lines 297-299).

  \<^bold>\<open>Theories.\<close>
  \<^item> Prelude: results as \<open>py_error + 'a\<close> chained by \<open>res_bind\<close>; the collection
    \<open>py_simps\<close>; list lemmas shared by the components.
  \<^item> PyText, PyValue: the Python semantics the code relies on: \<open>str.strip\<close>,
    \<open>startswith\<close>, \<open>replace\<close>, \<open>split('/')[-1]\<close>, \<open>in\<close> on strings, \<open>str()\<close> and
    \<open>repr()\<close> of JSON values (\<open>pyval\<close>), \<open>dict.get\<close>, indexing, \<open>+=\<close>, \<open>> 0\<close>,
    true division, \<open>==\<close>; every exception is a constructor of \<open>py_error\<close>.
  \<^item> Reader: text-mode line iteration (universal newlines), strip, the \<open>{\<close> filter and
    the \<open>JSONDecodeError\<close> skip (lines 42-49, 99-100), as the record stream
    \<open>read_records\<close>.
  \<^item> CurveSpec: the abstract contract of the curve builder, \<open>group_runs\<close> (maximal
    runs) and \<open>stitch\<close> (each polyline starts at the previous one's last point).
  \<^item> Segmenter: the parser record, the loop state \<open>parse_state\<close>, one definition per
    part of the loop body (\<open>process_record\<close>, \<open>phase_step\<close>), the loop
    \<open>parse_lines\<close> and \<open>parse_status_file\<close>; the refinement of the loop to
    \<open>spec_result\<close> by the simulation relation \<open>abs_state\<close>; the reachable loop
    states \<open>parse_reachable\<close> and their invariant \<open>parse_inv\<close>.
  \<^item> Downsample: \<open>downsample\<close> (lines 252-264), the slice \<open>xs[::step]\<close> as its meaning
    \<open>py_slice_step\<close>;
    \<open>downsample_points\<close> and \<open>sample_curve\<close> specify downsampling on lists of points.
  \<^item> Figure: \<open>attack_label\<close>, \<open>trace_color\<close>, the per-curve loop \<open>curve_loop\<close>, the
    traces of a file \<open>file_traces\<close> and \<open>create_figure\<close>.
  \<^item> App: \<open>app_state\<close>, \<open>update_parsers\<close> (a dict comprehension, \<open>dict_set\<close>),
    \<open>app_init\<close>, the callback; \<open>app_reachable\<close> is the inductive set of states
    reached by callbacks, \<open>parsers_consistent\<close> its invariant; the file validation
    of \<open>main\<close> (\<open>check_files\<close>, \<open>main_start\<close>).
  \<^item> Layout: the Dash page of \<open>_setup_layout\<close> as a tree of \<open>component\<close>s and the
    callback declaration \<open>graph_callback\<close>; \<open>initial_prop\<close> is the value Dash passes
    for a component property before any user input.
  \<^item> CommandLine: \<open>main\<close> as \<open>main_prog\<close>: the argument parser \<open>parse_args\<close>
    (argparse's classification \<open>classify_args\<close> and consuming loop \<open>consume_loop\<close>,
    \<open>int()\<close> as \<open>py_int\<close>), the Dash object \<open>dash_setup\<close>, the banner and \<open>app_run\<close>;
    the outcome of \<open>main\<close> is an argparse exit, the exit of line 340 or the running
    server with the lines printed before it.
  \<^item> this theory: example inputs, the properties that span the parser and the figure,
    and a witness for every property with a hypothesis.

  \<^bold>\<open>Correspondence.\<close> The local variables of \<open>parse_status_file\<close> are the fields of
  \<open>parse_state\<close>; the initial \<open>current_identifier = ""\<close>, a str never equal to a key
  tuple, is \<open>None\<close>. Each Python statement that may raise is one \<open>res_bind\<close>, in the
  source's evaluation order, so every raise of the source is an \<open>Inl\<close> branch. The file
  system and \<open>json.loads\<close> are parameters (a path maps to its contents or to \<open>None\<close>
  when it does not exist; \<open>None\<close> from the decoder is a \<open>JSONDecodeError\<close>).
  Statements that mutate the app object and then raise are modelled as returning the
  state reached together with the exception.

  \<^bold>\<open>What is proved.\<close> C1-C9 (Segmenter): the loop refines the stitched-runs
  specification or fails exactly at the first record whose fields cannot be read;
  stitching, the anchor \<open>(0, 0)\<close>, parallel shapes, sorted x-values, the accumulators,
  the invariant of reachable states and that no \<open>curves_x[-1]\<close> ever raises. C10-C18
  (Downsample, Figure, here): downsampling keeps the endpoints (P5), keeps points paired as a
  subsequence, is bounded by \<open>(n - 1) div 60 + 2\<close> points, stitching survives into the
  figure, labels ignore \<open>time_start\<close>, and the exact error conditions of drawing.
  C19-C22 (App): parsers always match the settings in reachable states, what an Update
  click does, the stale parsers left when the check list value is not a container, and
  the TypeError of an empty refresh input. C23: the number of curves is one more than
  the number of phase changes (P3); it rests on \<open>==\<close> being an equivalence on JSON
  values (\<open>py_eq_sym\<close>, \<open>py_eq_trans\<close> in PyValue). C24-C25: \<open>main\<close> builds the
  application exactly when all files exist, and otherwise exits with status 1 naming
  the first missing file. C26 (Layout): Update with the initial controls of the page
  leaves the application unchanged. C27: every decoded record contributes exactly one
  point, in order, with its x- and y-value. C28-C32 (CommandLine): the argument parser
  reads back any namespace written as a command line, rejects file names after an
  option, only ever returns a non-empty subsequence of the command line as files (an
  invariant of its consuming loop), converts \<open>--port\<close> with \<open>int()\<close> or fails with a
  usage error; \<open>main\<close> serves exactly when the arguments parse and the files exist,
  with the parsed debug flag, host and port.

  \<^bold>\<open>Bounds and fuel.\<close> No fuel is needed: every loop of the source runs over a
  finite list (lines of a file, records, curves, files) and is structural recursion;
  \<open>group_runs\<close> terminates by the length of its argument. The two loops of the
  argument parser are \<open>function\<close>s with termination proofs: the consuming loop by the
  length of the remaining arguments, the loop over a cluster of short flags by the
  length of the explicit argument. The sample rate 60 and the threshold of 1000 points
  are the source's constants.

  \<^bold>\<open>Not modelled.\<close> Python floats are exact rationals (no rounding, NaN or infinity);
  strings hold code points below 256; \<open>UnicodeDecodeError\<close> and the opening of a path
  that exists but cannot be read; the CSS styles of the page; the Dash and plotly
  objects beyond the data they receive (layout template, legend title, hover mode, margins); the unused per-file
  colour of line 249; the texts of argparse's help and usage messages (only which
  exit happens is modelled); the HTTP server started by \<open>app.run\<close>, which serves until
  interrupted (its parameters are modelled); the \<open>__main__\<close> guard.
\<close>

section \<open>Example inputs\<close>

text \<open>A status record as hashcat writes it with \<open>--status-json\<close>: 10 guesses in
  this interval, 2 of 100 hashes recovered, attack \<open>base\<close> without modifier.\<close>

definition ex_record :: "string \<Rightarrow> pyval" where
  "ex_record base =
     PDict [(''progress'', PList [PInt 10]), (''recovered_hashes'', PList [PInt 2, PInt 100]),
            (''guess'', PDict [(''guess_base'', PStr base), (''guess_mod'', PNone)])]"

text \<open>A decoder for the example lines: \<open>{d1}\<close> and \<open>{pot}\<close> decode to records of the
  attacks \<open>dict1\<close> and the potfile, \<open>{x}\<close> to a record with an empty progress list,
  anything else is a \<open>JSONDecodeError\<close>.\<close>

definition ex_bad_record :: pyval where
  "ex_bad_record = PDict [(''progress'', PList [])]"

definition ex_mod_record :: pyval where
  "ex_mod_record = PDict [(''guess'', PDict [(''guess_mod'', PInt 3)])]"

definition ex_loads :: json_decoder where
  "ex_loads s =
     (if s = ''{d1}'' then Some (ex_record ''dict1'')
      else if s = ''{pot}'' then Some (ex_record ''autocat_new_cracked_potfile'')
      else if s = ''{x}'' then Some ex_bad_record
      else if s = ''{m}'' then Some ex_mod_record
      else None)"

definition ex_parser :: hashcat_status_parser where
  "ex_parser = \<lparr>filename = ''s.json'', x_axis_type = ''guesses'', y_axis_type = ''percentage'',
                 status_timer = 1\<rparr>"

definition ex_content :: string where
  "ex_content = ''{d1}\<newline>{d1}\<newline>{pot}\<newline>{bad''"

definition ex_fs :: "string \<Rightarrow> string option" where
  "ex_fs f = (if f = ''s.json'' then Some ex_content else None)"

definition ex_bad_content :: string where
  "ex_bad_content = ''{d1}\<newline>{x}\<newline>{d1}''"

definition ex_bad_fs :: "string \<Rightarrow> string option" where
  "ex_bad_fs f = (if f = ''s.json'' then Some ex_bad_content else None)"

definition ex_mod_fs :: "string \<Rightarrow> string option" where
  "ex_mod_fs f = (if f = ''s.json'' then Some ''{m}\<newline>'' else None)"

text \<open>The traces drawn for \<open>ex_fs\<close> (file \<open>logs/s.json\<close>, legend group \<open>s\<close>).\<close>

definition ex_traces :: "trace list" where
  "ex_traces =
     [\<lparr>trace_x = [0, 10, 20], trace_y = [PInt 0, PFloat 2, PFloat 2], marker_color = None,
       trace_name = ''dict1'', legendgroup = ''s'', legendgrouptitle_text = Some ''s''\<rparr>,
      \<lparr>trace_x = [20, 30], trace_y = [PFloat 2, PFloat 2], marker_color = Some ''black'',
       trace_name = ''potfile'', legendgroup = ''s'', legendgrouptitle_text = None\<rparr>]"

section \<open>Evaluation of the examples\<close>

lemma ex_fields:
  "fields_all ex_parser (read_records ex_loads ex_content) =
     Inr [(10, PFloat 2, ''unknown/dict1'', PNone), (10, PFloat 2, ''unknown/dict1'', PNone),
          (10, PFloat 2, ''unknown/potfile'', PNone)]"
  by code_simp

lemma ex_result:
  "parse_status_file ex_parser ex_fs ex_loads =
     Inr ([[0, 10, 20], [20, 30]], [[PInt 0, PFloat 2, PFloat 2], [PFloat 2, PFloat 2]],
          [(''unknown/dict1'', PNone), (''unknown/potfile'', PNone)])"
  by code_simp

lemma ex_bad_records:
  "read_records ex_loads ex_bad_content = [ex_record ''dict1''] @ ex_bad_record # [ex_record ''dict1'']"
  by code_simp

lemma ex_bad_fields: "record_fields ex_parser ex_bad_record = Inl IndexError"
  by code_simp

lemma ex_loop:
  "parse_lines ex_parser ex_loads init_state (text_lines ex_content) =
     Inr \<lparr>curves_x = [[0, 10, 20], [20, 30]],
          curves_y = [[PInt 0, PFloat 2, PFloat 2], [PFloat 2, PFloat 2]],
          label_list = [(''unknown/dict1'', PNone), (''unknown/potfile'', PNone)], guesses = 30,
          current_identifier = Some (''unknown/potfile'', PNone), elapsed_seconds = 3\<rparr>"
  by code_simp

lemma ex_first_fields: "record_fields ex_parser (ex_record ''dict1'') = Inr (10, PFloat 2, ''unknown/dict1'', PNone)"
  by code_simp

lemma ex_first_step:
  "process_record ex_parser init_state (ex_record ''dict1'') =
     Inr \<lparr>curves_x = [[0, 10]], curves_y = [[PInt 0, PFloat 2]],
          label_list = [(''unknown/dict1'', PNone)], guesses = 10,
          current_identifier = Some (''unknown/dict1'', PNone), elapsed_seconds = 1\<rparr>"
  by code_simp

lemma ex_records_wf: "\<forall>d \<in> set (read_records ex_loads ex_content). py_wf d"
  by code_simp

lemma ex_file_traces: "file_traces False ex_fs ex_loads (''logs/s.json'', ex_parser) = Inr ex_traces"
  by code_simp

lemma ex_mod_result:
  "parse_status_file ex_parser ex_mod_fs ex_loads =
     Inr ([[0, 0]], [[PInt 0, PFloat 0]], [(''unknown/unknown'', PInt 3)])"
  by code_simp

lemma ex_downsample: "downsample [1, 2, 3 :: rat] [PInt 1, PInt 2, PInt 3] = Inr ([1, 3], [PInt 1, PInt 3])"
  by code_simp

section \<open>Properties of the figure of a file\<close>

text \<open>C10 (safety). In the figure, the curves of a file stay stitched after
  downsampling: each trace starts at the last point, x and y, of the previous trace.\<close>

theorem figure_traces_stitched:
  "file_traces no_hl fsys loads (fp, p) = Inr ts \<Longrightarrow> Suc k < length ts \<Longrightarrow>
   hd (trace_x (ts ! Suc k)) = last (trace_x (ts ! k)) \<and>
   hd (trace_y (ts ! Suc k)) = last (trace_y (ts ! k))"
proof -
  assume f: "file_traces no_hl fsys loads (fp, p) = Inr ts" and k: "Suc k < length ts"
  obtain cxs cys labels where p: "parse_status_file p fsys loads = Inr (cxs, cys, labels)"
    and ok: "curves_ok cxs cys labels" and l: "length ts = length cxs"
    and t: "\<And>k. k < length ts \<Longrightarrow> trace_x (ts ! k) = fst (sample_curve (cxs ! k) (cys ! k)) \<and>
           trace_y (ts ! k) = snd (sample_curve (cxs ! k) (cys ! k))"
    using file_traces_sampled [OF f] by blast
  have s: "length (cys ! j) = length (cxs ! j)" "cxs ! j \<noteq> []" if "j < length cxs" for j
    using ok that by (auto simp: curves_ok_def)
  show ?thesis
    using t [of k] t [of "Suc k"] k l parsed_stitched [OF p, of k]
      sample_curve_hd_last [OF s [of k]] sample_curve_hd_last [OF s [of "Suc k"]]
    by simp
qed

text \<open>C14 (functional). The first trace of a file starts at (0, 0).\<close>

theorem figure_first_trace_origin:
  "file_traces no_hl fsys loads (fp, p) = Inr ts \<Longrightarrow> ts \<noteq> [] \<Longrightarrow>
   hd (trace_x (ts ! 0)) = 0 \<and> hd (trace_y (ts ! 0)) = PInt 0"
proof -
  assume f: "file_traces no_hl fsys loads (fp, p) = Inr ts" and ne: "ts \<noteq> []"
  obtain cxs cys labels where p: "parse_status_file p fsys loads = Inr (cxs, cys, labels)"
    and ok: "curves_ok cxs cys labels" and l: "length ts = length cxs"
    and t: "\<And>k. k < length ts \<Longrightarrow> trace_x (ts ! k) = fst (sample_curve (cxs ! k) (cys ! k)) \<and>
           trace_y (ts ! k) = snd (sample_curve (cxs ! k) (cys ! k))"
    using file_traces_sampled [OF f] by blast
  have c0: "0 < length cxs" using ne l by (cases ts) auto
  have "length (cys ! 0) = length (cxs ! 0)" "cxs ! 0 \<noteq> []" "cxs \<noteq> []"
    using ok c0 by (simp_all add: curves_ok_def)
  then show ?thesis
    using t [of 0] ne parsed_anchor [OF p] sample_curve_hd_last [of "cys ! 0" "cxs ! 0"] by simp
qed

text \<open>C13 (type). A file gives one trace per curve; each trace has parallel x- and
  y-lists whose points are a subsequence of the curve's points, all traces share
  the file's legend group and only the first carries its title.\<close>

theorem file_traces_shape:
  "parse_status_file p fsys loads = Inr (cxs, cys, labels) \<Longrightarrow>
   file_traces no_hl fsys loads (fp, p) = Inr ts \<Longrightarrow>
   length ts = length cxs \<and>
   (\<forall>k < length ts. length (trace_y (ts ! k)) = length (trace_x (ts ! k)) \<and>
      subseq (zip (trace_x (ts ! k)) (trace_y (ts ! k))) (zip (cxs ! k) (cys ! k)) \<and>
      legendgroup (ts ! k) = path_stem fp \<and>
      legendgrouptitle_text (ts ! k) = (if k = 0 then Some (path_stem fp) else None))"
proof -
  assume p: "parse_status_file p fsys loads = Inr (cxs, cys, labels)"
    and f: "file_traces no_hl fsys loads (fp, p) = Inr ts"
  have ok: "curves_ok cxs cys labels" using p by (rule parse_status_file_curves_ok)
  show ?thesis
    using file_traces_Inr [OF p f] ok
    by (auto simp: curves_ok_def scatter_def sample_curve_length sample_curve_subseq)
qed

text \<open>C15 (error). When the file parses, drawing its curves raises exactly when some
  label's \<open>guess_mod\<close> is neither None nor a string, and the exception is AttributeError.\<close>

theorem file_traces_Inl_iff:
  "parse_status_file p fsys loads = Inr (cxs, cys, labels) \<Longrightarrow>
   file_traces no_hl fsys loads (fp, p) = Inl e \<longleftrightarrow>
   e = AttributeError \<and> (\<exists>j < length labels. isl (attack_label (labels ! j)))"
proof -
  assume p: "parse_status_file p fsys loads = Inr (cxs, cys, labels)"
  then have "length labels = length cxs"
    using parse_status_file_curves_ok by (auto simp: curves_ok_def)
  then show ?thesis by (auto simp: file_traces_spec [OF p])
qed

section \<open>Witnesses\<close>

theorem parse_status_file_Inr_iff_witness:
  "\<exists>content flds. ex_fs (filename ex_parser) = Some content \<and>
     fields_all ex_parser (read_records ex_loads content) = Inr flds \<and>
     parse_status_file ex_parser ex_fs ex_loads = Inr (spec_result ex_parser flds)"
  using Segmenter.parse_status_file_Inr_iff [of ex_parser ex_fs ex_loads] ex_result
  by (auto simp: ex_fs_def ex_parser_def)

theorem parse_status_file_stitched_witness:
  "parse_status_file ex_parser ex_fs ex_loads =
     Inr ([[0, 10, 20], [20, 30]], [[PInt 0, PFloat 2, PFloat 2], [PFloat 2, PFloat 2]],
          [(''unknown/dict1'', PNone), (''unknown/potfile'', PNone)]) \<and>
   Suc 0 < length [[0, 10, 20], [20, 30 :: rat]] \<and>
   hd ([[0, 10, 20], [20, 30 :: rat]] ! 1) = last ([[0, 10, 20], [20, 30 :: rat]] ! 0) \<and>
   hd ([[PInt 0, PFloat 2, PFloat 2], [PFloat 2, PFloat 2]] ! 1) =
     last ([[PInt 0, PFloat 2, PFloat 2], [PFloat 2, PFloat 2]] ! 0)"
  using Segmenter.parse_status_file_stitched [OF ex_result, of 0] ex_result by simp

theorem parse_status_file_anchor_witness:
  "parse_status_file ex_parser ex_fs ex_loads =
     Inr ([[0, 10, 20], [20, 30]], [[PInt 0, PFloat 2, PFloat 2], [PFloat 2, PFloat 2]],
          [(''unknown/dict1'', PNone), (''unknown/potfile'', PNone)]) \<and>
   hd ([[0, 10, 20], [20, 30 :: rat]] ! 0) = 0 \<and>
   hd ([[PInt 0, PFloat 2, PFloat 2], [PFloat 2, PFloat 2]] ! 0) = PInt 0"
  using Segmenter.parse_status_file_anchor [OF ex_result] ex_result by simp

theorem parse_status_file_shape_witness:
  "parse_status_file ex_parser ex_fs ex_loads =
     Inr ([[0, 10, 20], [20, 30]], [[PInt 0, PFloat 2, PFloat 2], [PFloat 2, PFloat 2]],
          [(''unknown/dict1'', PNone), (''unknown/potfile'', PNone)]) \<and>
   length [[PInt 0, PFloat 2, PFloat 2], [PFloat 2, PFloat 2]] = length [[0, 10, 20], [20, 30 :: rat]] \<and>
   2 \<le> length ([[0, 10, 20], [20, 30 :: rat]] ! 1)"
  using Segmenter.parse_status_file_shape [OF ex_result] ex_result by simp

theorem parse_status_file_x_sorted_witness:
  "parse_status_file ex_parser ex_fs ex_loads =
     Inr ([[0, 10, 20], [20, 30]], [[PInt 0, PFloat 2, PFloat 2], [PFloat 2, PFloat 2]],
          [(''unknown/dict1'', PNone), (''unknown/potfile'', PNone)]) \<and>
   sorted (concat [[0, 10, 20], [20, 30 :: rat]])"
proof -
  have "ex_fs (filename ex_parser) = Some ex_content" by (simp add: ex_fs_def ex_parser_def)
  moreover have "0 \<le> status_timer ex_parser" by (simp add: ex_parser_def)
  ultimately have "sorted (concat [[0, 10, 20], [20, 30 :: rat]])"
    using Segmenter.parse_status_file_x_sorted [OF ex_result _ ex_fields] by simp
  with ex_result show ?thesis by simp
qed

theorem parse_lines_accumulators_witness:
  "elapsed_seconds \<lparr>curves_x = [[0, 10, 20], [20, 30]],
          curves_y = [[PInt 0, PFloat 2, PFloat 2], [PFloat 2, PFloat 2]],
          label_list = [(''unknown/dict1'', PNone), (''unknown/potfile'', PNone)], guesses = 30,
          current_identifier = Some (''unknown/potfile'', PNone), elapsed_seconds = 3\<rparr> =
     of_nat (length (read_records ex_loads ex_content)) * status_timer ex_parser"
  using Segmenter.parse_lines_accumulators [OF ex_loop] by simp

theorem parse_status_file_Inl_iff_witness:
  "parse_status_file ex_parser ex_bad_fs ex_loads = Inl IndexError \<and>
   read_records ex_loads ex_bad_content = [ex_record ''dict1''] @ ex_bad_record # [ex_record ''dict1''] \<and>
   \<not> isl (record_fields ex_parser (ex_record ''dict1'')) \<and>
   record_fields ex_parser ex_bad_record = Inl IndexError"
proof -
  have "ex_bad_fs (filename ex_parser) = Some ex_bad_content"
    by (simp add: ex_bad_fs_def ex_parser_def)
  then have "\<exists>content pre d post. ex_bad_fs (filename ex_parser) = Some content \<and>
     read_records ex_loads content = pre @ d # post \<and>
     (\<forall>d' \<in> set pre. \<not> isl (record_fields ex_parser d')) \<and> record_fields ex_parser d = Inl IndexError"
    using ex_bad_records ex_bad_fields ex_first_fields
    by (intro exI [of _ ex_bad_content] exI [of _ "[ex_record ''dict1'']"] exI [of _ ex_bad_record]) simp
  then have "parse_status_file ex_parser ex_bad_fs ex_loads = Inl IndexError"
    using Segmenter.parse_status_file_Inl_iff [of ex_parser ex_bad_fs ex_loads IndexError] by blast
  then show ?thesis using ex_bad_records ex_bad_fields ex_first_fields by simp
qed

theorem parse_reachable_inv_witness:
  "parse_inv \<lparr>curves_x = [[0, 10]], curves_y = [[PInt 0, PFloat 2]],
          label_list = [(''unknown/dict1'', PNone)], guesses = 10,
          current_identifier = Some (''unknown/dict1'', PNone), elapsed_seconds = 1\<rparr>"
  using Segmenter.parse_reachable_inv [OF parse_reachable.step [OF parse_reachable.init ex_first_step]] .

theorem parse_reachable_step_total_witness:
  "\<exists>st'. process_record ex_parser init_state (ex_record ''dict1'') = Inr st' \<and> parse_reachable ex_parser st'"
  using Segmenter.parse_reachable_step_total [OF parse_reachable.init ex_first_fields] .

theorem figure_traces_stitched_witness:
  "hd (trace_x (ex_traces ! 1)) = last (trace_x (ex_traces ! 0)) \<and>
   hd (trace_y (ex_traces ! 1)) = last (trace_y (ex_traces ! 0))"
  using figure_traces_stitched [OF ex_file_traces, of 0] by (simp add: ex_traces_def)

theorem figure_first_trace_origin_witness:
  "hd (trace_x (ex_traces ! 0)) = 0 \<and> hd (trace_y (ex_traces ! 0)) = PInt 0"
  using figure_first_trace_origin [OF ex_file_traces] by (simp add: ex_traces_def)

theorem file_traces_shape_witness:
  "length ex_traces = 2 \<and> legendgrouptitle_text (ex_traces ! 1) = None \<and>
   subseq (zip (trace_x (ex_traces ! 1)) (trace_y (ex_traces ! 1))) (zip [20, 30] [PFloat 2, PFloat 2])"
proof -
  have l: "length ex_traces = 2" by (simp add: ex_traces_def)
  then have "1 < length ex_traces" by simp
  with conjunct2 [OF file_traces_shape [OF ex_result ex_file_traces]]
  have "subseq (zip (trace_x (ex_traces ! 1)) (trace_y (ex_traces ! 1)))
          (zip ([[0, 10, 20], [20, 30]] ! 1) ([[PInt 0, PFloat 2, PFloat 2], [PFloat 2, PFloat 2]] ! 1))"
    by blast
  with l show ?thesis by (simp add: ex_traces_def)
qed

theorem file_traces_Inl_iff_witness:
  "file_traces False ex_mod_fs ex_loads (''s.json'', ex_parser) = Inl AttributeError"
proof -
  have "\<exists>j < length [(''unknown/unknown'', PInt 3)]. isl (attack_label ([(''unknown/unknown'', PInt 3)] ! j))"
    by (intro exI [of _ 0]) (simp add: attack_label_def)
  then show ?thesis
    using file_traces_Inl_iff [OF ex_mod_result, of False "''s.json''" AttributeError] by simp
qed

theorem downsample_endpoints_exact_witness:
  "\<exists>sx sy. downsample (map of_nat [0..<1001] :: rat list) (map PInt (map int [0..<1001])) = Inr (sx, sy) \<and>
     hd sx = hd (map of_nat [0..<1001]) \<and> last sx = last (map of_nat [0..<1001]) \<and>
     hd sy = hd (map PInt (map int [0..<1001])) \<and> last sy = last (map PInt (map int [0..<1001]))"
  by (rule Downsample.downsample_endpoints_exact) simp_all

theorem downsample_subseq_pairs_witness:
  "length [PInt 1, PInt 3] = length [1, 3 :: rat] \<and>
   subseq (zip [1, 3 :: rat] [PInt 1, PInt 3]) (zip [1, 2, 3] [PInt 1, PInt 2, PInt 3])"
  using Downsample.downsample_subseq_pairs [OF _ ex_downsample] by simp

theorem downsample_length_bound_witness:
  "length [1, 3 :: rat] \<le> (length [1, 2, 3 :: rat] - 1) div 60 + 2"
  using Downsample.downsample_length_bound [OF _ ex_downsample] by simp

theorem app_reachable_settings_witness:
  "parsers_consistent (app_init [''a.json'']) \<and> hashcat_files (app_init [''a.json'']) = [''a.json''] \<and>
   app_status_timer (app_init [''a.json'']) = 1"
  by (rule App.app_reachable_settings [OF app_reachable.init])

theorem callback_update_applies_witness:
  "update_interval (fst (update_graph_and_settings (app_init [''a.json'']) (Some ''update-button.n_clicks'')
      (PInt 5) ''time'' ''count'' (PList [PStr ''highlight'']) ex_fs ex_loads)) = PInt 5000 \<and>
   parsers_consistent (fst (update_graph_and_settings (app_init [''a.json'']) (Some ''update-button.n_clicks'')
      (PInt 5) ''time'' ''count'' (PList [PStr ''highlight'']) ex_fs ex_loads))"
  using App.callback_update_applies [where refresh = "PInt 5" and interval = "PInt 5000"
      and st = "app_init [''a.json'']" and x_axis = "''time''" and y_axis = "''count''"
      and vs = "[PStr ''highlight'']" and fsys = ex_fs and loads = ex_loads
      and st' = "fst (update_graph_and_settings (app_init [''a.json'']) (Some ''update-button.n_clicks'')
                   (PInt 5) ''time'' ''count'' (PList [PStr ''highlight'']) ex_fs ex_loads)"
      and r = "snd (update_graph_and_settings (app_init [''a.json'']) (Some ''update-button.n_clicks'')
                   (PInt 5) ''time'' ''count'' (PList [PStr ''highlight'']) ex_fs ex_loads)"]
  by simp

theorem callback_stale_parsers_witness:
  "\<not> parsers_consistent (fst (update_graph_and_settings (app_init [''a.json''])
      (Some ''update-button.n_clicks'') (PInt 5) ''time'' ''count'' PNone ex_fs ex_loads))"
proof -
  have "parsers_consistent (app_init [''a.json''])"
    by (simp add: app_init_def update_parsers_consistent)
  moreover have "hashcat_files (app_init [''a.json'']) \<noteq> []"
    "''time'' \<noteq> app_x_axis_type (app_init [''a.json''])"
    by (simp_all add: app_init_def)
  ultimately show ?thesis by (rule App.callback_stale_parsers)
qed

theorem parse_status_file_curve_count_witness:
  "length [[0, 10, 20], [20, 30 :: rat]] =
     Suc (changes key_eq (map (snd \<circ> snd) [(10 :: rat, PFloat 2, ''unknown/dict1'', PNone),
       (10, PFloat 2, ''unknown/dict1'', PNone), (10, PFloat 2, ''unknown/potfile'', PNone)]))"
proof -
  have "ex_fs (filename ex_parser) = Some ex_content" by (simp add: ex_fs_def ex_parser_def)
  from Segmenter.parse_status_file_curve_count [OF ex_result this ex_records_wf ex_fields]
  show ?thesis by simp
qed

theorem main_start_spec_witness:
  "main_start ex_fs [''s.json''] = Inr (app_init [''s.json''])"
  using App.main_start_spec [of ex_fs "[''s.json'']" "app_init [''s.json'']"] by (simp add: ex_fs_def)

theorem main_start_error_witness:
  "main_start ex_fs [''s.json'', ''t.json''] = Inl (''Error: File '' @ [CHR 0x27] @ ''t.json'' @ [CHR 0x27] @ '' not found!'', 1)"
proof -
  have "[''s.json'', ''t.json''] = [''s.json''] @ ''t.json'' # [] \<and> ex_fs ''t.json'' = None \<and>
        (\<forall>g \<in> set [''s.json'']. ex_fs g \<noteq> None)"
    by (simp add: ex_fs_def)
  then show ?thesis
    using App.main_start_error [of ex_fs "[''s.json'', ''t.json'']"
        "''Error: File '' @ [CHR 0x27] @ ''t.json'' @ [CHR 0x27] @ '' not found!''" 1]
    by blast
qed

theorem update_with_initial_controls_witness:
  "fst (update_graph_and_settings (app_init [''a.json'']) (Some ''update-button.n_clicks'') (PInt 10)
      ''guesses'' ''percentage'' (PList [PStr ''highlight'']) ex_fs ex_loads) = app_init [''a.json'']"
  using Layout.update_with_initial_controls [of "[''a.json'']" "PInt 10" "''guesses''" "''percentage''"
      "PList [PStr ''highlight'']" ex_fs ex_loads]
  by (simp add: setup_layout_def Let_def)

theorem parse_status_file_points_witness:
  "concat (map tl [[0, 10, 20], [20, 30 :: rat]]) =
     map (x_value_at ex_parser [(10, PFloat 2, ''unknown/dict1'', PNone), (10, PFloat 2, ''unknown/dict1'', PNone),
          (10, PFloat 2, ''unknown/potfile'', PNone)]) [0..<3]"
proof -
  have "ex_fs (filename ex_parser) = Some ex_content" by (simp add: ex_fs_def ex_parser_def)
  from Segmenter.parse_status_file_points [OF ex_result this ex_fields] show ?thesis
    by (simp add: eval_nat_numeral)
qed

theorem parse_render_roundtrip_witness:
  "parse_args (render_args \<lparr>files = [''a.json'', ''b.json''], debug = True, host = ''0.0.0.0'', port = -1\<rparr>) =
     Inr \<lparr>files = [''a.json'', ''b.json''], debug = True, host = ''0.0.0.0'', port = -1\<rparr>"
  by (rule CommandLine.parse_render_roundtrip) (simp add: cli_plain_def plain_arg_def)

theorem options_between_files_unrecognized_witness:
  "parse_args [''a.json'', ''--debug'', ''b.json''] = Inl (Unrecognized [''b.json''])"
  using CommandLine.options_between_files_unrecognized [of "[''a.json'']" "[''b.json'']"]
  by (simp add: plain_arg_def)

theorem parse_args_files_witness:
  "[''a.json'', ''b.json''] \<noteq> [] \<and> subseq [''a.json'', ''b.json''] [''a.json'', ''b.json'']"
proof -
  have "parse_args [''a.json'', ''b.json''] =
    Inr \<lparr>files = [''a.json'', ''b.json''], debug = False, host = ''127.0.0.1'', port = 8050\<rparr>"
    by (rule parse_plain_files) (simp_all add: plain_arg_def)
  from CommandLine.parse_args_files [OF this] show ?thesis by simp
qed

theorem port_value_witness:
  "parse_args [''a.json'', ''--port'', ''x80''] = Inl (Invalid_Int ''x80'') \<and>
   parse_args [''a.json'', ''--port''] = Inl (Expected_One Act_Port)"
proof -
  have "py_int ''x80'' = None" by (simp add: py_int_def py_strip_def py_isspace_def py_isdigit_def)
  with CommandLine.port_value [of "[''a.json'']" "''x80''"] show ?thesis by (simp add: plain_arg_def)
qed

theorem main_serves_witness:
  "main_prog (\<lambda>f. if f = ''a.json'' then Some [] else None) [''a.json''] =
     Serve \<lparr>srv_app = dash_setup (app_init [''a.json'']), srv_debug = False, srv_host = ''127.0.0.1'',
            srv_port = 8050\<rparr>
       (banner \<lparr>files = [''a.json''], debug = False, host = ''127.0.0.1'', port = 8050\<rparr>)"
proof -
  have "parse_args [''a.json''] = Inr \<lparr>files = [''a.json''], debug = False, host = ''127.0.0.1'', port = 8050\<rparr>"
    by (rule parse_plain_files) (simp_all add: plain_arg_def)
  then show ?thesis
    by (subst CommandLine.main_serves) (auto simp: banner_def)
qed

end
